(* ===== verification/Prelude.thy ===== *)
theory Prelude
  imports Complex_Main "HOL-Library.Log_Nat"
begin

text \<open>
  The shared prelude: the named collections the component proofs draw on, the names of the
  types every component uses, decimal and general positional notation with its
  read/print round trip, and the contract of a step relation with an invariant.
\<close>

named_theorems js_simps \<open>evaluation rules of the JavaScript runtime model\<close>
named_theorems io_simps \<open>evaluation rules of the effectful (async) fragment\<close>
named_theorems page_simps \<open>evaluation rules of the wallet's page\<close>
named_theorems render_simps \<open>evaluation rules of observations on rendered trees\<close>

type_synonym byte = nat

section \<open>Positional notation\<close>

text \<open>
  \<open>digits b n\<close> is the list of base-\<open>b\<close> digits of \<open>n\<close>, most significant first, as every
  printer of the code base produces it (\<open>0\<close> prints as the single digit \<open>0\<close>);
  \<open>undigits b ds\<close> reads a list of digits back.
\<close>

fun digits :: "nat \<Rightarrow> nat \<Rightarrow> nat list" where
  "digits b n = (if b < 2 \<or> n < b then [n] else digits b (n div b) @ [n mod b])"

declare digits.simps [simp del]

definition undigits :: "nat \<Rightarrow> nat list \<Rightarrow> nat" where
  "undigits b ds = foldl (\<lambda>a d. a * b + d) 0 ds"

lemma undigits_simps [simp]:
  "undigits b [] = 0"
  "undigits b (ds @ [d]) = undigits b ds * b + d"
  by (simp_all add: undigits_def)

lemma undigits_single [simp]: "undigits b [d] = d"
  by (simp add: undigits_def)

lemma undigits_digits [simp]: "2 \<le> b \<Longrightarrow> undigits b (digits b n) = n"
proof (induction b n rule: digits.induct)
  case (1 b n)
  then show ?case
    by (subst digits.simps) (simp split: if_splits)
qed

lemma digits_nonempty [simp]: "digits b n \<noteq> []"
  by (subst digits.simps) simp

lemma digits_less: "2 \<le> b \<Longrightarrow> d \<in> set (digits b n) \<Longrightarrow> d < b"
proof (induction b n rule: digits.induct)
  case (1 b n)
  then show ?case
    by (subst (asm) (2) digits.simps) (auto split: if_splits)
qed

lemma digits_inj: "2 \<le> b \<Longrightarrow> digits b m = digits b n \<longleftrightarrow> m = n"
  by (metis undigits_digits)

lemma undigits_append: "undigits b (xs @ ys) = undigits b xs * b ^ length ys + undigits b ys"
proof (induction ys rule: rev_induct)
  case Nil
  then show ?case by simp
next
  case (snoc y ys)
  have "undigits b (xs @ ys @ [y]) = undigits b (xs @ ys) * b + y"
    by (metis append_assoc undigits_simps(2))
  then show ?case
    using snoc by (simp add: algebra_simps)
qed

lemma undigits_Cons: "undigits b (x # xs) = x * b ^ length xs + undigits b xs"
  using undigits_append [of b "[x]" xs] by simp

lemma undigits_less: "list_all (\<lambda>d. d < b) ds \<Longrightarrow> undigits b ds < b ^ length ds"
proof (induction ds)
  case Nil
  then show ?case by simp
next
  case (Cons d ds)
  then have "d + 1 \<le> b" and "undigits b ds < b ^ length ds" by simp_all
  then have "d * b ^ length ds + undigits b ds < (d + 1) * b ^ length ds"
    by simp
  also have "\<dots> \<le> b * b ^ length ds"
    using \<open>d + 1 \<le> b\<close> by (rule mult_le_mono1)
  finally show ?case by (simp add: undigits_Cons)
qed

lemma undigits_inj:
  assumes "list_all (\<lambda>d. d < b) xs" "list_all (\<lambda>d. d < b) ys"
    and "length xs = length ys" "undigits b xs = undigits b ys"
  shows "xs = ys"
  using assms(3,1,2,4)
proof (induction xs ys rule: list_induct2)
  case Nil
  then show ?case by simp
next
  case (Cons x xs y ys)
  let ?B = "b ^ length xs"
  have lt: "undigits b xs < ?B" "undigits b ys < ?B"
    using Cons.prems undigits_less [of b xs] undigits_less [of b ys] Cons.hyps by simp_all
  have eq: "x * ?B + undigits b xs = y * ?B + undigits b ys"
    using Cons.prems(3) Cons.hyps by (simp add: undigits_Cons)
  have "0 < ?B" using lt by linarith
  then have "(x * ?B + undigits b xs) div ?B = x" "(y * ?B + undigits b ys) div ?B = y"
    using lt by simp_all
  with eq have "x = y" by metis
  with eq Cons show ?case by simp
qed

section \<open>Digit characters\<close>

text \<open>The digit characters \<open>0-9a-z\<close> that \<open>parseInt\<close>, \<open>toString\<close> and \<open>{:02x}\<close> share.\<close>

definition digit_char :: "nat \<Rightarrow> char" where
  "digit_char d = char_of (if d < 10 then 48 + d else 87 + d)"

definition char_digit :: "char \<Rightarrow> nat option" where
  "char_digit c = (let k = of_char c in
     if 48 \<le> k \<and> k \<le> 57 then Some (k - 48)
     else if 97 \<le> k \<and> k \<le> 122 then Some (k - 87)
     else if 65 \<le> k \<and> k \<le> 90 then Some (k - 55)
     else None)"

lemma char_digit_digit_char [simp]: "d < 36 \<Longrightarrow> char_digit (digit_char d) = Some d"
  by (simp add: char_digit_def digit_char_def Let_def)

lemma digit_char_inj: "d < 36 \<Longrightarrow> e < 36 \<Longrightarrow> digit_char d = digit_char e \<longleftrightarrow> d = e"
  by (metis char_digit_digit_char option.inject)

definition nat_to_string :: "nat \<Rightarrow> string" where
  "nat_to_string n = map digit_char (digits 10 n)"

lemma nat_to_string_nonempty [simp]: "nat_to_string n \<noteq> []"
  by (simp add: nat_to_string_def)

lemma char_digit_nat_to_string:
  "map char_digit (nat_to_string n) = map Some (digits 10 n)"
  using digits_less [of 10 _ n] by (force simp: nat_to_string_def)

lemma nat_to_string_inj: "nat_to_string m = nat_to_string n \<longleftrightarrow> m = n"
proof
  assume "nat_to_string m = nat_to_string n"
  then have "map Some (digits 10 m) = map Some (digits 10 n)"
    by (metis char_digit_nat_to_string)
  then have "digits 10 m = digits 10 n"
    by (simp add: inj_map_eq_map)
  then show "m = n" by (simp add: digits_inj)
qed simp

section \<open>Step relations\<close>

text \<open>The contract of a step relation with an invariant, and what it gives for the states that are reached.\<close>

locale transition_system =
  fixes start :: "'s \<Rightarrow> bool" and step :: "'s \<Rightarrow> 's \<Rightarrow> bool" and inv :: "'s \<Rightarrow> bool"
  assumes starts_well: "start s \<Longrightarrow> inv s"
    and step_keeps: "step s t \<Longrightarrow> inv s \<Longrightarrow> inv t"
begin

lemma runs_inv: "step\<^sup>*\<^sup>* s t \<Longrightarrow> inv s \<Longrightarrow> inv t"
  by (induction rule: rtranclp_induct) (blast intro: step_keeps)+

lemma reached_inv: "start s \<Longrightarrow> step\<^sup>*\<^sup>* s t \<Longrightarrow> inv t"
  using runs_inv starts_well by blast

end

end
