(* ===== verification/Js_Number.thy ===== *)
theory Js_Number
  imports Prelude
begin

text \<open>
  The \<open>number\<close> type of the TypeScript sources: IEEE-754 binary64 values, with every
  arithmetic operation the sources use rounding to nearest, ties to even, as ECMAScript
  prescribes. A finite non-zero value is kept as the exact rational it denotes; \<open>Num 0\<close> is
  the positive zero. The second half holds the conversions the sources call:
  \<open>Number.prototype.toFixed\<close>, the number-to-string conversion behind template literals and
  rendered children, \<open>parseInt\<close>, and string-to-number coercion.
\<close>

datatype number = NaN | PosInf | NegInf | NegZero | Num rat

section \<open>Rounding\<close>

text \<open>Round a rational to the nearest integer, ties to the even one.\<close>

definition rne :: "rat \<Rightarrow> int" where
  "rne x = (let f = \<lfloor>x\<rfloor>; d = x - of_int f in
     if d < 1/2 then f else if 1/2 < d then f + 1 else if even f then f else f + 1)"

text \<open>The binary exponent of a positive rational: \<open>2 powi ilog2 x \<le> x < 2 powi (ilog2 x + 1)\<close>.\<close>

definition ilog2 :: "rat \<Rightarrow> int" where
  "ilog2 x = (let (p, q) = quotient_of x; e = bitlen p - bitlen q in
     if 2 powi e \<le> x then e else e - 1)"

text \<open>
  The spacing of the doubles around a positive rational: 52 fraction bits below the leading
  one, but never finer than \<open>2 powi -1074\<close> (the subnormal range).
\<close>

definition ulp_exp :: "rat \<Rightarrow> int" where
  "ulp_exp x = max (ilog2 x - 52) (- 1074)"

definition rnd_pos :: "rat \<Rightarrow> rat" where
  "rnd_pos x = of_int (rne (x / 2 powi ulp_exp x)) * 2 powi ulp_exp x"

text \<open>
  The number nearest to a rational: overflow gives an infinity, and a result of magnitude
  zero takes the sign of the rational.
\<close>

definition fl :: "rat \<Rightarrow> number" where
  "fl x =
     (if x = 0 then Num 0
      else if 0 < x then (let y = rnd_pos x in if 2 ^ 1024 \<le> y then PosInf else Num y)
      else (let y = rnd_pos (- x) in
        if 2 ^ 1024 \<le> y then NegInf else if y = 0 then NegZero else Num (- y)))"

text \<open>The value a finite number denotes; \<open>None\<close> for NaN and the infinities.\<close>

fun val :: "number \<Rightarrow> rat option" where
  "val (Num r) = Some r"
| "val NegZero = Some 0"
| "val _ = None"

text \<open>The sign bit.\<close>

fun neg :: "number \<Rightarrow> bool" where
  "neg (Num r) = (r < 0)"
| "neg NegZero = True"
| "neg NegInf = True"
| "neg _ = False"

definition zero :: "bool \<Rightarrow> number" where
  "zero s = (if s then NegZero else Num 0)"

definition inf :: "bool \<Rightarrow> number" where
  "inf s = (if s then NegInf else PosInf)"

section \<open>Arithmetic operators\<close>

definition js_uminus :: "number \<Rightarrow> number" where
  "js_uminus a = (case a of NaN \<Rightarrow> NaN | PosInf \<Rightarrow> NegInf | NegInf \<Rightarrow> PosInf
     | NegZero \<Rightarrow> Num 0 | Num r \<Rightarrow> if r = 0 then NegZero else Num (- r))"

definition js_add :: "number \<Rightarrow> number \<Rightarrow> number" where
  "js_add a b = (case (val a, val b) of
     (Some x, Some y) \<Rightarrow> if a = NegZero \<and> b = NegZero then NegZero else fl (x + y)
   | (Some x, None) \<Rightarrow> b
   | (None, Some y) \<Rightarrow> a
   | (None, None) \<Rightarrow> if a = b then a else NaN)"

definition js_sub :: "number \<Rightarrow> number \<Rightarrow> number" where
  "js_sub a b = js_add a (js_uminus b)"

definition js_mul :: "number \<Rightarrow> number \<Rightarrow> number" where
  "js_mul a b = (let s = (neg a \<noteq> neg b) in case (val a, val b) of
     (Some x, Some y) \<Rightarrow> if x * y = 0 then zero s else fl (x * y)
   | (Some x, None) \<Rightarrow> if b = NaN \<or> x = 0 then NaN else inf s
   | (None, Some y) \<Rightarrow> if a = NaN \<or> y = 0 then NaN else inf s
   | (None, None) \<Rightarrow> if a = NaN \<or> b = NaN then NaN else inf s)"

definition js_div :: "number \<Rightarrow> number \<Rightarrow> number" where
  "js_div a b = (let s = (neg a \<noteq> neg b) in case (val a, val b) of
     (Some x, Some y) \<Rightarrow>
       if y = 0 then (if x = 0 then NaN else inf s) else if x = 0 then zero s else fl (x / y)
   | (Some x, None) \<Rightarrow> if b = NaN then NaN else zero s
   | (None, Some y) \<Rightarrow> if a = NaN then NaN else inf s
   | (None, None) \<Rightarrow> NaN)"

text \<open>The remainder \<open>%\<close> takes the sign of the dividend; it is exact.\<close>

definition trunc :: "rat \<Rightarrow> int" where
  "trunc x = (if 0 \<le> x then \<lfloor>x\<rfloor> else \<lceil>x\<rceil>)"

definition js_rem :: "number \<Rightarrow> number \<Rightarrow> number" where
  "js_rem a b = (case (val a, val b) of
     (Some x, Some y) \<Rightarrow>
       if y = 0 then NaN else if x = 0 then a
       else (let r = x - of_int (trunc (x / y)) * y in if r = 0 then zero (neg a) else fl r)
   | (Some x, None) \<Rightarrow> if b = NaN then NaN else a
   | (None, _) \<Rightarrow> NaN)"

definition js_less :: "number \<Rightarrow> number \<Rightarrow> bool" where
  "js_less a b = (case (val a, val b) of
     (Some x, Some y) \<Rightarrow> x < y
   | (Some x, None) \<Rightarrow> b = PosInf
   | (None, Some y) \<Rightarrow> a = NegInf
   | (None, None) \<Rightarrow> a = NegInf \<and> b = PosInf)"

section \<open>The functions of \<open>Math\<close>\<close>

definition math_floor :: "number \<Rightarrow> number" where
  "math_floor a = (case a of Num r \<Rightarrow> Num (of_int \<lfloor>r\<rfloor>) | _ \<Rightarrow> a)"

definition math_max :: "number \<Rightarrow> number \<Rightarrow> number" where
  "math_max a b =
     (if a = NaN \<or> b = NaN then NaN
      else if val a = Some 0 \<and> val b = Some 0 then zero (neg a \<and> neg b)
      else if js_less a b then b else a)"

definition math_min :: "number \<Rightarrow> number \<Rightarrow> number" where
  "math_min a b =
     (if a = NaN \<or> b = NaN then NaN
      else if val a = Some 0 \<and> val b = Some 0 then zero (neg a \<or> neg b)
      else if js_less b a then b else a)"

text \<open>
  \<open>Math.pow(2, n)\<close> for the exponents the sources pass: \<open>n\<close> is always the result of
  \<open>Math.floor\<close>, so it is an integer, a signed zero, an infinity or NaN. Powers of two are
  exact until they leave the range of the format.
\<close>

definition math_pow2 :: "number \<Rightarrow> number" where
  "math_pow2 a = (case a of NaN \<Rightarrow> NaN | PosInf \<Rightarrow> PosInf | NegInf \<Rightarrow> Num 0
     | NegZero \<Rightarrow> Num 1
     | Num r \<Rightarrow> if 1024 \<le> r then PosInf else if r < - 1074 then Num 0 else Num (2 powi \<lfloor>r\<rfloor>))"

section \<open>Facts about rounding\<close>

lemma rne_of_int [simp]: "rne (of_int n) = n"
  by (simp add: rne_def Let_def)

lemma rne_error: "\<bar>of_int (rne x) - x\<bar> \<le> 1/2"
proof -
  have "of_int \<lfloor>x\<rfloor> \<le> x" and "x < of_int \<lfloor>x\<rfloor> + 1"
    by linarith+
  then show ?thesis
    by (auto simp: rne_def Let_def)
qed

lemma rne_nonneg: "0 \<le> x \<Longrightarrow> 0 \<le> rne x"
  by (auto simp: rne_def Let_def)

lemma pow2_pos [simp]: "0 < (2 :: rat) powi e"
  by simp

lemma pow2_le_iff [simp]: "(2 :: rat) powi a \<le> 2 powi b \<longleftrightarrow> a \<le> b"
  by (metis linorder_not_less one_less_numeral_iff order.order_iff_strict
      power_int_strict_increasing semiring_norm(76))

lemma ilog2_bounds:
  assumes "0 < x"
  shows "2 powi ilog2 x \<le> x" and "x < 2 powi (ilog2 x + 1)"
proof -
  obtain p q where pq: "quotient_of x = (p, q)" by force
  have q: "0 < q" using pq by (rule quotient_of_denom_pos)
  have x: "x = of_int p / of_int q" using pq by (rule quotient_of_div)
  have p: "0 < p" using assms q by (simp add: x zero_less_divide_iff)
  have nn: "1 \<le> bitlen p" "1 \<le> bitlen q"
    using p q bitlen_nonneg [of p] bitlen_nonneg [of q] bitlen_eq_zero_iff [of p] bitlen_eq_zero_iff [of q]
    by linarith+
  have bnd: "(2 :: rat) powi (bitlen n - 1) \<le> of_int n \<and> (of_int n :: rat) < 2 powi bitlen n"
    if "0 < n" "1 \<le> bitlen n" for n
  proof -
    have "(of_int (2 ^ nat (bitlen n - 1)) :: rat) \<le> of_int n" "(of_int n :: rat) < of_int (2 ^ nat (bitlen n))"
      using bitlen_bounds [OF that(1)] by (simp_all only: of_int_le_iff of_int_less_iff)
    then show ?thesis using that(2) by (simp add: power_int_def)
  qed
  let ?e = "bitlen p - bitlen q"
  note bp = bnd [OF p nn(1)] and bq = bnd [OF q nn(2)]
  have q': "(0 :: rat) < of_int q" using q by simp
  have up: "x < 2 powi (?e + 1)"
  proof -
    have "of_int p < (2 :: rat) powi (?e + 1) * 2 powi (bitlen q - 1)"
      using bp by (simp flip: power_int_add)
    also have "\<dots> \<le> 2 powi (?e + 1) * of_int q"
      using bq by (intro mult_left_mono) simp_all
    finally show ?thesis using q' by (simp add: x pos_divide_less_eq)
  qed
  have lo: "2 powi (?e - 1) \<le> x"
  proof -
    have "(2 :: rat) powi (?e - 1) * of_int q \<le> 2 powi (?e - 1) * 2 powi bitlen q"
      using bq by (intro mult_left_mono) simp_all
    also have "\<dots> \<le> of_int p"
      using bp by (simp flip: power_int_add)
    finally show ?thesis using q' by (simp add: x pos_le_divide_eq)
  qed
  have il: "ilog2 x = (if 2 powi ?e \<le> x then ?e else ?e - 1)"
    by (simp add: ilog2_def pq)
  show "2 powi ilog2 x \<le> x" using lo by (simp add: il)
  show "x < 2 powi (ilog2 x + 1)" using up by (simp add: il)
qed

lemma ilog2_le: "0 < x \<Longrightarrow> x < 2 powi e \<Longrightarrow> ilog2 x < e"
  using ilog2_bounds(1) [of x] order.strict_trans1 [of "2 powi ilog2 x" x "2 powi e"]
  by (metis not_le pow2_le_iff)

lemma ilog2_ge: "0 < x \<Longrightarrow> 2 powi e \<le> x \<Longrightarrow> e \<le> ilog2 x"
  using ilog2_bounds(2) [of x] pow2_le_iff [of "ilog2 x + 1" e] by fastforce

lemma rnd_pos_on_grid: "x / 2 powi ulp_exp x = of_int k \<Longrightarrow> rnd_pos x = x"
  by (metis nonzero_divide_eq_eq pow2_pos less_irrefl rnd_pos_def rne_of_int)

lemma rnd_pos_exact:
  assumes "0 < m" "m < 2 ^ 53" "- 1074 \<le> e"
  shows "rnd_pos (of_int m * 2 powi e) = of_int m * 2 powi e"
proof -
  let ?x = "of_int m * 2 powi e :: rat" and ?u = "ulp_exp (of_int m * 2 powi e)"
  have "(of_int m :: rat) < of_int (2 ^ 53)"
    using assms(2) by (simp only: of_int_less_iff)
  then have "?x < 2 ^ 53 * 2 powi e"
    by (intro mult_strict_right_mono) simp_all
  also have "\<dots> = 2 powi (53 + e)"
    by (simp add: power_int_add)
  finally have "ilog2 ?x < 53 + e"
    using assms(1) by (intro ilog2_le) simp_all
  then have u: "?u \<le> e"
    using assms(3) by (simp add: ulp_exp_def)
  have "?x / 2 powi ?u = of_int m * 2 powi (e - ?u)"
    by (simp add: power_int_diff)
  also have "\<dots> = of_int (m * 2 ^ nat (e - ?u))"
    using u by (simp add: power_int_def)
  finally show ?thesis by (rule rnd_pos_on_grid)
qed

lemma rnd_pos_error:
  assumes "2 powi (- 1022) \<le> x"
  shows "\<bar>rnd_pos x - x\<bar> \<le> x / 2 ^ 53"
proof -
  have x: "0 < x" using assms pow2_pos order.strict_trans2 by blast
  let ?u = "ulp_exp x"
  have u: "?u = ilog2 x - 52"
    using ilog2_ge [OF x assms] by (simp add: ulp_exp_def)
  have "rnd_pos x - x = (of_int (rne (x / 2 powi ?u)) - x / 2 powi ?u) * 2 powi ?u"
    by (simp add: rnd_pos_def algebra_simps)
  then have "\<bar>rnd_pos x - x\<bar> = \<bar>of_int (rne (x / 2 powi ?u)) - x / 2 powi ?u\<bar> * 2 powi ?u"
    by (simp add: abs_mult)
  also have "\<dots> \<le> 1/2 * 2 powi ?u"
    by (intro mult_right_mono rne_error) simp
  also have "\<dots> = 2 powi ilog2 x / 2 ^ 53"
    by (simp add: u power_int_diff)
  also have "\<dots> \<le> x / 2 ^ 53"
    by (intro divide_right_mono ilog2_bounds(1) x) simp
  finally show ?thesis .
qed

lemma rne_ge: "of_int n \<le> x \<Longrightarrow> n \<le> rne x"
  using le_floor_iff [of n x] by (auto simp: rne_def Let_def)

lemma rnd_pos_ge_int:
  assumes "of_int k \<le> x" "0 < x" "x < 2 ^ 53"
  shows "of_int k \<le> rnd_pos x"
proof -
  let ?u = "ulp_exp x"
  have "ilog2 x < 53" using assms by (intro ilog2_le) simp_all
  then have u: "?u \<le> 0" by (simp add: ulp_exp_def)
  have grid: "of_int k / 2 powi ?u = (of_int (k * 2 ^ nat (- ?u)) :: rat)"
    using u by (simp add: power_int_def field_simps)
  have "of_int (k * 2 ^ nat (- ?u)) \<le> x / 2 powi ?u"
    using assms(1) by (simp only: grid [symmetric] divide_right_mono pow2_pos less_imp_le)
  then have "of_int (k * 2 ^ nat (- ?u)) \<le> (of_int (rne (x / 2 powi ?u)) :: rat)"
    using rne_ge of_int_le_iff by blast
  then have "of_int k / 2 powi ?u \<le> (of_int (rne (x / 2 powi ?u)) :: rat)"
    by (simp only: grid)
  then show ?thesis
    by (simp add: rnd_pos_def pos_divide_le_eq)
qed

lemma fl_pos_exact:
  assumes "0 < m" "m < 2 ^ 53" "- 1074 \<le> e" "e \<le> 971"
  shows "fl (of_int m * 2 powi e) = Num (of_int m * 2 powi e)"
proof -
  have "(of_int m :: rat) < of_int (2 ^ 53)"
    using assms(2) by (simp only: of_int_less_iff)
  then have "of_int m * 2 powi e < 2 ^ 53 * (2 powi e :: rat)"
    by (intro mult_strict_right_mono) simp_all
  also have "\<dots> = 2 powi (53 + e)"
    by (simp add: power_int_add)
  also have "\<dots> \<le> 2 powi 1024"
    using assms(4) by (simp only: pow2_le_iff)
  finally have "of_int m * 2 powi e < (2 ^ 1024 :: rat)" by simp
  with assms show ?thesis
    by (simp add: fl_def rnd_pos_exact Let_def)
qed

lemma fl_pow2: "- 1074 \<le> e \<Longrightarrow> e \<le> 971 \<Longrightarrow> fl (2 powi e) = Num (2 powi e)"
  using fl_pos_exact [of 1 e] by simp

lemma fl_uminus: "0 < x \<Longrightarrow> fl x = Num y \<Longrightarrow> 0 < y \<Longrightarrow> fl (- x) = Num (- y)"
  by (auto simp: fl_def Let_def split: if_splits)

lemma fl_nat: "n \<le> 2 ^ 53 \<Longrightarrow> fl (of_nat n) = Num (of_nat n)"
proof -
  assume n: "n \<le> 2 ^ 53"
  consider "n = 0" | "0 < n" "n < 2 ^ 53" | "n = 2 ^ 53" using n by linarith
  then show ?thesis
  proof cases
    case 1
    then show ?thesis by (simp add: fl_def)
  next
    case 2
    then show ?thesis using fl_pos_exact [of "int n" 0] by simp
  next
    case 3
    then show ?thesis using fl_pow2 [of 53] by simp
  qed
qed

lemma fl_of_int [js_simps]: "\<bar>n\<bar> \<le> 2 ^ 53 \<Longrightarrow> fl (of_int n) = Num (of_int n)"
proof (cases "0 \<le> n")
  case True
  assume "\<bar>n\<bar> \<le> 2 ^ 53"
  with True show ?thesis using fl_nat [of "nat n"] by simp
next
  case False
  assume "\<bar>n\<bar> \<le> 2 ^ 53"
  with False have "fl (of_nat (nat (- n))) = Num (of_nat (nat (- n)))"
    by (intro fl_nat) simp
  with False show ?thesis
    using fl_uminus [of "of_nat (nat (- n))" "of_nat (nat (- n))"] by simp
qed

lemma fl_numeral [simp]: "numeral w \<le> (2 :: int) ^ 53 \<Longrightarrow> fl (numeral w) = Num (numeral w)"
  using fl_of_int [of "numeral w"] by simp

lemma fl_0_1 [simp]: "fl 0 = Num 0" "fl 1 = Num 1"
  using fl_of_int [of 0] fl_of_int [of 1] by simp_all

text \<open>A quotient of safe integers is never rounded across an integer: the floor is exact.\<close>

lemma rnd_quotient:
  fixes a b :: int
  assumes "0 < a" "a < 2 ^ 53" "0 < b" "b < 2 ^ 53"
  defines "x \<equiv> of_int a / of_int b :: rat"
  shows "fl x = Num (rnd_pos x)" and "\<bar>rnd_pos x - x\<bar> \<le> x / 2 ^ 53"
    and "\<lfloor>rnd_pos x\<rfloor> = a div b"
proof -
  have ab: "(1 :: rat) \<le> of_int a" "of_int a < (of_int (2 ^ 53) :: rat)"
      "(0 :: rat) < of_int b" "(1 :: rat) \<le> of_int b" "of_int b < (of_int (2 ^ 53) :: rat)"
    using assms(1-4) by (simp_all only: of_int_less_iff of_int_0_less_iff of_int_1_le_iff int_one_le_iff_zero_less)
  have dm: "a div b * b + a mod b = a" "0 \<le> a mod b" "a mod b < b"
    using assms(3) by simp_all
  have x: "0 < x" using ab by (simp add: x_def)
  have "x \<le> of_int a" using ab by (simp add: x_def divide_le_eq mult_le_cancel_left1)
  then have up: "x < 2 ^ 53" using ab by simp
  have "2 powi (- 53) \<le> x"
  proof -
    have "(1 :: rat) / 2 ^ 53 \<le> 1 / of_int b"
      using ab by (intro divide_left_mono) simp_all
    also have "\<dots> \<le> x" using ab by (simp add: x_def divide_right_mono)
    finally show ?thesis by (simp only: power_int_minus_divide power_int_numeral)
  qed
  moreover have "(2 :: rat) powi (- 1022) \<le> 2 powi (- 53)"
    by (subst pow2_le_iff) simp
  ultimately have lo: "2 powi (- 1022) \<le> x" by (rule order_trans [rotated])
  show err: "\<bar>rnd_pos x - x\<bar> \<le> x / 2 ^ 53"
    by (rule rnd_pos_error [OF lo])
  then have "rnd_pos x \<le> x + x / 2 ^ 53" by linarith
  also have "\<dots> < 2 ^ 54" using up by simp
  also have "\<dots> < (2 ^ 1024 :: rat)" by simp
  finally show "fl x = Num (rnd_pos x)"
    using x by (simp add: fl_def Let_def)
  show "\<lfloor>rnd_pos x\<rfloor> = a div b"
  proof (rule floor_unique)
    have "of_int (a div b) * of_int b \<le> (of_int a :: rat)"
      using dm by (metis le_add_same_cancel1 of_int_le_iff of_int_mult)
    then have "of_int (a div b) \<le> x" using ab by (simp add: x_def pos_le_divide_eq)
    then show "of_int (a div b) \<le> rnd_pos x" using x up by (intro rnd_pos_ge_int)
  next
    have "a + 1 \<le> (a div b + 1) * b"
      unfolding distrib_right using dm by linarith
    then have "(of_int (a + 1) :: rat) \<le> of_int ((a div b + 1) * b)"
      by (simp only: of_int_le_iff)
    then have k: "(of_int a + 1) / of_int b \<le> (of_int (a div b) + 1 :: rat)"
      using ab by (simp add: pos_divide_le_eq)
    have "x / 2 ^ 53 < 1 / of_int b"
      using ab by (simp add: x_def field_simps)
    then have "rnd_pos x < x + 1 / of_int b" using err by linarith
    also have "\<dots> = (of_int a + 1) / of_int b" by (simp add: x_def add_divide_distrib)
    finally show "rnd_pos x < of_int (a div b) + 1" using k by linarith
  qed
qed

section \<open>Arithmetic on natural numbers below \<open>2^53\<close> is exact\<close>

lemma js_div_nat_floor:
  assumes "a < 2 ^ 53" "0 < b" "b < 2 ^ 53"
  shows "math_floor (js_div (Num (of_nat a)) (Num (of_nat b))) = Num (of_nat (a div b))"
proof (cases "a = 0")
  case True
  with assms show ?thesis by (simp add: js_div_def math_floor_def zero_def)
next
  case False
  then have *: "0 < int a" "int a < 2 ^ 53" "0 < int b" "int b < 2 ^ 53"
    using assms by simp_all
  show ?thesis
    using rnd_quotient(1,3) [OF *] assms False
    by (simp add: js_div_def math_floor_def flip: zdiv_int)
qed

lemma js_add_nat: "a + b \<le> 2 ^ 53 \<Longrightarrow> js_add (Num (of_nat a)) (Num (of_nat b)) = Num (of_nat (a + b))"
  using fl_nat [of "a + b"] by (simp add: js_add_def)

lemma js_mul_nat: "a * b \<le> 2 ^ 53 \<Longrightarrow> js_mul (Num (of_nat a)) (Num (of_nat b)) = Num (of_nat (a * b))"
  using fl_nat [of "a * b"] by (auto simp: js_mul_def zero_def)

lemma js_sub_nat:
  "b \<le> a \<Longrightarrow> a \<le> 2 ^ 53 \<Longrightarrow> js_sub (Num (of_nat a)) (Num (of_nat b)) = Num (of_nat (a - b))"
  using fl_nat [of "a - b"] by (auto simp: js_sub_def js_add_def js_uminus_def)

lemma math_pow2_nat: "math_pow2 (Num (of_nat k)) = (if k < 1024 then Num (2 ^ k) else PosInf)"
proof -
  have "(1024 :: rat) \<le> of_nat k \<longleftrightarrow> 1024 \<le> k"
    using of_nat_le_iff [of 1024 k, where 'a = rat] by simp
  then show ?thesis by (simp add: math_pow2_def)
qed

lemma js_rem_nat:
  assumes "a \<le> 2 ^ 53" "0 < b"
  shows "js_rem (Num (of_nat a)) (Num (of_nat b)) = Num (of_nat (a mod b))"
proof (cases "a = 0")
  case False
  have "trunc (of_nat a / of_nat b) = int (a div b)"
    by (simp add: trunc_def floor_divide_of_nat_eq)
  moreover have "(of_nat a :: rat) - of_nat (a div b) * of_nat b = of_nat (a mod b)"
    by (metis add_diff_cancel_left' div_mult_mod_eq of_nat_add of_nat_mult)
  moreover have "a mod b \<le> 2 ^ 53"
    using assms(1) mod_less_eq_dividend order_trans by blast
  ultimately show ?thesis
    using False assms(2) by (simp add: js_rem_def fl_nat zero_def)
qed (use assms in \<open>simp add: js_rem_def\<close>)

lemmas js_nat_arith = js_add_nat js_mul_nat js_sub_nat js_rem_nat js_div_nat_floor math_pow2_nat

lemma fl_error:
  assumes "2 powi (- 1022) \<le> x" "x \<le> 2 powi 1000"
  obtains y where "fl x = Num y" "\<bar>y - x\<bar> \<le> x / 2 ^ 53" "0 < y"
proof
  have x: "0 < x" using assms(1) pow2_pos order.strict_trans2 by blast
  show err: "\<bar>rnd_pos x - x\<bar> \<le> x / 2 ^ 53" by (rule rnd_pos_error [OF assms(1)])
  have small: "x / 2 ^ 53 \<le> x / 2" using x by (intro divide_left_mono) simp_all
  show "0 < rnd_pos x" using err small x by linarith
  have "rnd_pos x \<le> 2 * x" using err small x by linarith
  also have "\<dots> \<le> 2 * 2 powi 1000" using assms(2) by simp
  also have "\<dots> < (2 ^ 1024 :: rat)" by simp
  finally show "fl x = Num (rnd_pos x)" using x by (simp add: fl_def Let_def)
qed

end
