(* ===== verification/Js_String.thy ===== *)
theory Js_String
  imports Js_Number
begin

text \<open>
  Strings of the TypeScript sources and the conversions between numbers and text that the
  sources call: \<open>substring\<close>, \<open>substr\<close>, \<open>includes\<close>, \<open>parseInt\<close>, \<open>Number.prototype.toFixed\<close>,
  the number-to-string conversion behind template literals and rendered children, and the
  string-to-number coercion of the arithmetic operators. A string is the list of its code
  units; \<open>char\<close> holds the code units below 256, which is every character of the data the
  modelled code computes on.
\<close>

section \<open>String methods\<close>

definition js_substring :: "nat \<Rightarrow> nat \<Rightarrow> string \<Rightarrow> string" where
  "js_substring a b s = (let lo = min a b; hi = max a b in take (hi - lo) (drop lo s))"

definition js_substr :: "nat \<Rightarrow> nat \<Rightarrow> string \<Rightarrow> string" where
  "js_substr a n s = take n (drop a s)"

fun is_prefix :: "string \<Rightarrow> string \<Rightarrow> bool" where
  "is_prefix [] s = True"
| "is_prefix (p # ps) [] = False"
| "is_prefix (p # ps) (c # cs) = (p = c \<and> is_prefix ps cs)"

fun js_includes :: "string \<Rightarrow> string \<Rightarrow> bool" where
  "js_includes p [] = (p = [])"
| "js_includes p (c # cs) = (is_prefix p (c # cs) \<or> js_includes p cs)"

lemma is_prefix_iff: "is_prefix p s \<longleftrightarrow> (\<exists>t. s = p @ t)"
  by (induction p s rule: is_prefix.induct) auto

lemma js_includes_iff: "js_includes p s \<longleftrightarrow> (\<exists>a b. s = a @ p @ b)"
proof (induction p s rule: js_includes.induct)
  case (1 p)
  then show ?case by simp
next
  case (2 p c cs)
  have "(\<exists>a b. c # cs = a @ p @ b) \<longleftrightarrow> (\<exists>b. c # cs = p @ b) \<or> (\<exists>a b. cs = a @ p @ b)"
    by (metis append_Cons append_Nil list.sel(3) tl_append2 append_eq_Cons_conv)
  then show ?case using 2 by (simp add: is_prefix_iff)
qed

definition is_space :: "char \<Rightarrow> bool" where
  "is_space c = (of_char c \<in> {9, 10, 11, 12, 13, 32, 160 :: nat})"

definition is_dec :: "char \<Rightarrow> bool" where
  "is_dec c = (48 \<le> (of_char c :: nat) \<and> (of_char c :: nat) \<le> 57)"

definition dec_val :: "string \<Rightarrow> nat" where
  "dec_val s = undigits 10 (map (\<lambda>c. of_char c - 48) s)"

section \<open>Printing numbers\<close>

text \<open>\<open>x.toFixed(f)\<close> for \<open>|x| < 10^21\<close>: the nearest multiple of \<open>10^-f\<close>, ties upward.\<close>

definition fixed_digits :: "nat \<Rightarrow> rat \<Rightarrow> string" where
  "fixed_digits f x =
     (let m = nat_to_string (nat \<lfloor>x * 10 ^ f + 1/2\<rfloor>);
          p = replicate (f + 1 - length m) CHR ''0'' @ m
      in if f = 0 then m else take (length p - f) p @ ''.'' @ drop (length p - f) p)"

text \<open>
  Shortest decimal representation: \<open>dec_exp x\<close> is the \<open>n\<close> with \<open>10^(n-1) \<le> x < 10^n\<close>; for
  each count \<open>k\<close> of significant digits the two neighbouring candidates are tried, and the
  first \<open>k\<close> for which one of them reads back as \<open>x\<close> wins.
\<close>

definition dec_exp :: "rat \<Rightarrow> int" where
  "dec_exp x = (if 1 \<le> x then int (length (digits 10 (nat \<lfloor>x\<rfloor>)))
     else 1 - int (length (digits 10 (nat (\<lceil>1 / x\<rceil> - 1)))))"

definition shortest_at :: "rat \<Rightarrow> nat \<Rightarrow> (nat \<times> int) option" where
  "shortest_at x k =
     (let n = dec_exp x; q = x / 10 powi (n - int k); lo = nat \<lfloor>q\<rfloor>; hi = nat \<lceil>q\<rceil>;
          ok = (\<lambda>s. fl (of_nat s * 10 powi (n - int k)) = Num x);
          near_lo = (q - of_nat lo < of_nat hi - q \<or> (q - of_nat lo = of_nat hi - q \<and> even lo));
          pick = (\<lambda>s. if s = 10 ^ k then (10 ^ (k - 1), n + 1) else (s, n))
      in if ok lo \<and> (near_lo \<or> \<not> ok hi) then Some (pick lo)
         else if ok hi then Some (pick hi) else None)"

fun shortest_from :: "rat \<Rightarrow> nat list \<Rightarrow> nat \<times> int" where
  "shortest_from x [] = (nat \<lfloor>x / 10 powi (dec_exp x - 17)\<rfloor>, dec_exp x)"
| "shortest_from x (k # ks) = (case shortest_at x k of Some r \<Rightarrow> r | None \<Rightarrow> shortest_from x ks)"

definition int_to_string :: "int \<Rightarrow> string" where
  "int_to_string i = (if i < 0 then ''-'' @ nat_to_string (nat (- i)) else nat_to_string (nat i))"

definition place_point :: "nat \<times> int \<Rightarrow> string" where
  "place_point r = (let (s, n) = r; m = nat_to_string s; k = int (length m);
       e = (if 0 < n - 1 then ''+'' else []) @ int_to_string (n - 1) in
     if k \<le> n \<and> n \<le> 21 then m @ replicate (nat (n - k)) CHR ''0''
     else if 0 < n \<and> n \<le> 21 then take (nat n) m @ ''.'' @ drop (nat n) m
     else if - 6 < n \<and> n \<le> 0 then ''0.'' @ replicate (nat (- n)) CHR ''0'' @ m
     else if k = 1 then m @ ''e'' @ e
     else take 1 m @ ''.'' @ drop 1 m @ ''e'' @ e)"

text \<open>
  A positive number; for the integers up to \<open>2^53\<close> the shortest representation is the
  ordinary decimal notation.
\<close>

definition pos_to_string :: "rat \<Rightarrow> string" where
  "pos_to_string x =
     (if of_int \<lfloor>x\<rfloor> = x \<and> x \<le> 2 ^ 53 then nat_to_string (nat \<lfloor>x\<rfloor>)
      else place_point (shortest_from x [1..<18]))"

definition num_to_string :: "number \<Rightarrow> string" where
  "num_to_string a = (case a of NaN \<Rightarrow> ''NaN'' | PosInf \<Rightarrow> ''Infinity'' | NegInf \<Rightarrow> ''-Infinity''
     | NegZero \<Rightarrow> ''0''
     | Num r \<Rightarrow> if r < 0 then ''-'' @ pos_to_string (- r) else pos_to_string r)"

definition to_fixed :: "nat \<Rightarrow> number \<Rightarrow> string" where
  "to_fixed f a = (case a of
     Num r \<Rightarrow> if 10 ^ 21 \<le> \<bar>r\<bar> then num_to_string a
       else (if r < 0 then ''-'' else []) @ fixed_digits f \<bar>r\<bar>
   | NegZero \<Rightarrow> fixed_digits f 0
   | _ \<Rightarrow> num_to_string a)"

section \<open>Reading numbers\<close>

definition strip_sign :: "string \<Rightarrow> bool \<times> string" where
  "strip_sign s = (case s of c # cs \<Rightarrow>
       if c = CHR ''-'' then (True, cs) else if c = CHR ''+'' then (False, cs) else (False, s)
     | [] \<Rightarrow> (False, []))"

fun radix_prefix :: "nat \<Rightarrow> string \<Rightarrow> nat list" where
  "radix_prefix r [] = []"
| "radix_prefix r (c # cs) = (case char_digit c of
     Some d \<Rightarrow> if d < r then d # radix_prefix r cs else []
   | None \<Rightarrow> [])"

text \<open>\<open>parseInt(s, radix)\<close>; radix \<open>0\<close> stands for the missing argument.\<close>

definition parse_int :: "nat \<Rightarrow> string \<Rightarrow> number" where
  "parse_int radix s =
     (let (sg, t) = strip_sign (dropWhile is_space s);
          hex = (radix = 0 \<or> radix = 16) \<and> (is_prefix ''0x'' t \<or> is_prefix ''0X'' t);
          r = (if hex then 16 else if radix = 0 then 10 else radix);
          ds = radix_prefix r (if hex then drop 2 t else t);
          v = fl (of_nat (undigits r ds))
      in if ds = [] then NaN else if sg then js_uminus v else v)"

definition trim :: "string \<Rightarrow> string" where
  "trim s = rev (dropWhile is_space (rev (dropWhile is_space s)))"

definition exponent_part :: "string \<Rightarrow> int option" where
  "exponent_part s = (case s of [] \<Rightarrow> Some 0
     | c # cs \<Rightarrow> (let (sg, t) = strip_sign cs in
         if (c = CHR ''e'' \<or> c = CHR ''E'') \<and> t \<noteq> [] \<and> list_all is_dec t
         then Some (if sg then - int (dec_val t) else int (dec_val t)) else None))"

definition decimal_literal :: "string \<Rightarrow> rat option" where
  "decimal_literal s =
     (let ip = takeWhile is_dec s; r = dropWhile is_dec s;
          (fp, r') = (case r of [] \<Rightarrow> ([], []) | c # t \<Rightarrow>
             if c = CHR ''.'' then (takeWhile is_dec t, dropWhile is_dec t) else ([], r))
      in if ip = [] \<and> fp = [] then None
         else map_option (\<lambda>e. of_nat (dec_val (ip @ fp)) * 10 powi (e - int (length fp)))
                (exponent_part r'))"

definition radix_literal :: "nat \<Rightarrow> string \<Rightarrow> number" where
  "radix_literal r t = (let ds = radix_prefix r t in
     if ds = [] \<or> length ds \<noteq> length t then NaN else fl (of_nat (undigits r ds)))"

definition string_to_number :: "string \<Rightarrow> number" where
  "string_to_number s =
     (let t = trim s; (sg, u) = strip_sign t in
      if t = [] then Num 0
      else if is_prefix ''0x'' t \<or> is_prefix ''0X'' t then radix_literal 16 (drop 2 t)
      else if is_prefix ''0o'' t \<or> is_prefix ''0O'' t then radix_literal 8 (drop 2 t)
      else if is_prefix ''0b'' t \<or> is_prefix ''0B'' t then radix_literal 2 (drop 2 t)
      else if u = ''Infinity'' then inf sg
      else case decimal_literal u of None \<Rightarrow> NaN
        | Some x \<Rightarrow> if sg then js_uminus (fl x) else fl x)"

section \<open>Print and read agree on natural numbers\<close>

lemma is_dec_digit_char [simp]: "d < 10 \<Longrightarrow> is_dec (digit_char d)"
  by (simp add: is_dec_def digit_char_def)

lemma is_decD: "is_dec c \<Longrightarrow> \<not> is_space c \<and> c \<noteq> CHR ''-'' \<and> c \<noteq> CHR ''+'' \<and> c \<noteq> CHR ''x'' \<and> c \<noteq> CHR ''X''"
  by (auto simp: is_dec_def is_space_def)

lemma dec_val_digit_chars: "list_all (\<lambda>d. d < 10) ds \<Longrightarrow> dec_val (map digit_char ds) = undigits 10 ds"
  by (auto simp: dec_val_def digit_char_def list_all_iff intro!: arg_cong [where f = "undigits 10"] map_idI)

lemma list_all_digits: "2 \<le> b \<Longrightarrow> list_all (\<lambda>d. d < b) (digits b n)"
  by (auto simp: list_all_iff digits_less)

lemma list_all_is_dec [simp]: "list_all is_dec (nat_to_string n)"
  using list_all_digits [of 10 n] by (simp add: nat_to_string_def list_all_iff)

lemma dec_val_nat_to_string [simp]: "dec_val (nat_to_string n) = n"
  by (simp add: nat_to_string_def dec_val_digit_chars list_all_digits)

lemma radix_prefix_digits:
  "list_all (\<lambda>d. d < r) ds \<Longrightarrow> r \<le> 36 \<Longrightarrow> radix_prefix r (map digit_char ds) = ds"
  by (induction ds) simp_all

lemma strip_sign_dec: "list_all is_dec s \<Longrightarrow> strip_sign s = (False, s)"
  by (auto simp: strip_sign_def split: list.split dest: is_decD)

lemma drop_space_dec: "list_all is_dec s \<Longrightarrow> dropWhile is_space s = s"
  by (cases s) (auto dest: is_decD)

lemma not_hex_dec: "list_all is_dec s \<Longrightarrow> \<not> is_prefix ''0x'' s \<and> \<not> is_prefix ''0X'' s"
  by (auto simp: is_prefix_iff dest: is_decD)

lemma parse_int_nat_to_string:
  "n \<le> 2 ^ 53 \<Longrightarrow> parse_int 0 (nat_to_string n) = Num (of_nat n)"
proof -
  assume n: "n \<le> 2 ^ 53"
  have rp: "radix_prefix 10 (nat_to_string n) = digits 10 n"
    using radix_prefix_digits [of 10 "digits 10 n"] by (simp add: nat_to_string_def list_all_digits)
  show ?thesis
    using n by (simp add: parse_int_def strip_sign_dec drop_space_dec not_hex_dec rp fl_nat)
qed

lemma num_to_string_nat [js_simps]:
  "n \<le> 2 ^ 53 \<Longrightarrow> num_to_string (Num (of_nat n)) = nat_to_string n"
proof -
  assume "n \<le> 2 ^ 53"
  then have "(of_nat n :: rat) \<le> of_nat (2 ^ 53)" by (simp only: of_nat_le_iff)
  then show ?thesis by (simp add: num_to_string_def pos_to_string_def)
qed

lemma parse_int_num_to_string:
  "n \<le> 2 ^ 53 \<Longrightarrow> parse_int 0 (num_to_string (Num (of_nat n))) = Num (of_nat n)"
  by (simp add: num_to_string_nat parse_int_nat_to_string)

section \<open>The shape of \<open>toFixed\<close>\<close>

lemma fixed_digits_shape:
  assumes "0 < f"
  obtains ip fp where "fixed_digits f x = ip @ ''.'' @ fp" "ip \<noteq> []" "length fp = f"
    "list_all is_dec (ip @ fp)" "dec_val (ip @ fp) = nat \<lfloor>x * 10 ^ f + 1/2\<rfloor>"
proof -
  define m where "m = nat_to_string (nat \<lfloor>x * 10 ^ f + 1/2\<rfloor>)"
  define p where "p = replicate (f + 1 - length m) CHR ''0'' @ m"
  have len: "f < length p" by (simp add: p_def)
  have "dec_val (replicate k CHR ''0'' @ s) = dec_val s" for k s
    by (induction k) (simp_all add: dec_val_def undigits_Cons)
  then have v: "dec_val p = nat \<lfloor>x * 10 ^ f + 1/2\<rfloor>"
    by (simp add: p_def m_def)
  have d: "list_all is_dec p"
    by (auto simp: p_def m_def list_all_iff is_dec_def dest: list_all_is_dec [unfolded list_all_iff, rule_format])
  show ?thesis
  proof
    show "fixed_digits f x = take (length p - f) p @ ''.'' @ drop (length p - f) p"
      using assms by (simp add: fixed_digits_def m_def p_def Let_def)
  qed (use len v d assms in auto)
qed

end
