(* ===== verification/Js_Value.thy ===== *)
theory Js_Value
  imports Js_String
begin

text \<open>
  Dynamically typed values and effects. The explorer reads the node's answers as \<open>any\<close>, so
  the model keeps them as JSON values and writes out what property access, truthiness and
  the implicit coercions do on every one of them, thrown errors included. An asynchronous
  function is a function of the machine state (what was written to the console, and the
  outside world that \<open>fetch\<close> talks to) that returns or throws and gives the next state.
\<close>

section \<open>Values and thrown errors\<close>

datatype json = JUndef | JNull | JBool bool | JNum number | JStr string
  | JArr "json list" | JObj "(string \<times> json) list"

datatype thrown = TypeError string | RangeError string | SyntaxError string
  | ReferenceError string | RuntimeError string | ErrorObj string | ThrownStr string

datatype 'a outcome = Ok 'a | Throw thrown

definition bind_outcome :: "'a outcome \<Rightarrow> ('a \<Rightarrow> 'b outcome) \<Rightarrow> 'b outcome" where
  "bind_outcome m k = (case m of Ok x \<Rightarrow> k x | Throw e \<Rightarrow> Throw e)"

lemma bind_outcome_simps [simp, js_simps]:
  "bind_outcome (Ok x) k = k x"
  "bind_outcome (Throw e) k = Throw e"
  by (simp_all add: bind_outcome_def)

lemma bind_outcome_Ok_iff:
  "bind_outcome m k = Ok y \<longleftrightarrow> (\<exists>x. m = Ok x \<and> k x = Ok y)"
  by (cases m) simp_all

text \<open>The text \<open>${e}\<close> of a thrown value.\<close>

fun thrown_text :: "thrown \<Rightarrow> string" where
  "thrown_text (TypeError m) = ''TypeError: '' @ m"
| "thrown_text (RangeError m) = ''RangeError: '' @ m"
| "thrown_text (SyntaxError m) = ''SyntaxError: '' @ m"
| "thrown_text (ReferenceError m) = ''ReferenceError: '' @ m"
| "thrown_text (RuntimeError m) = ''RuntimeError: '' @ m"
| "thrown_text (ErrorObj m) = ''Error: '' @ m"
| "thrown_text (ThrownStr s) = s"

text \<open>The text of \<open>e.message\<close>, which a thrown string does not have.\<close>

fun thrown_message :: "thrown \<Rightarrow> string" where
  "thrown_message (TypeError m) = m"
| "thrown_message (RangeError m) = m"
| "thrown_message (SyntaxError m) = m"
| "thrown_message (ReferenceError m) = m"
| "thrown_message (RuntimeError m) = m"
| "thrown_message (ErrorObj m) = m"
| "thrown_message (ThrownStr s) = ''undefined''"

section \<open>Operations on values\<close>

fun truthy :: "json \<Rightarrow> bool" where
  "truthy JUndef = False"
| "truthy JNull = False"
| "truthy (JBool b) = b"
| "truthy (JNum n) = (n \<noteq> NaN \<and> val n \<noteq> Some 0)"
| "truthy (JStr s) = (s \<noteq> [])"
| "truthy (JArr xs) = True"
| "truthy (JObj kvs) = True"

definition cannot_read :: "string \<Rightarrow> string \<Rightarrow> thrown" where
  "cannot_read v k = TypeError (''Cannot read properties of '' @ v @ '' (reading '' @ [CHR 0x27] @ k
     @ [CHR 0x27] @ '')'')"

text \<open>
  \<open>v.k\<close> for the property names the sources read, none of which is inherited from
  \<open>Object.prototype\<close>.
\<close>

fun get_prop :: "string \<Rightarrow> json \<Rightarrow> json outcome" where
  "get_prop k JUndef = Throw (cannot_read ''undefined'' k)"
| "get_prop k JNull = Throw (cannot_read ''null'' k)"
| "get_prop k (JObj kvs) = Ok (case map_of kvs k of Some v \<Rightarrow> v | None \<Rightarrow> JUndef)"
| "get_prop k (JArr xs) = Ok (if k = ''length'' then JNum (Num (of_nat (length xs))) else JUndef)"
| "get_prop k (JStr s) = Ok (if k = ''length'' then JNum (Num (of_nat (length s))) else JUndef)"
| "get_prop k _ = Ok JUndef"

definition intercalate_comma :: "string list \<Rightarrow> string" where
  "intercalate_comma xs = (case xs of [] \<Rightarrow> [] | y # ys \<Rightarrow> y @ concat (map (\<lambda>z. '','' @ z) ys))"

fun seq_outcomes :: "'a outcome list \<Rightarrow> 'a list outcome" where
  "seq_outcomes [] = Ok []"
| "seq_outcomes (m # ms) =
     bind_outcome m (\<lambda>x. bind_outcome (seq_outcomes ms) (\<lambda>xs. Ok (x # xs)))"

text \<open>
  String coercion. An object parsed from JSON has no callable members, so one that
  overrides \<open>toString\<close> cannot be converted.
\<close>

fun to_string :: "json \<Rightarrow> string outcome" where
  "to_string JUndef = Ok ''undefined''"
| "to_string JNull = Ok ''null''"
| "to_string (JBool b) = Ok (if b then ''true'' else ''false'')"
| "to_string (JNum n) = Ok (num_to_string n)"
| "to_string (JStr s) = Ok s"
| "to_string (JArr xs) = bind_outcome
     (seq_outcomes (map (\<lambda>x. if x = JUndef \<or> x = JNull then Ok [] else to_string x) xs))
     (\<lambda>ss. Ok (intercalate_comma ss))"
| "to_string (JObj kvs) =
     (if ''toString'' \<in> set (map fst kvs)
      then Throw (TypeError ''Cannot convert object to primitive value'')
      else Ok ''[object Object]'')"

fun to_number :: "json \<Rightarrow> number outcome" where
  "to_number JUndef = Ok NaN"
| "to_number JNull = Ok (Num 0)"
| "to_number (JBool b) = Ok (Num (if b then 1 else 0))"
| "to_number (JNum n) = Ok n"
| "to_number (JStr s) = Ok (string_to_number s)"
| "to_number v = bind_outcome (to_string v) (\<lambda>s. Ok (string_to_number s))"

definition not_a_function :: "string \<Rightarrow> thrown" where
  "not_a_function e = TypeError (e @ '' is not a function'')"

text \<open>\<open>v.toFixed(f)\<close>, where \<open>what\<close> is the source text of the callee.\<close>

definition call_toFixed :: "string \<Rightarrow> nat \<Rightarrow> json \<Rightarrow> string outcome" where
  "call_toFixed what f v = (case v of
     JNum n \<Rightarrow> Ok (to_fixed f n)
   | JUndef \<Rightarrow> Throw (cannot_read ''undefined'' ''toFixed'')
   | JNull \<Rightarrow> Throw (cannot_read ''null'' ''toFixed'')
   | _ \<Rightarrow> Throw (not_a_function what))"

text \<open>
  \<open>v.toLocaleString()\<close>. The text of a number depends on the locale of the host, which is
  the parameter \<open>loc\<close>; everything else falls back on \<open>toString\<close>.
\<close>

fun call_toLocaleString :: "(number \<Rightarrow> string) \<Rightarrow> string \<Rightarrow> json \<Rightarrow> string outcome" where
  "call_toLocaleString loc what JUndef = Throw (cannot_read ''undefined'' ''toLocaleString'')"
| "call_toLocaleString loc what JNull = Throw (cannot_read ''null'' ''toLocaleString'')"
| "call_toLocaleString loc what (JBool b) = Ok (if b then ''true'' else ''false'')"
| "call_toLocaleString loc what (JNum n) = Ok (loc n)"
| "call_toLocaleString loc what (JStr s) = Ok s"
| "call_toLocaleString loc what (JArr xs) = bind_outcome
     (seq_outcomes (map (\<lambda>x. if x = JUndef \<or> x = JNull then Ok []
        else call_toLocaleString loc what x) xs))
     (\<lambda>ss. Ok (intercalate_comma ss))"
| "call_toLocaleString loc what (JObj kvs) =
     (if ''toLocaleString'' \<in> set (map fst kvs) then Throw (not_a_function what)
      else if ''toString'' \<in> set (map fst kvs) then Throw (not_a_function ''this.toString'')
      else Ok ''[object Object]'')"

text \<open>
  The value the other side parses from \<open>JSON.stringify(v)\<close>: numbers that are not finite
  become \<open>null\<close>, as do \<open>undefined\<close> array elements, and \<open>undefined\<close> members are dropped.
\<close>

fun stringified :: "json \<Rightarrow> json" where
  "stringified (JNum n) = (if val n = None then JNull else if n = NegZero then JNum (Num 0) else JNum n)"
| "stringified (JArr xs) = JArr (map (\<lambda>x. if x = JUndef then JNull else stringified x) xs)"
| "stringified (JObj kvs) =
     JObj (map (\<lambda>(k, v). (k, stringified v)) (filter (\<lambda>(k, v). v \<noteq> JUndef) kvs))"
| "stringified v = v"

section \<open>Effects\<close>

datatype level = LogLevel | WarnLevel | ErrorLevel

datatype log_arg = LText string | LJson json | LThrown thrown

type_synonym log_entry = "level \<times> log_arg list"

record 'w machine =
  console :: "log_entry list"
  world :: 'w

type_synonym ('w, 'a) io = "'w machine \<Rightarrow> 'a outcome \<times> 'w machine"

definition ret :: "'a \<Rightarrow> ('w, 'a) io" where
  "ret x m = (Ok x, m)"

definition throw :: "thrown \<Rightarrow> ('w, 'a) io" where
  "throw e m = (Throw e, m)"

definition lift_outcome :: "'a outcome \<Rightarrow> ('w, 'a) io" where
  "lift_outcome r m = (r, m)"

definition await :: "('w, 'a) io \<Rightarrow> ('a \<Rightarrow> ('w, 'b) io) \<Rightarrow> ('w, 'b) io" where
  "await p k m = (case p m of (Ok x, m') \<Rightarrow> k x m' | (Throw e, m') \<Rightarrow> (Throw e, m'))"

definition try_catch :: "('w, 'a) io \<Rightarrow> (thrown \<Rightarrow> ('w, 'a) io) \<Rightarrow> ('w, 'a) io" where
  "try_catch p h m = (case p m of (Ok x, m') \<Rightarrow> (Ok x, m') | (Throw e, m') \<Rightarrow> h e m')"

definition console_write :: "level \<Rightarrow> log_arg list \<Rightarrow> ('w, unit) io" where
  "console_write l args m = (Ok (), m\<lparr>console := console m @ [(l, args)]\<rparr>)"

definition world_call :: "('w \<Rightarrow> 'a outcome \<times> 'w) \<Rightarrow> ('w, 'a) io" where
  "world_call f m = (case f (world m) of (r, w) \<Rightarrow> (r, m\<lparr>world := w\<rparr>))"

lemma io_basic [io_simps]:
  "ret x m = (Ok x, m)"
  "throw e m = (Throw e, m)"
  "lift_outcome r m = (r, m)"
  "console_write l args m = (Ok (), m\<lparr>console := console m @ [(l, args)]\<rparr>)"
  by (simp_all add: ret_def throw_def lift_outcome_def console_write_def)

lemma await_Ok [io_simps]: "p m = (Ok x, m') \<Longrightarrow> await p k m = k x m'"
  and await_Throw [io_simps]: "p m = (Throw e, m') \<Longrightarrow> await p k m = (Throw e, m')"
  by (simp_all add: await_def)

lemma try_catch_Ok [io_simps]: "p m = (Ok x, m') \<Longrightarrow> try_catch p h m = (Ok x, m')"
  and try_catch_Throw [io_simps]: "p m = (Throw e, m') \<Longrightarrow> try_catch p h m = h e m'"
  by (simp_all add: try_catch_def)

lemma await_Ok_iff:
  "await p k m = (Ok y, m'') \<longleftrightarrow> (\<exists>x m'. p m = (Ok x, m') \<and> k x m' = (Ok y, m''))"
  by (auto simp: await_def split: prod.splits outcome.splits)

lemma await_assoc: "await (await p k) l = await p (\<lambda>x. await (k x) l)"
  by (rule ext) (auto simp: await_def split: prod.splits outcome.splits)

lemma await_ret [simp]: "await (ret x) k = k x" "await p ret = p"
  by (rule ext, auto simp: await_def ret_def split: prod.splits outcome.splits)+

text \<open>
  What every handler keeps: a property of a computation's results holds whatever the state
  it starts in, and errors are covered by a second property.
\<close>

definition yields :: "('w, 'a) io \<Rightarrow> ('a \<Rightarrow> bool) \<Rightarrow> (thrown \<Rightarrow> bool) \<Rightarrow> bool" where
  "yields p P E = (\<forall>m. case fst (p m) of Ok x \<Rightarrow> P x | Throw e \<Rightarrow> E e)"

lemma yieldsD: "yields p P E \<Longrightarrow> p m = (r, m') \<Longrightarrow> case r of Ok x \<Rightarrow> P x | Throw e \<Rightarrow> E e"
  unfolding yields_def by (metis fst_conv)

lemma yields_ret [intro]: "P x \<Longrightarrow> yields (ret x) P E"
  by (simp add: yields_def ret_def)

lemma yields_throw [intro]: "E e \<Longrightarrow> yields (throw e) P E"
  by (simp add: yields_def throw_def)

lemma yields_lift: "(case r of Ok x \<Rightarrow> P x | Throw e \<Rightarrow> E e) \<Longrightarrow> yields (lift_outcome r) P E"
  by (simp add: yields_def lift_outcome_def)

lemma yields_console [intro]: "P () \<Longrightarrow> yields (console_write l args) P E"
  by (simp add: yields_def console_write_def)

lemma yields_await:
  assumes "yields p Q E" "\<And>x. Q x \<Longrightarrow> yields (k x) P E"
  shows "yields (await p k) P E"
  unfolding yields_def
proof
  fix m
  obtain r m' where r: "p m = (r, m')" by force
  show "case fst (await p k m) of Ok x \<Rightarrow> P x | Throw e \<Rightarrow> E e"
  proof (cases r)
    case (Ok x)
    with yieldsD [OF assms(1) r] have "yields (k x) P E" by (intro assms(2)) simp
    with Ok r show ?thesis by (simp add: yields_def await_def)
  next
    case (Throw e)
    with yieldsD [OF assms(1) r] r show ?thesis by (simp add: await_def)
  qed
qed

lemma yields_catch:
  assumes "yields p P F" "\<And>e. F e \<Longrightarrow> yields (h e) P E"
  shows "yields (try_catch p h) P E"
  unfolding yields_def
proof
  fix m
  obtain r m' where r: "p m = (r, m')" by force
  show "case fst (try_catch p h m) of Ok x \<Rightarrow> P x | Throw e \<Rightarrow> E e"
  proof (cases r)
    case (Ok x)
    with yieldsD [OF assms(1) r] r show ?thesis by (simp add: try_catch_def)
  next
    case (Throw e)
    with yieldsD [OF assms(1) r] have "yields (h e) P E" by (intro assms(2)) simp
    with Throw r show ?thesis by (simp add: yields_def try_catch_def)
  qed
qed

lemma yields_weaken:
  "yields p P E \<Longrightarrow> (\<And>x. P x \<Longrightarrow> Q x) \<Longrightarrow> (\<And>e. E e \<Longrightarrow> F e) \<Longrightarrow> yields p Q F"
  unfolding yields_def by (auto split: outcome.splits)

lemma yields_any: "yields p (\<lambda>_. True) (\<lambda>_. True)"
  by (simp add: yields_def split: outcome.split)

end
