(* ===== verification/Http.thy ===== *)
theory Http
  imports Js_Value
begin

text \<open>
  What travels between the explorer and the node: HTTP requests and responses, and the
  Basic authorization header. The explorer encodes the credentials with Node's
  \<open>Buffer.toString("base64")\<close>; the node decodes them with \<open>DecodeBase64\<close> and
  \<open>ConvertBits\<close> of \<open>src/util/strencodings\<close>.
\<close>

text \<open>A request body is kept as the JSON value that its text denotes.\<close>

record request =
  url :: string
  http_method :: string
  headers :: "(string \<times> string) list"
  req_body :: json
  cache :: string

text \<open>A response: status code and text, and the body if it parses as JSON.\<close>

record response =
  status :: nat
  statusText :: string
  resp_body :: "json option"

type_synonym 'w fetch = "request \<Rightarrow> 'w \<Rightarrow> response outcome \<times> 'w"

definition res_ok :: "response \<Rightarrow> bool" where
  "res_ok r = (200 \<le> status r \<and> status r \<le> 299)"

section \<open>Base64\<close>

definition utf8 :: "string \<Rightarrow> byte list" where
  "utf8 s = concat (map (\<lambda>ch. let k = of_char ch in
     if k < 128 then [k] else [192 + k div 64, 128 + k mod 64]) s)"

definition b64_chars :: string where
  "b64_chars = ''ABCDEFGHIJKLMNOPQRSTUVWXYZabcdefghijklmnopqrstuvwxyz0123456789+/''"

fun base64 :: "byte list \<Rightarrow> string" where
  "base64 [] = []"
| "base64 [a] = [b64_chars ! (a div 4), b64_chars ! (a mod 4 * 16), CHR ''='', CHR ''='']"
| "base64 [a, b] = [b64_chars ! (a div 4), b64_chars ! (a mod 4 * 16 + b div 16),
     b64_chars ! (b mod 16 * 4), CHR ''='']"
| "base64 (a # b # c # xs) = [b64_chars ! (a div 4), b64_chars ! (a mod 4 * 16 + b div 16),
     b64_chars ! (b mod 16 * 4 + c div 64), b64_chars ! (c mod 64)] @ base64 xs"

text \<open>
  The loop of \<open>ConvertBits\<close> without padding; \<open>None\<close> is its \<open>false\<close>. The accumulator keeps
  \<open>frombits + tobits - 1\<close> bits, and a group value below \<open>2 ^ frombits\<close> is or-ed into the
  zero bits of the shifted accumulator.
\<close>

function flush_bits :: "nat \<Rightarrow> nat \<Rightarrow> nat \<Rightarrow> nat list \<times> nat" where
  "flush_bits tobits acc bits =
     (if 0 < tobits \<and> tobits \<le> bits
      then (let (out, rest) = flush_bits tobits acc (bits - tobits)
            in ((acc div 2 ^ (bits - tobits)) mod 2 ^ tobits # out, rest))
      else ([], bits))"
  by pat_completeness auto
termination
  by (relation "measure (\<lambda>(tobits, acc, bits). bits)") auto

declare flush_bits.simps [simp del]

fun ConvertBits :: "nat \<Rightarrow> nat \<Rightarrow> (char \<Rightarrow> nat option) \<Rightarrow> string \<Rightarrow> nat \<Rightarrow> nat \<Rightarrow> nat list option" where
  "ConvertBits frombits tobits infn [] acc bits =
     (if frombits \<le> bits \<or> acc * 2 ^ (tobits - bits) mod 2 ^ tobits \<noteq> 0 then None else Some [])"
| "ConvertBits frombits tobits infn (ch # cs) acc bits = (case infn ch of
     None \<Rightarrow> None
   | Some v \<Rightarrow>
       (let acc' = (acc * 2 ^ frombits + v) mod 2 ^ (frombits + tobits - 1);
            (out, bits') = flush_bits tobits acc' (bits + frombits)
        in map_option (\<lambda>r. out @ r) (ConvertBits frombits tobits infn cs acc' bits')))"

definition decode64_table :: "char \<Rightarrow> nat option" where
  "decode64_table ch = (let k = of_char ch in
     if k = 43 then Some 62 else if k = 47 then Some 63
     else if 48 \<le> k \<and> k \<le> 57 then Some (k + 4)
     else if 65 \<le> k \<and> k \<le> 90 then Some (k - 65)
     else if 97 \<le> k \<and> k \<le> 122 then Some (k - 71)
     else None)"

definition remove_suffix :: "char \<Rightarrow> string \<Rightarrow> string" where
  "remove_suffix ch s = (if s \<noteq> [] \<and> last s = ch then butlast s else s)"

definition strip64 :: "string \<Rightarrow> string" where
  "strip64 s = remove_suffix CHR ''='' (remove_suffix CHR ''='' s)"

definition DecodeBase64 :: "string \<Rightarrow> byte list option" where
  "DecodeBase64 str = (if length str mod 4 \<noteq> 0 then None
     else ConvertBits 6 8 decode64_table (strip64 str) 0 0)"

section \<open>Decoding inverts encoding\<close>

lemma length_b64_chars: "length b64_chars = 64"
  by (simp add: b64_chars_def)

lemma decode64_all: "map decode64_table b64_chars = map Some [0..<64]"
  by code_simp

lemma decode64_char [simp]: "n < 64 \<Longrightarrow> decode64_table (b64_chars ! n) = Some n"
  using arg_cong [OF decode64_all, of "\<lambda>xs. xs ! n"] by (simp add: length_b64_chars)

lemma b64_char_neq: "n < 64 \<Longrightarrow> b64_chars ! n \<noteq> CHR ''=''"
  using decode64_char [of n] by (auto simp: decode64_table_def)

lemma flush8:
  "bits < 8 \<Longrightarrow> flush_bits 8 acc bits = ([], bits)"
  "8 \<le> bits \<Longrightarrow> bits < 16 \<Longrightarrow> flush_bits 8 acc bits = ([acc div 2 ^ (bits - 8) mod 256], bits - 8)"
  by (subst flush_bits.simps; simp add: flush_bits.simps [of 8 acc "bits - 8"])+

text \<open>Two groups shifted into the accumulator: all but one bit of the past is forgotten.\<close>

lemma acc_two:
  fixes x v w :: nat
  assumes "v < 64" "w < 64"
  shows "((x * 64 + v) mod 8192 * 64 + w) mod 8192 = x mod 2 * 4096 + v * 64 + w"
proof -
  define q r where "q = x div 2" and "r = x mod 2"
  have x: "x = 2 * q + r" by (simp add: q_def r_def)
  have "x mod 2 * 4096 + v * 64 + w < 8192"
    using assms mod_less_divisor [of 2 x] by linarith
  moreover have "(x * 64 + v) * 64 + w = 8192 * q + (x mod 2 * 4096 + v * 64 + w)"
    unfolding r_def [symmetric] unfolding x by simp
  ultimately have "((x * 64 + v) * 64 + w) mod 8192 = x mod 2 * 4096 + v * 64 + w"
    by (simp only: mod_mult_self4 mod_less)
  moreover have "((x * 64 + v) mod 8192 * 64 + w) mod 8192 = ((x * 64 + v) * 64 + w) mod 8192"
    by (metis mod_add_left_eq mod_mult_left_eq)
  ultimately show ?thesis by simp
qed

lemma acc_next:
  fixes b v w u :: nat
  assumes "w < 64" "u < 64"
  shows "((b * 4096 + v * 64 + w) * 64 + u) mod 8192 = v mod 2 * 4096 + w * 64 + u"
proof -
  have e: "b * 4096 + v * 64 + w = (b * 64 + v) * 64 + w" by simp
  have "((b * 4096 + v * 64 + w) * 64 + u) mod 8192 = (((b * 64 + v) * 64 + w) mod 8192 * 64 + u) mod 8192"
    unfolding e by (metis mod_add_left_eq mod_mult_left_eq)
  also have "\<dots> = (b * 64 + v) mod 2 * 4096 + w * 64 + u"
    by (rule acc_two [OF assms])
  also have "(b * 64 + v) mod 2 = v mod 2" by presburger
  finally show ?thesis .
qed

lemma div_mod_digit:
  fixes d m n :: nat
  assumes "n < d"
  shows "(d * m + n) div d = m" "(d * m + n) mod d = n"
  using assms by simp_all

lemma split_digit:
  fixes x :: nat
  assumes "0 < d"
  obtains q r where "x = d * q + r" "r < d" "x div d = q" "x mod d = r"
  using assms mod_less_divisor mult_div_mod_eq [of d x] by metis

lemma octets:
  fixes b v w :: nat
  assumes "v < 64" "w < 64"
  defines "a \<equiv> b * 4096 + v * 64 + w"
  shows "a div 16 mod 256 = v * 4 + w div 16" and "a div 4 mod 256 = v mod 16 * 16 + w div 4"
    and "a mod 256 = v mod 4 * 64 + w"
    and "a * 16 mod 256 = w mod 16 * 16" and "a * 64 mod 256 = w mod 4 * 64"
proof -
  obtain p s where w16: "w = 16 * p + s" "s < 16" "w div 16 = p" "w mod 16 = s"
    by (rule split_digit [of 16 w]) simp
  obtain q t where w4: "w = 4 * q + t" "t < 4" "w div 4 = q" "w mod 4 = t"
    by (rule split_digit [of 4 w]) simp
  obtain e f where v16: "v = 16 * e + f" "f < 16" "v mod 16 = f"
    by (rule split_digit [of 16 v]) simp
  obtain g h where v4: "v = 4 * g + h" "h < 4" "v mod 4 = h"
    by (rule split_digit [of 4 v]) simp
  have "a = 16 * (256 * b + (v * 4 + p)) + s" using w16(1) by (simp add: a_def)
  then have "a div 16 = 256 * b + (v * 4 + p)" using div_mod_digit(1) [OF w16(2)] by metis
  then show "a div 16 mod 256 = v * 4 + w div 16"
    using div_mod_digit(2) [of "v * 4 + p" 256 b] assms(1,2) w16 by simp
  have "a = 4 * (256 * (b * 4 + e) + (f * 16 + q)) + t" using w4(1) v16(1) by (simp add: a_def)
  then have "a div 4 = 256 * (b * 4 + e) + (f * 16 + q)" using div_mod_digit(1) [OF w4(2)] by metis
  then show "a div 4 mod 256 = v mod 16 * 16 + w div 4"
    using div_mod_digit(2) [of "f * 16 + q" 256 "b * 4 + e"] assms(1,2) w4 v16 by simp
  have "a = 256 * (b * 16 + g) + (h * 64 + w)" using v4(1) by (simp add: a_def)
  then show "a mod 256 = v mod 4 * 64 + w"
    using div_mod_digit(2) [of "h * 64 + w" 256 "b * 16 + g"] assms(2) v4 by simp
  have "a * 16 = 256 * (b * 256 + v * 4 + p) + s * 16" using w16(1) by (simp add: a_def)
  then show "a * 16 mod 256 = w mod 16 * 16"
    using div_mod_digit(2) [of "s * 16" 256 "b * 256 + v * 4 + p"] w16 by simp
  have "a * 64 = 256 * (b * 1024 + v * 16 + q) + t * 64" using w4(1) by (simp add: a_def)
  then show "a * 64 mod 256 = w mod 4 * 64"
    using div_mod_digit(2) [of "t * 64" 256 "b * 1024 + v * 16 + q"] w4 by simp
qed

lemma recombine:
  fixes a b c :: nat
  assumes "a < 256" "b < 256" "c < 256"
  shows "a div 4 * 4 + (a mod 4 * 16 + b div 16) div 16 = a"
    "(a mod 4 * 16 + b div 16) mod 16 * 16 + (b mod 16 * 4 + c div 64) div 4 = b"
    "(b mod 16 * 4 + c div 64) mod 4 * 64 + c mod 64 = c"
    "a div 4 < 64" "a mod 4 * 16 + b div 16 < 64" "b mod 16 * 4 + c div 64 < 64" "c mod 64 < 64"
proof -
  have d: "b div 16 < 16" "c div 64 < 4" "a div 4 < 64" "a mod 4 < 4" "b mod 16 < 16"
    using assms by (simp_all add: less_mult_imp_div_less)
  have 1: "(a mod 4 * 16 + b div 16) div 16 = a mod 4" "(a mod 4 * 16 + b div 16) mod 16 = b div 16"
    using div_mod_digit [OF d(1), of "a mod 4"] by (simp_all add: mult.commute)
  have 2: "(b mod 16 * 4 + c div 64) div 4 = b mod 16" "(b mod 16 * 4 + c div 64) mod 4 = c div 64"
    using div_mod_digit [OF d(2), of "b mod 16"] by (simp_all add: mult.commute)
  show "a div 4 * 4 + (a mod 4 * 16 + b div 16) div 16 = a"
    "(a mod 4 * 16 + b div 16) mod 16 * 16 + (b mod 16 * 4 + c div 64) div 4 = b"
    "(b mod 16 * 4 + c div 64) mod 4 * 64 + c mod 64 = c"
    by (simp_all only: 1 2 div_mult_mod_eq)
  show "a div 4 < 64" "c mod 64 < 64" using d by simp_all
  show "a mod 4 * 16 + b div 16 < 64"
    using d(1) mult_le_mono1 [of "a mod 4" 3 16] d(4) by simp
  show "b mod 16 * 4 + c div 64 < 64"
    using d(2) mult_le_mono1 [of "b mod 16" 15 4] d(5) by simp
qed


lemma ConvertBits_steps:
  assumes "decode64_table ch = Some v"
  defines "cv \<equiv> ConvertBits 6 8 decode64_table"
  shows "cv (ch # cs) acc 0 = cv cs ((acc * 64 + v) mod 8192) 6"
    and "cv (ch # cs) acc 6 = map_option (\<lambda>r. ((acc * 64 + v) mod 8192) div 16 mod 256 # r)
           (cv cs ((acc * 64 + v) mod 8192) 4)"
    and "cv (ch # cs) acc 4 = map_option (\<lambda>r. ((acc * 64 + v) mod 8192) div 4 mod 256 # r)
           (cv cs ((acc * 64 + v) mod 8192) 2)"
    and "cv (ch # cs) acc 2 = map_option (\<lambda>r. ((acc * 64 + v) mod 8192) mod 256 # r)
           (cv cs ((acc * 64 + v) mod 8192) 0)"
proof -
  have app: "(@) [] = (\<lambda>r. r)" "(@) [n] = (\<lambda>r. n # r)" for n :: nat by (rule ext, simp)+
  show "cv (ch # cs) acc 0 = cv cs ((acc * 64 + v) mod 8192) 6"
    "cv (ch # cs) acc 6 = map_option (\<lambda>r. ((acc * 64 + v) mod 8192) div 16 mod 256 # r)
       (cv cs ((acc * 64 + v) mod 8192) 4)"
    "cv (ch # cs) acc 4 = map_option (\<lambda>r. ((acc * 64 + v) mod 8192) div 4 mod 256 # r)
       (cv cs ((acc * 64 + v) mod 8192) 2)"
    "cv (ch # cs) acc 2 = map_option (\<lambda>r. ((acc * 64 + v) mod 8192) mod 256 # r)
       (cv cs ((acc * 64 + v) mod 8192) 0)"
    using assms(1) by (simp_all add: cv_def flush8 Let_def app option.map_ident)
qed

text \<open>Four groups make three bytes, whatever the accumulator held before.\<close>

lemma ConvertBits_quantum:
  assumes "v1 < 64" "v2 < 64" "v3 < 64" "v4 < 64"
  shows "\<exists>acc'. ConvertBits 6 8 decode64_table
      (b64_chars ! v1 # b64_chars ! v2 # b64_chars ! v3 # b64_chars ! v4 # cs) acc 0
    = map_option (\<lambda>r. [v1 * 4 + v2 div 16, v2 mod 16 * 16 + v3 div 4, v3 mod 4 * 64 + v4] @ r)
        (ConvertBits 6 8 decode64_table cs acc' 0)"
  by (rule exI) (simp only: ConvertBits_steps decode64_char assms acc_two acc_next octets
      option.map_comp comp_def append.simps)

lemma ConvertBits_tails:
  assumes "v1 < 64" "v2 < 64" "v3 < 64"
  shows "v2 mod 16 = 0 \<Longrightarrow> ConvertBits 6 8 decode64_table [b64_chars ! v1, b64_chars ! v2] acc 0
      = Some [v1 * 4 + v2 div 16]"
    and "v3 mod 4 = 0 \<Longrightarrow> ConvertBits 6 8 decode64_table [b64_chars ! v1, b64_chars ! v2, b64_chars ! v3] acc 0
      = Some [v1 * 4 + v2 div 16, v2 mod 16 * 16 + v3 div 4]"
proof -
  note steps = ConvertBits_steps [OF decode64_char] assms acc_two acc_next octets
  show "v2 mod 16 = 0 \<Longrightarrow> ConvertBits 6 8 decode64_table [b64_chars ! v1, b64_chars ! v2] acc 0
      = Some [v1 * 4 + v2 div 16]"
    by (simp only: steps) (use octets(4) [OF assms(1,2), of "acc mod 2"] in simp)
  show "v3 mod 4 = 0 \<Longrightarrow> ConvertBits 6 8 decode64_table [b64_chars ! v1, b64_chars ! v2, b64_chars ! v3] acc 0
      = Some [v1 * 4 + v2 div 16, v2 mod 16 * 16 + v3 div 4]"
    by (simp only: steps) (use octets(5) [OF assms(2,3), of "v1 mod 2"] in simp)
qed

lemma length_base64: "length (base64 bs) mod 4 = 0" "bs \<noteq> [] \<Longrightarrow> 2 \<le> length (base64 bs)"
proof -
  show "length (base64 bs) mod 4 = 0"
  proof (induction bs rule: base64.induct)
    case (4 a b c xs)
    then show ?case using mod_add_self1 [of 4 "length (base64 xs)"] by simp
  qed simp_all
  show "bs \<noteq> [] \<Longrightarrow> 2 \<le> length (base64 bs)"
    by (cases bs rule: base64.cases) simp_all
qed

lemma strip64_append: "2 \<le> length t \<Longrightarrow> strip64 (q @ t) = q @ strip64 t"
proof -
  have app: "t \<noteq> [] \<Longrightarrow> remove_suffix ch (q @ t) = q @ remove_suffix ch t" for ch t
    by (simp add: remove_suffix_def butlast_append)
  assume "2 \<le> length t"
  then have "t \<noteq> []" "length (remove_suffix CHR ''='' t) \<noteq> 0"
    by (auto simp: remove_suffix_def simp flip: length_greater_0_conv simp del: length_greater_0_conv length_0_conv)
  then show ?thesis unfolding strip64_def by (simp add: app)
qed

lemma strip64_plain: "n < 64 \<Longrightarrow> strip64 (q @ [b64_chars ! n]) = q @ [b64_chars ! n]"
  using b64_char_neq [of n] by (simp add: strip64_def remove_suffix_def)

lemma decode_stripped:
  "list_all (\<lambda>b. b < 256) bs \<Longrightarrow> ConvertBits 6 8 decode64_table (strip64 (base64 bs)) acc 0 = Some bs"
proof (induction bs arbitrary: acc rule: base64.induct)
  case 1
  then show ?case by (simp add: strip64_def remove_suffix_def)
next
  case (2 a)
  then have r: "a div 4 < 64" "a mod 4 * 16 < 64" using recombine [of a 0 0] by simp_all
  have "strip64 (base64 [a]) = [b64_chars ! (a div 4), b64_chars ! (a mod 4 * 16)]"
    using b64_char_neq [OF r(2)] by (simp add: strip64_def remove_suffix_def)
  then show ?case
    using ConvertBits_tails(1) [OF r r(2), of acc] by simp
next
  case (3 a b)
  then have ab: "a < 256" "b < 256" by simp_all
  have r: "a div 4 < 64" "a mod 4 * 16 + b div 16 < 64" "b mod 16 * 4 < 64"
      "a div 4 * 4 + (a mod 4 * 16 + b div 16) div 16 = a"
      "(a mod 4 * 16 + b div 16) mod 16 * 16 + b mod 16 * 4 div 4 = b"
    using recombine [OF ab, of 0] by simp_all
  have "strip64 (base64 [a, b]) = [b64_chars ! (a div 4), b64_chars ! (a mod 4 * 16 + b div 16), b64_chars ! (b mod 16 * 4)]"
    using b64_char_neq [OF r(3)] by (simp add: strip64_def remove_suffix_def)
  then show ?case
    using ConvertBits_tails(2) [OF r(1-3), of acc] by (simp only: r(4,5)) simp
next
  case (4 a b c xs)
  then have abc: "a < 256" "b < 256" "c < 256" and xs: "list_all (\<lambda>b. b < 256) xs" by simp_all
  note r = recombine [OF abc]
  let ?q = "[b64_chars ! (a div 4), b64_chars ! (a mod 4 * 16 + b div 16),
     b64_chars ! (b mod 16 * 4 + c div 64), b64_chars ! (c mod 64)]"
  have s: "strip64 (base64 (a # b # c # xs)) = ?q @ strip64 (base64 xs)"
  proof (cases xs)
    case Nil
    then show ?thesis
      using strip64_plain [OF r(7), of "take 3 ?q"] by (simp add: strip64_def remove_suffix_def)
  next
    case (Cons y ys)
    then have "2 \<le> length (base64 xs)" by (intro length_base64) simp
    then show ?thesis using strip64_append [of "base64 xs" ?q] by simp
  qed
  obtain acc' where "ConvertBits 6 8 decode64_table (?q @ strip64 (base64 xs)) acc 0
      = map_option (\<lambda>t. [a, b, c] @ t) (ConvertBits 6 8 decode64_table (strip64 (base64 xs)) acc' 0)"
    using ConvertBits_quantum [OF r(4-7), of "strip64 (base64 xs)" acc] unfolding r(1-3) by auto
  then show ?case using "4.IH" [OF xs, of acc'] s by simp
qed

lemma DecodeBase64_base64: "list_all (\<lambda>b. b < 256) bs \<Longrightarrow> DecodeBase64 (base64 bs) = Some bs"
  using decode_stripped [of bs 0] by (simp add: DecodeBase64_def length_base64)

lemma utf8_bytes: "list_all (\<lambda>b. b < 256) (utf8 s)"
proof -
  have "of_char ch div 64 < (4 :: nat)" for ch :: char
    by (rule less_mult_imp_div_less) simp
  then have div64: "192 + of_char ch div 64 < (256 :: nat)" for ch :: char
    using add_strict_left_mono [of "of_char ch div 64" "4 :: nat" 192] by fastforce
  have mod64: "128 + of_char ch mod 64 < (256 :: nat)" for ch :: char
    using mod_less_divisor [of 64 "of_char ch :: nat"] by simp
  show ?thesis
    using div64 mod64 by (auto simp: utf8_def list_all_iff Let_def split: if_splits)
qed

end
