(* ===== verification/Api.thy ===== *)
theory Api
  imports Http
begin

text \<open>
  \<open>packages/explorer-next/src/lib/api.ts\<close>: the client that fetches statistics and blocks
  from the node over JSON-RPC and falls back on mock data. \<open>fetch\<close> is a parameter of every
  function that reaches the network; the process environment and what the JavaScript host
  decides (the clock, locale-dependent texts, the messages of its JSON parser) are records.
\<close>

section \<open>Environment and data\<close>

record env =
  process_RPC_USER :: "string option"
  process_RPC_PASSWORD :: "string option"
  process_RPC_HOST :: "string option"
  process_RPC_PORT :: "string option"

record host =
  now :: "nat \<Rightarrow> number"
  numLocale :: "number \<Rightarrow> string"
  dateLocale :: "number \<Rightarrow> string"
  timeLocale :: "number \<Rightarrow> string"
  json_error :: "response \<Rightarrow> string"

text \<open>
  The members copied from the node's answer are not checked by the code, so they are JSON
  values, whatever the interface \<open>Block\<close> declares.
\<close>

record block =
  height :: json
  hash :: json
  timestamp :: number
  size_bytes :: json
  tx_count :: json
  miner :: string
  reward :: number

text \<open>The \<open>i\<close>-th element reads the clock when the module is loaded.\<close>

definition mock_block :: "host \<Rightarrow> nat \<Rightarrow> block" where
  "mock_block hs i = \<lparr>
     height = JNum (js_sub (Num 10500) (Num (of_nat i))),
     hash = JStr ''000000000019d6689c085ae165831e934ff763ae46a2a6c172b3f1b60a8ce26f'',
     timestamp = js_sub (now hs i) (js_mul (js_mul (Num (of_nat i)) (Num 600)) (Num 1000)),
     size_bytes = JNum (js_add (Num 1420) (js_mul (Num (of_nat i)) (Num 5))),
     tx_count = JNum (js_add (Num 5) (Num (of_nat i))),
     miner = ''RetardioPool'',
     reward = Num 50\<rparr>"

definition MOCK_BLOCKS :: "host \<Rightarrow> block list" where
  "MOCK_BLOCKS hs = map (mock_block hs) [0..<10]"

text \<open>\<open>process.env.X || d\<close>: an empty variable counts as unset.\<close>

definition env_or :: "string option \<Rightarrow> string \<Rightarrow> string" where
  "env_or v d = (case v of None \<Rightarrow> d | Some s \<Rightarrow> if s = [] then d else s)"

definition RPC_USER :: "env \<Rightarrow> string" where
  "RPC_USER e = env_or (process_RPC_USER e) ''user''"

definition RPC_PASSWORD :: "env \<Rightarrow> string" where
  "RPC_PASSWORD e = env_or (process_RPC_PASSWORD e) ''pass''"

definition RPC_URL :: "env \<Rightarrow> string" where
  "RPC_URL e = ''http://'' @ env_or (process_RPC_HOST e) ''127.0.0.1'' @ '':''
     @ env_or (process_RPC_PORT e) ''18332''"

definition rpc_enabled :: "env \<Rightarrow> bool" where
  "rpc_enabled e = (env_or (process_RPC_USER e) [] \<noteq> [])"

section \<open>Remote calls\<close>

definition auth_header :: "env \<Rightarrow> string" where
  "auth_header e = ''Basic '' @ base64 (utf8 (RPC_USER e @ '':'' @ RPC_PASSWORD e))"

definition rpc_body :: "string \<Rightarrow> json list \<Rightarrow> json" where
  "rpc_body meth params = stringified (JObj [(''jsonrpc'', JStr ''1.0''), (''id'', JStr ''explorer''),
     (''method'', JStr meth), (''params'', JArr params)])"

definition rpc_post :: "env \<Rightarrow> string \<Rightarrow> json list \<Rightarrow> request" where
  "rpc_post e meth params = \<lparr>
     url = RPC_URL e,
     http_method = ''POST'',
     headers = [(''content-type'', ''text/plain;''), (''Authorization'', auth_header e)],
     req_body = rpc_body meth params,
     cache = ''no-store''\<rparr>"

definition res_json :: "host \<Rightarrow> response \<Rightarrow> json outcome" where
  "res_json hs r = (case resp_body r of Some v \<Rightarrow> Ok v | None \<Rightarrow> Throw (SyntaxError (json_error hs r)))"

text \<open>\<open>new Error(m)\<close>: no message when \<open>m\<close> is undefined, its string otherwise.\<close>

definition new_Error :: "json \<Rightarrow> thrown outcome" where
  "new_Error m = (if m = JUndef then Ok (ErrorObj []) else bind_outcome (to_string m) (\<lambda>s. Ok (ErrorObj s)))"

definition rpc_attempt :: "host \<Rightarrow> 'w fetch \<Rightarrow> env \<Rightarrow> string \<Rightarrow> json list \<Rightarrow> ('w, json) io" where
  "rpc_attempt hs fetch e meth params =
     await (console_write LogLevel [LText (''RPC Call: '' @ meth @ '' to '' @ RPC_URL e)]) (\<lambda>_.
     await (world_call (fetch (rpc_post e meth params))) (\<lambda>res.
     if \<not> res_ok res then
       await (console_write ErrorLevel [LText (''RPC HTTP Error: '' @ nat_to_string (status res) @ '' ''
         @ statusText res)]) (\<lambda>_. ret JNull)
     else
       await (lift_outcome (res_json hs res)) (\<lambda>data.
       await (lift_outcome (get_prop ''error'' data)) (\<lambda>err.
       if truthy err then
         await (console_write ErrorLevel [LText ''RPC Application Error:'', LJson err]) (\<lambda>_.
         await (lift_outcome (get_prop ''message'' err)) (\<lambda>msg.
         await (lift_outcome (new_Error msg)) throw))
       else lift_outcome (get_prop ''result'' data)))))"

definition rpcCall :: "host \<Rightarrow> 'w fetch \<Rightarrow> env \<Rightarrow> string \<Rightarrow> json list \<Rightarrow> ('w, json) io" where
  "rpcCall hs fetch e meth params =
     (if \<not> rpc_enabled e then
        await (console_write WarnLevel [LText ''RPC_USER not set, using mock data'']) (\<lambda>_. ret JNull)
      else try_catch (rpc_attempt hs fetch e meth params)
        (\<lambda>ex. await (console_write ErrorLevel [LText (''RPC Exception ('' @ meth @ ''):''), LThrown ex])
          (\<lambda>_. ret JNull)))"

section \<open>The exported functions\<close>

record stats =
  st_height :: json
  hashrate :: string
  st_difficulty :: string
  supply_text :: string
  avgBlockTime :: string

definition mock_stats :: stats where
  "mock_stats = \<lparr>st_height = JNum (Num 10500), hashrate = ''420.69 MH/s'', st_difficulty = ''1,234.56'',
     supply_text = ''525,000 RTC'', avgBlockTime = ''60s''\<rparr>"

definition stats_of :: "host \<Rightarrow> json \<Rightarrow> stats outcome" where
  "stats_of hs info =
     bind_outcome (get_prop ''blocks'' info) (\<lambda>blocks.
     bind_outcome (get_prop ''networkhashps'' info) (\<lambda>nh.
     bind_outcome (to_number nh) (\<lambda>rate.
     bind_outcome (get_prop ''difficulty'' info) (\<lambda>d.
     bind_outcome (call_toFixed ''info.difficulty.toFixed'' 2 d) (\<lambda>dtext.
     bind_outcome (to_number blocks) (\<lambda>nblocks.
     Ok \<lparr>st_height = blocks,
         hashrate = to_fixed 2 (js_div rate (Num 1000000)) @ '' MH/s'',
         st_difficulty = dtext,
         supply_text = numLocale hs (js_mul nblocks (Num 50)) @ '' RTC'',
         avgBlockTime = ''60s''\<rparr>))))))"

definition getStats :: "host \<Rightarrow> 'w fetch \<Rightarrow> env \<Rightarrow> ('w, stats) io" where
  "getStats hs fetch e =
     await (rpcCall hs fetch e ''getmininginfo'' []) (\<lambda>info.
     if \<not> truthy info then ret mock_stats else lift_outcome (stats_of hs info))"

text \<open>The object literal that both block functions build from a \<open>getblock\<close> answer.\<close>

definition block_of :: "json \<Rightarrow> block outcome" where
  "block_of b =
     bind_outcome (get_prop ''height'' b) (\<lambda>ht.
     bind_outcome (get_prop ''hash'' b) (\<lambda>hsh.
     bind_outcome (get_prop ''time'' b) (\<lambda>tm.
     bind_outcome (to_number tm) (\<lambda>t.
     bind_outcome (get_prop ''size'' b) (\<lambda>sz.
     bind_outcome (get_prop ''tx'' b) (\<lambda>tx.
     bind_outcome (get_prop ''length'' tx) (\<lambda>cnt.
     Ok \<lparr>height = ht, hash = hsh, timestamp = js_mul t (Num 1000), size_bytes = sz, tx_count = cnt,
         miner = ''Retardio Miner'', reward = Num 50\<rparr>)))))))"

text \<open>
  The loop of \<open>getLatestBlocks\<close>, with \<open>k\<close> of its ten rounds left; \<open>height - i\<close> converts the
  answer to a number in every round.
\<close>

fun latest_loop :: "host \<Rightarrow> 'w fetch \<Rightarrow> env \<Rightarrow> json \<Rightarrow> nat \<Rightarrow> nat \<Rightarrow> block list \<Rightarrow> ('w, block list) io" where
  "latest_loop hs fetch e ht i 0 blocks = ret blocks"
| "latest_loop hs fetch e ht i (Suc k) blocks =
     await (lift_outcome (to_number ht)) (\<lambda>n.
     let h = js_sub n (Num (of_nat i)) in
     if js_less h (Num 0) then ret blocks
     else
       await (rpcCall hs fetch e ''getblockhash'' [JNum h]) (\<lambda>hsh.
       await (rpcCall hs fetch e ''getblock'' [hsh]) (\<lambda>b.
       if truthy b
       then await (lift_outcome (block_of b)) (\<lambda>blk.
         latest_loop hs fetch e ht (Suc i) k (blocks @ [blk]))
       else latest_loop hs fetch e ht (Suc i) k blocks)))"

definition getLatestBlocks :: "host \<Rightarrow> 'w fetch \<Rightarrow> env \<Rightarrow> ('w, block list) io" where
  "getLatestBlocks hs fetch e =
     await (rpcCall hs fetch e ''getblockcount'' []) (\<lambda>ht.
     if \<not> truthy ht then ret (MOCK_BLOCKS hs)
     else latest_loop hs fetch e ht 0 10 [])"

definition getBlock :: "host \<Rightarrow> 'w fetch \<Rightarrow> env \<Rightarrow> number \<Rightarrow> ('w, block) io" where
  "getBlock hs fetch e ht =
     await (rpcCall hs fetch e ''getblockhash'' [JNum ht]) (\<lambda>hsh.
     if \<not> truthy hsh then ret (MOCK_BLOCKS hs ! 0)
     else await (rpcCall hs fetch e ''getblock'' [hsh]) (\<lambda>b. lift_outcome (block_of b)))"

section \<open>What every call keeps\<close>

text \<open>The lines a call may write, and the machine after the lines \<open>ls\<close> with the outside world \<open>w\<close>.\<close>

definition line_called :: "env \<Rightarrow> string \<Rightarrow> log_entry" where
  "line_called e meth = (LogLevel, [LText (''RPC Call: '' @ meth @ '' to '' @ RPC_URL e)])"

definition line_exception :: "string \<Rightarrow> thrown \<Rightarrow> log_entry" where
  "line_exception meth ex = (ErrorLevel, [LText (''RPC Exception ('' @ meth @ ''):''), LThrown ex])"

definition line_http :: "response \<Rightarrow> log_entry" where
  "line_http res = (ErrorLevel, [LText (''RPC HTTP Error: '' @ nat_to_string (status res) @ '' '' @ statusText res)])"

definition line_unset :: log_entry where
  "line_unset = (WarnLevel, [LText ''RPC_USER not set, using mock data''])"

definition logged :: "'w machine \<Rightarrow> 'w \<Rightarrow> log_entry list \<Rightarrow> 'w machine" where
  "logged m w ls = m\<lparr>world := w, console := console m @ ls\<rparr>"

text \<open>\<open>unreachable\<close>: no request is answered with a success status; the connection or the server refuses it.\<close>

definition unreachable :: "'w fetch \<Rightarrow> bool" where
  "unreachable fetch = (\<forall>req w. case fst (fetch req w) of Ok res \<Rightarrow> \<not> res_ok res | Throw ex \<Rightarrow> True)"

text \<open>\<open>given_up\<close>: what the one request of a method leaves in the machine when it fails so.\<close>

definition given_up :: "'w fetch \<Rightarrow> env \<Rightarrow> string \<Rightarrow> json list \<Rightarrow> 'w machine \<Rightarrow> 'w machine" where
  "given_up fetch e meth params m =
     (if rpc_enabled e then case fetch (rpc_post e meth params) (world m) of
        (Ok res, w) \<Rightarrow> logged m w [line_called e meth, line_http res]
      | (Throw ex, w) \<Rightarrow> logged m w [line_called e meth, line_exception meth ex]
      else logged m (world m) [line_unset])"

lemmas call_simps = rpcCall_def rpc_attempt_def try_catch_def await_def world_call_def res_json_def
  logged_def line_called_def line_exception_def line_http_def line_unset_def

lemma rpcCall_offline [io_simps]:
  "\<not> rpc_enabled e \<Longrightarrow> rpcCall hs fetch e meth params m
     = (Ok JNull, m\<lparr>console := console m @ [(WarnLevel, [LText ''RPC_USER not set, using mock data''])]\<rparr>)"
  by (simp add: rpcCall_def await_def io_simps)

lemma rpcCall_total: "yields (rpcCall hs fetch e meth params) (\<lambda>_. True) (\<lambda>_. False)"
proof (cases "rpc_enabled e")
  case True
  have "yields (await (console_write l a) (\<lambda>_. ret JNull)) (\<lambda>_. True) (\<lambda>_. False)" for l a
    by (rule yields_await [where Q = "\<lambda>_. True"]) auto
  with True show ?thesis
    unfolding rpcCall_def by (auto intro: yields_catch [where F = "\<lambda>_. True"] yields_any)
next
  case False
  then show ?thesis by (simp add: yields_def io_simps)
qed

lemma rpcCall_Ok: "\<exists>v m'. rpcCall hs fetch e meth params m = (Ok v, m')"
proof -
  obtain r m' where r: "rpcCall hs fetch e meth params m = (r, m')" by force
  with yieldsD [OF rpcCall_total r] show ?thesis by (cases r) simp_all
qed

text \<open>A block built from an answer carries the placeholder miner and reward.\<close>

lemma block_of_fixed: "block_of b = Ok blk \<Longrightarrow> miner blk = ''Retardio Miner'' \<and> reward blk = Num 50"
  by (auto simp: block_of_def bind_outcome_Ok_iff)

lemma latest_loop_shape:
  assumes "list_all (\<lambda>b. miner b = ''Retardio Miner'' \<and> reward b = Num 50) blocks"
  shows "yields (latest_loop hs fetch e ht i k blocks)
    (\<lambda>bs. length bs \<le> length blocks + k \<and>
      list_all (\<lambda>b. miner b = ''Retardio Miner'' \<and> reward b = Num 50) bs) (\<lambda>_. True)"
  using assms
proof (induction k arbitrary: i blocks)
  case (Suc k)
  let ?P = "\<lambda>bs. length bs \<le> length blocks + Suc k \<and>
    list_all (\<lambda>b. miner b = ''Retardio Miner'' \<and> reward b = Num 50) bs"
  have keep: "yields (latest_loop hs fetch e ht (Suc i) k blocks) ?P (\<lambda>_. True)"
    by (rule yields_weaken [OF Suc.IH [OF Suc.prems]]) auto
  have grow: "yields (latest_loop hs fetch e ht (Suc i) k (blocks @ [blk])) ?P (\<lambda>_. True)"
    if "miner blk = ''Retardio Miner'' \<and> reward blk = Num 50" for blk
    by (rule yields_weaken [OF Suc.IH [of "blocks @ [blk]"]]) (use Suc.prems that in auto)
  have new: "yields (lift_outcome (block_of b))
      (\<lambda>blk. miner blk = ''Retardio Miner'' \<and> reward blk = Num 50) (\<lambda>_. True)" for b
    using block_of_fixed [of b] by (auto intro!: yields_lift split: outcome.splits)
  have step: "yields (await (lift_outcome (block_of b))
      (\<lambda>blk. latest_loop hs fetch e ht (Suc i) k (blocks @ [blk]))) ?P (\<lambda>_. True)" for b
    by (rule yields_await [OF new grow])
  show ?case
    using keep step Suc.prems by (auto simp: Let_def intro!: yields_await [OF yields_any] yields_ret)
qed auto

section \<open>The server the client relies on\<close>

text \<open>
  \<open>answers\<close>: the request is answered with the result \<open>v\<close> and no error. \<open>refuses\<close>: the
  answer is an HTTP error. Both give the state of the outside world after the request.
\<close>

definition answers :: "'w fetch \<Rightarrow> env \<Rightarrow> string \<Rightarrow> json list \<Rightarrow> 'w \<Rightarrow> json \<Rightarrow> 'w \<Rightarrow> bool" where
  "answers fetch e meth params w v w' = (\<exists>r d err.
     fetch (rpc_post e meth params) w = (Ok r, w') \<and> res_ok r \<and> resp_body r = Some d \<and>
     get_prop ''error'' d = Ok err \<and> \<not> truthy err \<and> get_prop ''result'' d = Ok v)"

definition refuses :: "'w fetch \<Rightarrow> env \<Rightarrow> string \<Rightarrow> json list \<Rightarrow> 'w \<Rightarrow> 'w \<Rightarrow> bool" where
  "refuses fetch e meth params w w' = (\<exists>r.
     fetch (rpc_post e meth params) w = (Ok r, w') \<and> \<not> res_ok r)"

lemma rpcCall_answers:
  assumes "rpc_enabled e" "answers fetch e meth params (world m) v w'"
  shows "\<exists>m'. rpcCall hs fetch e meth params m = (Ok v, m') \<and> world m' = w'"
  using assms unfolding rpcCall_def rpc_attempt_def answers_def
  by (auto simp: try_catch_def await_def io_simps world_call_def res_json_def)

lemma rpcCall_refuses:
  assumes "rpc_enabled e" "refuses fetch e meth params (world m) w'"
  shows "\<exists>m'. rpcCall hs fetch e meth params m = (Ok JNull, m') \<and> world m' = w'"
  using assms unfolding rpcCall_def rpc_attempt_def refuses_def
  by (auto simp: try_catch_def await_def io_simps world_call_def)

text \<open>
  The contract: a server that serves a chain answers each call of the client from it, and
  between two calls the chain may only grow.
\<close>

locale chain_server =
  fixes fetch :: "'w fetch" and e :: env and hs :: host
    and serves :: "'w \<Rightarrow> bool" and extends :: "'w \<Rightarrow> 'w \<Rightarrow> bool"
    and tip :: "'w \<Rightarrow> nat" and hash_at :: "'w \<Rightarrow> nat \<Rightarrow> string"
    and shown :: "'w \<Rightarrow> nat \<Rightarrow> block" and overview :: "'w \<Rightarrow> stats"
  assumes enabled: "serves w \<Longrightarrow> rpc_enabled e"
    and tip_small: "serves w \<Longrightarrow> tip w < 2 ^ 31"
    and hash_nonempty: "serves w \<Longrightarrow> h \<le> tip w \<Longrightarrow> hash_at w h \<noteq> []"
    and extends_serves: "extends w w' \<Longrightarrow> serves w \<Longrightarrow> serves w'"
    and extends_tip: "extends w w' \<Longrightarrow> serves w \<Longrightarrow> tip w \<le> tip w'"
    and extends_same: "extends w w' \<Longrightarrow> serves w \<Longrightarrow> h \<le> tip w \<Longrightarrow>
      hash_at w' h = hash_at w h \<and> shown w' h = shown w h"
    and extends_refl: "extends w w"
    and extends_trans: "extends w w' \<Longrightarrow> extends w' w'' \<Longrightarrow> extends w w''"
    and count: "serves w \<Longrightarrow> \<exists>w'. answers fetch e ''getblockcount'' [] w
      (JNum (Num (of_nat (tip w)))) w' \<and> extends w w'"
    and hash_known: "serves w \<Longrightarrow> h \<le> tip w \<Longrightarrow> \<exists>w'. answers fetch e ''getblockhash''
      [JNum (Num (of_nat h))] w (JStr (hash_at w h)) w' \<and> extends w w'"
    and hash_unknown: "serves w \<Longrightarrow> tip w < h \<Longrightarrow> \<exists>w'. refuses fetch e ''getblockhash''
      [JNum (Num (of_nat h))] w w' \<and> extends w w'"
    and block_known: "serves w \<Longrightarrow> h \<le> tip w \<Longrightarrow> \<exists>b w'. answers fetch e ''getblock''
      [JStr (hash_at w h)] w b w' \<and> extends w w' \<and> truthy b \<and> block_of b = Ok (shown w h)"
    and mining: "serves w \<Longrightarrow> \<exists>info w'. answers fetch e ''getmininginfo'' [] w info w' \<and>
      extends w w' \<and> truthy info \<and> stats_of hs info = Ok (overview w)"
begin

lemma fetch_block:
  assumes "serves (world m)" "h \<le> tip (world m)"
  obtains m1 b m2 where
    "rpcCall hs fetch e ''getblockhash'' [JNum (Num (of_nat h))] m = (Ok (JStr (hash_at (world m) h)), m1)"
    "rpcCall hs fetch e ''getblock'' [JStr (hash_at (world m) h)] m1 = (Ok b, m2)"
    "truthy b" "block_of b = Ok (shown (world m) h)" "extends (world m) (world m2)"
proof -
  note en = enabled [OF assms(1)]
  obtain w1 where w1: "answers fetch e ''getblockhash'' [JNum (Num (of_nat h))] (world m)
      (JStr (hash_at (world m) h)) w1" "extends (world m) w1"
    using hash_known [OF assms] by blast
  obtain m1 where m1: "rpcCall hs fetch e ''getblockhash'' [JNum (Num (of_nat h))] m
      = (Ok (JStr (hash_at (world m) h)), m1)" "extends (world m) (world m1)"
    using rpcCall_answers [OF en w1(1)] w1(2) by blast
  have s1: "serves (world m1)" "h \<le> tip (world m1)"
    using extends_serves [OF m1(2) assms(1)] extends_tip [OF m1(2) assms(1)] assms(2) by auto
  note same = extends_same [OF m1(2) assms]
  obtain b w2 where w2: "answers fetch e ''getblock'' [JStr (hash_at (world m) h)] (world m1) b w2"
      "extends (world m1) w2" "truthy b" "block_of b = Ok (shown (world m) h)"
    using block_known [OF s1] same by auto
  obtain m2 where m2: "rpcCall hs fetch e ''getblock'' [JStr (hash_at (world m) h)] m1 = (Ok b, m2)"
      "world m2 = w2"
    using rpcCall_answers [OF en w2(1)] by blast
  show thesis
    using that [OF m1(1) m2(1) w2(3,4)] extends_trans [OF m1(2)] w2(2) m2(2) by blast
qed

lemma latest_loop_serves:
  assumes "serves (world m)" "h0 \<le> tip (world m)" "i \<le> Suc h0"
  shows "\<exists>m'. latest_loop hs fetch e (JNum (Num (of_nat h0))) i k blocks m
    = (Ok (blocks @ map (\<lambda>j. shown (world m) (h0 - j)) [i..<min (i + k) (Suc h0)]), m')
    \<and> extends (world m) (world m')"
  using assms
proof (induction k arbitrary: i blocks m)
  case 0
  then show ?case by (simp add: io_simps extends_refl)
next
  case (Suc k)
  have small: "h0 \<le> 2 ^ 53" using Suc.prems(2) tip_small [OF Suc.prems(1)] by simp
  show ?case
  proof (cases "i \<le> h0")
    case True
    have h: "js_sub (Num (of_nat h0)) (Num (of_nat i)) = Num (of_nat (h0 - i))"
      using js_sub_nat [of i h0] True small by simp
    obtain m1 b m2 where c:
      "rpcCall hs fetch e ''getblockhash'' [JNum (Num (of_nat (h0 - i)))] m
        = (Ok (JStr (hash_at (world m) (h0 - i))), m1)"
      "rpcCall hs fetch e ''getblock'' [JStr (hash_at (world m) (h0 - i))] m1 = (Ok b, m2)"
      "truthy b" "block_of b = Ok (shown (world m) (h0 - i))" "extends (world m) (world m2)"
      by (rule fetch_block [OF Suc.prems(1), of "h0 - i"]) (use Suc.prems(2) in auto)
    have s2: "serves (world m2)" "h0 \<le> tip (world m2)"
      using extends_serves [OF c(5)] extends_tip [OF c(5)] Suc.prems by auto
    obtain m' where m': "latest_loop hs fetch e (JNum (Num (of_nat h0))) (Suc i) k
        (blocks @ [shown (world m) (h0 - i)]) m2
      = (Ok ((blocks @ [shown (world m) (h0 - i)])
          @ map (\<lambda>j. shown (world m2) (h0 - j)) [Suc i..<min (Suc i + k) (Suc h0)]), m')"
        "extends (world m2) (world m')"
      using Suc.IH [OF s2, of "Suc i" "blocks @ [shown (world m) (h0 - i)]"] True by auto
    have same: "shown (world m2) (h0 - j) = shown (world m) (h0 - j)" for j
      using extends_same [OF c(5) Suc.prems(1), of "h0 - j"] Suc.prems(2) by simp
    have "[i..<min (i + Suc k) (Suc h0)] = i # [Suc i..<min (Suc i + k) (Suc h0)]"
      using True upt_conv_Cons [of i "min (i + Suc k) (Suc h0)"] by simp
    with m'(1) c extends_trans [OF c(5) m'(2)] show ?thesis
      by (simp add: h js_less_def await_def io_simps same)
  next
    case False
    then have "i = Suc h0" using Suc.prems(3) by simp
    moreover have "js_sub (Num (of_nat h0)) (Num (of_nat (Suc h0))) = Num (- 1)"
      using fl_of_int [of "- 1"] by (simp add: js_sub_def js_add_def js_uminus_def)
    ultimately show ?thesis by (simp add: await_def io_simps js_less_def extends_refl del: of_nat_Suc)
  qed
qed

lemma latest_blocks:
  assumes "serves (world m)" "0 < tip (world m)"
  shows "\<exists>m'. getLatestBlocks hs fetch e m
    = (Ok (map (\<lambda>j. shown (world m) (tip (world m) - j)) [0..<min 10 (Suc (tip (world m)))]), m')
    \<and> extends (world m) (world m')"
proof -
  obtain w1 where w1: "answers fetch e ''getblockcount'' [] (world m)
      (JNum (Num (of_nat (tip (world m))))) w1" "extends (world m) w1"
    using count [OF assms(1)] by blast
  obtain m1 where m1: "rpcCall hs fetch e ''getblockcount'' [] m
      = (Ok (JNum (Num (of_nat (tip (world m))))), m1)" "world m1 = w1"
    using rpcCall_answers [OF enabled [OF assms(1)] w1(1)] by blast
  have s1: "serves (world m1)" "tip (world m) \<le> tip (world m1)"
    using extends_serves [OF w1(2) assms(1)] extends_tip [OF w1(2) assms(1)] m1(2) by simp_all
  have same: "shown (world m1) (tip (world m) - j) = shown (world m) (tip (world m) - j)" for j
    using extends_same [OF w1(2) assms(1)] m1(2) by simp
  obtain m' where "latest_loop hs fetch e (JNum (Num (of_nat (tip (world m))))) 0 10 [] m1
      = (Ok (map (\<lambda>j. shown (world m) (tip (world m) - j)) [0..<min 10 (Suc (tip (world m)))]), m')"
      "extends (world m1) (world m')"
    using latest_loop_serves [OF s1, of 0 10 "[]"] by (auto simp: same)
  then show ?thesis
    using m1 assms(2) extends_trans [OF w1(2)] by (simp add: getLatestBlocks_def await_def)
qed

lemma latest_blocks_genesis:
  assumes "serves (world m)" "tip (world m) = 0"
  shows "\<exists>m'. getLatestBlocks hs fetch e m = (Ok (MOCK_BLOCKS hs), m')"
proof -
  obtain w1 where w1: "answers fetch e ''getblockcount'' [] (world m) (JNum (Num 0)) w1"
    using count [OF assms(1)] assms(2) by auto
  obtain m1 where "rpcCall hs fetch e ''getblockcount'' [] m = (Ok (JNum (Num 0)), m1)"
    using rpcCall_answers [OF enabled [OF assms(1)] w1] by blast
  then show ?thesis by (simp add: getLatestBlocks_def await_def io_simps)
qed

lemma get_block:
  assumes "serves (world m)" "h \<le> tip (world m)"
  shows "\<exists>m'. getBlock hs fetch e (Num (of_nat h)) m = (Ok (shown (world m) h), m')"
proof -
  obtain m1 b m2 where
    "rpcCall hs fetch e ''getblockhash'' [JNum (Num (of_nat h))] m = (Ok (JStr (hash_at (world m) h)), m1)"
    "rpcCall hs fetch e ''getblock'' [JStr (hash_at (world m) h)] m1 = (Ok b, m2)"
    "block_of b = Ok (shown (world m) h)"
    by (rule fetch_block [OF assms])
  then show ?thesis
    using hash_nonempty [OF assms] by (simp add: getBlock_def await_def io_simps)
qed

lemma get_block_beyond:
  assumes "serves (world m)" "tip (world m) < h"
  shows "\<exists>m'. getBlock hs fetch e (Num (of_nat h)) m = (Ok (MOCK_BLOCKS hs ! 0), m')"
proof -
  obtain w1 where w1: "refuses fetch e ''getblockhash'' [JNum (Num (of_nat h))] (world m) w1"
    using hash_unknown [OF assms] by blast
  obtain m1 where "rpcCall hs fetch e ''getblockhash'' [JNum (Num (of_nat h))] m = (Ok JNull, m1)"
    using rpcCall_refuses [OF enabled [OF assms(1)] w1] by blast
  then show ?thesis by (simp add: getBlock_def await_def io_simps)
qed

lemma get_stats:
  assumes "serves (world m)"
  shows "\<exists>m'. getStats hs fetch e m = (Ok (overview (world m)), m') \<and> extends (world m) (world m')"
proof -
  obtain info w1 where w1: "answers fetch e ''getmininginfo'' [] (world m) info w1" "truthy info"
      "stats_of hs info = Ok (overview (world m))" "extends (world m) w1"
    using mining [OF assms] by blast
  then obtain m1 where "rpcCall hs fetch e ''getmininginfo'' [] m = (Ok info, m1)" "world m1 = w1"
    using rpcCall_answers [OF enabled [OF assms] w1(1)] by blast
  with w1 show ?thesis by (simp add: getStats_def await_def io_simps)
qed

end

section \<open>Properties\<close>

lemma get_prop_same: "get_prop k d = Ok v \<Longrightarrow> \<exists>u. get_prop l d = Ok u"
  by (cases d) auto

lemma truthy_get_prop: "truthy v \<Longrightarrow> \<exists>u. get_prop l v = Ok u"
  by (cases v) auto

lemma rpcCall_error_member:
  assumes "rpc_enabled e" "fetch (rpc_post e meth params) (world m) = (Ok res, w)" "res_ok res"
    "resp_body res = Some d" "get_prop ''error'' d = Ok err" "truthy err" "get_prop ''message'' err = Ok msg"
  shows "rpcCall hs fetch e meth params m = (Ok JNull, logged m w [line_called e meth,
    (ErrorLevel, [LText ''RPC Application Error:'', LJson err]),
    line_exception meth (case new_Error msg of Ok ex \<Rightarrow> ex | Throw ex \<Rightarrow> ex)])"
  using assms by (simp add: call_simps io_simps split: outcome.splits)

lemma rpcCall_unreachable:
  assumes "\<not> rpc_enabled e \<or> unreachable fetch"
  shows "rpcCall hs fetch e meth params m = (Ok JNull, given_up fetch e meth params m)"
proof (cases "rpc_enabled e")
  case True
  obtain r w where r: "fetch (rpc_post e meth params) (world m) = (r, w)" by force
  with True assms have "case r of Ok res \<Rightarrow> \<not> res_ok res | Throw ex \<Rightarrow> True"
    unfolding unreachable_def by (metis fst_conv)
  with True r show ?thesis
    by (cases r) (simp_all add: call_simps given_up_def io_simps)
qed (simp add: call_simps io_simps given_up_def)

text \<open>
  C22: \<open>rpcCall\<close> never rejects, and what a caller sees of a failure is \<open>null\<close>, with the failure on the console.
  Without \<open>RPC_USER\<close> nothing is sent and one warning is written. Otherwise one request is sent, announced
  on the console; then, one by one: a \<open>fetch\<close> that rejects, an HTTP error, a body that is not JSON, a body
  without members and a body with an \<open>error\<close> member (whose message becomes an exception that the function's own
  handler catches) each give \<open>null\<close> and the named error lines; every other answer gives its \<open>result\<close> member
  and no error line.
\<close>

theorem rpcCall_never_throws:
  "if \<not> rpc_enabled e
   then rpcCall hs fetch e meth params m
     = (Ok JNull, logged m (world m) [line_unset])
   else case fetch (rpc_post e meth params) (world m) of
     (Throw ex, w) \<Rightarrow> rpcCall hs fetch e meth params m
       = (Ok JNull, logged m w [line_called e meth, line_exception meth ex])
   | (Ok res, w) \<Rightarrow>
       if \<not> res_ok res then rpcCall hs fetch e meth params m
         = (Ok JNull, logged m w [line_called e meth, line_http res])
       else (case resp_body res of
         None \<Rightarrow> rpcCall hs fetch e meth params m
           = (Ok JNull, logged m w [line_called e meth, line_exception meth (SyntaxError (json_error hs res))])
       | Some d \<Rightarrow> (case get_prop ''error'' d of
           Throw ex \<Rightarrow> rpcCall hs fetch e meth params m
             = (Ok JNull, logged m w [line_called e meth, line_exception meth ex])
         | Ok err \<Rightarrow>
             if truthy err then \<exists>msg. get_prop ''message'' err = Ok msg \<and> rpcCall hs fetch e meth params m
               = (Ok JNull, logged m w [line_called e meth,
                   (ErrorLevel, [LText ''RPC Application Error:'', LJson err]),
                   line_exception meth (case new_Error msg of Ok ex \<Rightarrow> ex | Throw ex \<Rightarrow> ex)])
             else \<exists>v. get_prop ''result'' d = Ok v \<and> rpcCall hs fetch e meth params m
               = (Ok v, logged m w [line_called e meth])))"
proof (cases "rpc_enabled e")
  case True
  obtain r w where r: "fetch (rpc_post e meth params) (world m) = (r, w)" by force
  show ?thesis
  proof (cases r)
    case (Ok res)
    note here = True r Ok
    show ?thesis
    proof (cases "res_ok res \<and> (\<exists>d err. resp_body res = Some d \<and> get_prop ''error'' d = Ok err)")
      case True
      then obtain d err where d: "res_ok res" "resp_body res = Some d" "get_prop ''error'' d = Ok err" by blast
      obtain v where v: "get_prop ''result'' d = Ok v" using get_prop_same [OF d(3)] by blast
      show ?thesis
      proof (cases "truthy err")
        case True
        obtain msg where msg: "get_prop ''message'' err = Ok msg" using truthy_get_prop [OF True] by blast
        show ?thesis
          using rpcCall_error_member [of e fetch meth params m res w d err msg hs] here d True msg by simp
      next
        case False
        then show ?thesis using here d v by (simp add: call_simps io_simps)
      qed
    next
      case False
      then show ?thesis using here by (auto simp: call_simps io_simps split: option.splits outcome.splits)
    qed
  qed (use True r in \<open>simp add: call_simps io_simps\<close>)
qed (simp add: call_simps io_simps)

text \<open>
  C36: a client without a node shows mock data, whether \<open>RPC_USER\<close> is not set, so that nothing is sent, or it
  is set and no request is answered with success: each exported function sends its first request and no
  other, leaves the warning or the error on the console and returns the mock statistics, the ten mock
  blocks and, for every height, the mock block 10500.
\<close>

theorem offline_mock_data:
  assumes "\<not> rpc_enabled e \<or> unreachable fetch"
  shows "getStats hs fetch e m = (Ok mock_stats, given_up fetch e ''getmininginfo'' [] m) \<and>
    getLatestBlocks hs fetch e m = (Ok (MOCK_BLOCKS hs), given_up fetch e ''getblockcount'' [] m) \<and>
    getBlock hs fetch e n m = (Ok (MOCK_BLOCKS hs ! 0), given_up fetch e ''getblockhash'' [JNum n] m)"
  using rpcCall_unreachable [OF assms]
  by (simp add: getStats_def getLatestBlocks_def getBlock_def await_def io_simps)

text \<open>A configured client whose connection is refused, and one that is not configured.\<close>

theorem offline_mock_data_witness:
  "\<forall>hs. (let down = (\<lambda>_ w. (Throw (TypeError ''fetch failed''), Suc w)) :: nat fetch;
      e = \<lparr>process_RPC_USER = Some ''user'', process_RPC_PASSWORD = Some ''pass'', process_RPC_HOST = None,
        process_RPC_PORT = None\<rparr>;
      m = \<lparr>console = [], world = 0\<rparr>
    in fst (getBlock hs down e (Num 7) m) = Ok (MOCK_BLOCKS hs ! 0) \<and>
       world (snd (getStats hs down e m)) = 1 \<and>
       fst (getStats hs down (e\<lparr>process_RPC_USER := None\<rparr>) m) = Ok mock_stats)"
proof -
  let ?down = "(\<lambda>_ w. (Throw (TypeError ''fetch failed''), Suc w)) :: nat fetch"
  have "unreachable ?down" by (simp add: unreachable_def)
  then have up: "\<not> rpc_enabled e' \<or> unreachable ?down" for e' by simp
  show ?thesis
    unfolding Let_def
    by (simp add: offline_mock_data [OF up, simplified] given_up_def logged_def rpc_enabled_def env_or_def)
qed

text \<open>
  Whatever the server answers, a block list that is returned is the mock list, or has at
  most ten entries that all carry the placeholder miner and the fixed reward of 50.
\<close>

theorem getLatestBlocks_shape:
  "case fst (getLatestBlocks hs fetch e m) of
     Ok bs \<Rightarrow> bs = MOCK_BLOCKS hs \<or>
       length bs \<le> 10 \<and> list_all (\<lambda>b. miner b = ''Retardio Miner'' \<and> reward b = Num 50) bs
   | Throw _ \<Rightarrow> True"
proof -
  have "yields (latest_loop hs fetch e ht 0 10 []) (\<lambda>bs. bs = MOCK_BLOCKS hs \<or>
      length bs \<le> 10 \<and> list_all (\<lambda>b. miner b = ''Retardio Miner'' \<and> reward b = Num 50) bs) (\<lambda>_. True)" for ht
    by (rule yields_weaken [OF latest_loop_shape [of "[]" hs fetch e ht 0 10]]) simp_all
  then have "yields (getLatestBlocks hs fetch e) (\<lambda>bs. bs = MOCK_BLOCKS hs \<or>
      length bs \<le> 10 \<and> list_all (\<lambda>b. miner b = ''Retardio Miner'' \<and> reward b = Num 50) bs) (\<lambda>_. True)"
    unfolding getLatestBlocks_def by (auto intro!: yields_await [OF yields_any] yields_ret)
  then show ?thesis by (simp add: yields_def)
qed

end
