(* ===== verification/Node_Rpc.thy ===== *)
theory Node_Rpc
  imports Http
begin

text \<open>
  The node's side of the explorer's requests: HTTP entry, authorization, JSON-RPC parsing,
  dispatch and the four handlers the explorer calls (\<open>src/httprpc.cpp\<close>,
  \<open>src/rpc/request.cpp\<close>, \<open>src/rpc/server.cpp\<close>, \<open>src/rpc/blockchain.cpp\<close>,
  \<open>src/rpc/mining.cpp\<close>). The block index keeps its hexadecimal fields as the text the
  handlers print. HMAC-SHA256, the network hash rate estimate, the reason phrases of the
  HTTP library and the handlers of methods the explorer does not call are fields of the node.
  The messages of argument errors, which print the help text of the method, are abbreviated
  to the name of the method.
\<close>

section \<open>State\<close>

datatype data_status = HaveData | Pruned | NotDownloaded | Unreadable

record block_index =
  bi_hash :: string
  nHeight :: int
  nVersion :: int
  versionHex :: string
  merkleroot :: string
  nTime :: int
  mediantime :: int
  nNonce :: int
  nBits :: string
  bi_target :: string
  difficulty :: number
  chainwork :: string
  nTx :: int
  previousblockhash :: "string option"
  bi_status :: data_status
  strippedsize :: int
  block_size :: int
  weight :: int
  txids :: "string list"
  raw_hex :: string

datatype rpc_result = Result json | RpcError int string

text \<open>
  \<open>tx_details\<close> is the \<open>tx\<close> array of the verbosities above 1 (\<open>TxToUniv\<close>), \<open>named_args\<close> the
  reordering of named parameters (\<open>transformNamedArguments\<close>).
\<close>

record node =
  active_chain :: "block_index list"
  stale_blocks :: "block_index list"
  rpcauth :: "(string \<times> string \<times> string) list"
  hmac_hex :: "string \<Rightarrow> byte list \<Rightarrow> string"
  in_warmup :: "string option"
  networkhashps :: "number"
  mining_extra :: "(string \<times> json) list"
  tx_details :: "block_index \<Rightarrow> int \<Rightarrow> json list"
  named_args :: "string \<Rightarrow> (string \<times> json) list \<Rightarrow> (int \<times> string) + json list"
  whitelist :: "string \<rightharpoonup> string list"
  whitelist_default :: bool
  http_reason :: "nat \<Rightarrow> string"
  other_method :: "string \<Rightarrow> json list \<Rightarrow> rpc_result option"

definition RPC_INVALID_REQUEST :: int where "RPC_INVALID_REQUEST = - 32600"
definition RPC_METHOD_NOT_FOUND :: int where "RPC_METHOD_NOT_FOUND = - 32601"
definition RPC_PARSE_ERROR :: int where "RPC_PARSE_ERROR = - 32700"
definition RPC_MISC_ERROR :: int where "RPC_MISC_ERROR = - 1"
definition RPC_TYPE_ERROR :: int where "RPC_TYPE_ERROR = - 3"
definition RPC_INVALID_ADDRESS_OR_KEY :: int where "RPC_INVALID_ADDRESS_OR_KEY = - 5"
definition RPC_INVALID_PARAMETER :: int where "RPC_INVALID_PARAMETER = - 8"
definition RPC_IN_WARMUP :: int where "RPC_IN_WARMUP = - 28"

lemmas rpc_codes = RPC_INVALID_REQUEST_def RPC_METHOD_NOT_FOUND_def RPC_PARSE_ERROR_def
  RPC_MISC_ERROR_def RPC_TYPE_ERROR_def RPC_INVALID_ADDRESS_OR_KEY_def RPC_INVALID_PARAMETER_def
  RPC_IN_WARMUP_def

abbreviation jint :: "int \<Rightarrow> json" where
  "jint i \<equiv> JNum (Num (of_int i))"

section \<open>Chain access\<close>

definition Height :: "node \<Rightarrow> int" where
  "Height n = int (length (active_chain n)) - 1"

text \<open>A hash argument: 64 hexadecimal digits, compared without regard to case.\<close>

definition hex_lower :: "char \<Rightarrow> char" where
  "hex_lower ch = (let k = of_char ch in if 65 \<le> k \<and> k \<le> (70 :: nat) then char_of (k + 32) else ch)"

definition is_hex :: "char \<Rightarrow> bool" where
  "is_hex ch = (case char_digit ch of Some d \<Rightarrow> d < 16 | None \<Rightarrow> False)"

definition FromHex :: "string \<Rightarrow> string option" where
  "FromHex s = (if length s = 64 \<and> list_all is_hex s then Some (map hex_lower s) else None)"

definition ParseHashV :: "string \<Rightarrow> string \<Rightarrow> (int \<times> string) + string" where
  "ParseHashV strHex name = (case FromHex strHex of
     Some h \<Rightarrow> Inr h
   | None \<Rightarrow> Inl (RPC_INVALID_PARAMETER,
       if length strHex \<noteq> 64
       then name @ '' must be of length 64 (not '' @ nat_to_string (length strHex) @ '', for '' @ [CHR 0x27] @ strHex
         @ [CHR 0x27] @ '')''
       else name @ '' must be hexadecimal string (not '' @ [CHR 0x27] @ strHex @ [CHR 0x27] @ '')''))"

definition LookupBlockIndex :: "node \<Rightarrow> string \<Rightarrow> block_index option" where
  "LookupBlockIndex n h = find (\<lambda>b. bi_hash b = h) (active_chain n @ stale_blocks n)"

section \<open>Handlers\<close>

definition getblockcount :: "node \<Rightarrow> json list \<Rightarrow> rpc_result" where
  "getblockcount n params =
     (if params \<noteq> [] then RpcError RPC_MISC_ERROR ''getblockcount'' else Result (jint (Height n)))"

text \<open>\<open>UniValue::getInt<int>\<close>: the number must be an integer of 32 bits.\<close>

definition getInt :: "number \<Rightarrow> int option" where
  "getInt a = (case val a of
     Some r \<Rightarrow> if of_int \<lfloor>r\<rfloor> = r \<and> - (2 ^ 31) \<le> \<lfloor>r\<rfloor> \<and> \<lfloor>r\<rfloor> < 2 ^ 31 then Some \<lfloor>r\<rfloor> else None
   | None \<Rightarrow> None)"

definition getblockhash :: "node \<Rightarrow> json list \<Rightarrow> rpc_result" where
  "getblockhash n params = (case params of
     [JNum a] \<Rightarrow> (case getInt a of
         None \<Rightarrow> RpcError RPC_MISC_ERROR ''JSON integer out of range''
       | Some h \<Rightarrow>
           if h < 0 \<or> Height n < h then RpcError RPC_INVALID_PARAMETER ''Block height out of range''
           else Result (JStr (bi_hash (active_chain n ! nat h))))
   | [_] \<Rightarrow> RpcError RPC_TYPE_ERROR ''Wrong type passed''
   | _ \<Rightarrow> RpcError RPC_MISC_ERROR ''getblockhash'')"

text \<open>The block after \<open>b\<close> on the active chain, if \<open>b\<close> is on it, and the depth of \<open>b\<close>.\<close>

definition ComputeNextBlockAndDepth :: "node \<Rightarrow> block_index \<Rightarrow> int \<times> string option" where
  "ComputeNextBlockAndDepth n b =
     (let i = nat (nHeight b + 1) in
      if i < length (active_chain n) \<and> previousblockhash (active_chain n ! i) = Some (bi_hash b)
      then (Height n - nHeight b + 1, Some (bi_hash (active_chain n ! i)))
      else (if active_chain n \<noteq> [] \<and> bi_hash b = bi_hash (last (active_chain n)) then 1 else - 1, None))"

definition blockheaderToJSON :: "node \<Rightarrow> block_index \<Rightarrow> (string \<times> json) list" where
  "blockheaderToJSON n b = (let (confirmations, pnext) = ComputeNextBlockAndDepth n b in
     [(''hash'', JStr (bi_hash b)),
      (''confirmations'', jint confirmations),
      (''height'', jint (nHeight b)),
      (''version'', jint (nVersion b)),
      (''versionHex'', JStr (versionHex b)),
      (''merkleroot'', JStr (merkleroot b)),
      (''time'', jint (nTime b)),
      (''mediantime'', jint (mediantime b)),
      (''nonce'', jint (nNonce b)),
      (''bits'', JStr (nBits b)),
      (''target'', JStr (bi_target b)),
      (''difficulty'', JNum (difficulty b)),
      (''chainwork'', JStr (chainwork b)),
      (''nTx'', jint (nTx b))]
     @ (case previousblockhash b of Some p \<Rightarrow> [(''previousblockhash'', JStr p)] | None \<Rightarrow> [])
     @ (case pnext of Some p \<Rightarrow> [(''nextblockhash'', JStr p)] | None \<Rightarrow> []))"

definition blockToJSON :: "node \<Rightarrow> block_index \<Rightarrow> int \<Rightarrow> json" where
  "blockToJSON n b verbosity = JObj (blockheaderToJSON n b @
     [(''strippedsize'', jint (strippedsize b)),
      (''size'', jint (block_size b)),
      (''weight'', jint (weight b)),
      (''tx'', JArr (if verbosity = 1 then map JStr (txids b) else tx_details n b verbosity))])"

definition GetRawBlockChecked :: "block_index \<Rightarrow> (int \<times> string) option" where
  "GetRawBlockChecked b = (case bi_status b of
     HaveData \<Rightarrow> None
   | Pruned \<Rightarrow> Some (RPC_MISC_ERROR, ''Block not available (pruned data)'')
   | NotDownloaded \<Rightarrow> Some (RPC_MISC_ERROR, ''Block not available (not fully downloaded)'')
   | Unreadable \<Rightarrow> Some (RPC_MISC_ERROR, ''Block not found on disk''))"

text \<open>\<open>ParseVerbosity\<close> with default 1 and booleans allowed; \<open>None\<close> is a type error.\<close>

definition ParseVerbosity :: "json \<Rightarrow> (int \<times> string) + int" where
  "ParseVerbosity arg = (case arg of
     JNull \<Rightarrow> Inr 1
   | JBool b \<Rightarrow> Inr (if b then 1 else 0)
   | JNum a \<Rightarrow> (case getInt a of Some v \<Rightarrow> Inr v | None \<Rightarrow> Inl (RPC_MISC_ERROR, ''JSON integer out of range''))
   | _ \<Rightarrow> Inl (RPC_TYPE_ERROR, ''JSON value is not of expected type number''))"

definition getblock :: "node \<Rightarrow> json list \<Rightarrow> rpc_result" where
  "getblock n params = (case params of
     JStr strHex # optargs \<Rightarrow>
       if 1 < length optargs then RpcError RPC_MISC_ERROR ''getblock''
       else (case ParseHashV strHex ''blockhash'' of
         Inl (code, msg) \<Rightarrow> RpcError code msg
       | Inr h \<Rightarrow> (case ParseVerbosity (case optargs of v # _ \<Rightarrow> v | [] \<Rightarrow> JNull) of
           Inl (code, msg) \<Rightarrow> RpcError code msg
         | Inr verbosity \<Rightarrow> (case LookupBlockIndex n h of
             None \<Rightarrow> RpcError RPC_INVALID_ADDRESS_OR_KEY ''Block not found''
           | Some b \<Rightarrow> (case GetRawBlockChecked b of
               Some (code, msg) \<Rightarrow> RpcError code msg
             | None \<Rightarrow> if verbosity \<le> 0 then Result (JStr (raw_hex b))
                 else Result (blockToJSON n b verbosity)))))
   | _ # optargs \<Rightarrow> if 1 < length optargs then RpcError RPC_MISC_ERROR ''getblock''
       else RpcError RPC_TYPE_ERROR ''Wrong type passed''
   | [] \<Rightarrow> RpcError RPC_MISC_ERROR ''getblock'')"

definition getmininginfo :: "node \<Rightarrow> json list \<Rightarrow> rpc_result" where
  "getmininginfo n params =
     (if params \<noteq> [] then RpcError RPC_MISC_ERROR ''getmininginfo''
      else if active_chain n = [] then RpcError RPC_MISC_ERROR ''Internal bug detected''
      else (let tip = last (active_chain n) in
        Result (JObj ([(''blocks'', jint (Height n)),
          (''bits'', JStr (nBits tip)),
          (''difficulty'', JNum (difficulty tip)),
          (''target'', JStr (bi_target tip)),
          (''networkhashps'', JNum (networkhashps n))] @ mining_extra n))))"

section \<open>Dispatch and HTTP\<close>

definition rpc_execute :: "node \<Rightarrow> string \<Rightarrow> json list \<Rightarrow> rpc_result" where
  "rpc_execute n meth params =
     (if meth = ''getblockcount'' then getblockcount n params
      else if meth = ''getblockhash'' then getblockhash n params
      else if meth = ''getblock'' then getblock n params
      else if meth = ''getmininginfo'' then getmininginfo n params
      else (case other_method n meth params of Some r \<Rightarrow> r
        | None \<Rightarrow> RpcError RPC_METHOD_NOT_FOUND ''Method not found''))"

definition JSONRPCError :: "int \<Rightarrow> string \<Rightarrow> json" where
  "JSONRPCError code msg = JObj [(''code'', jint code), (''message'', JStr msg)]"

text \<open>\<open>v2\<close> is whether the request asked for JSON-RPC 2.0.\<close>

definition JSONRPCReplyObj :: "json \<Rightarrow> json \<Rightarrow> json option \<Rightarrow> bool \<Rightarrow> json" where
  "JSONRPCReplyObj result error rid v2 = JObj (
     (if v2 then [(''jsonrpc'', JStr ''2.0'')] else [])
     @ (if error = JNull then (''result'', result) # (if v2 then [] else [(''error'', JNull)])
        else (if v2 then [] else [(''result'', JNull)]) @ [(''error'', error)])
     @ (case rid of Some i \<Rightarrow> [(''id'', i)] | None \<Rightarrow> []))"

text \<open>
  \<open>JSONRPCRequest::parse\<close>. The request object lives across the elements of a batch: an
  element that is not an object leaves the id and the version of the one before it.
\<close>

record rpc_request =
  rpc_id :: "json option"
  rpc_v2 :: bool
  rpc_call :: "(int \<times> string) + (string \<times> json)"

definition new_request :: rpc_request where
  "new_request = \<lparr>rpc_id = Some JNull, rpc_v2 = False, rpc_call = Inr ([], JArr [])\<rparr>"

definition JSONErrorReply :: "node \<Rightarrow> int \<Rightarrow> string \<Rightarrow> rpc_request \<Rightarrow> response" where
  "JSONErrorReply n code msg jreq =
     (let st = (if code = RPC_INVALID_REQUEST then 400 else if code = RPC_METHOD_NOT_FOUND then 404 else 500)
      in \<lparr>status = st, statusText = http_reason n st,
          resp_body = Some (JSONRPCReplyObj JNull (JSONRPCError code msg) (rpc_id jreq) (rpc_v2 jreq))\<rparr>)"

definition json_field :: "string \<Rightarrow> (string \<times> json) list \<Rightarrow> json" where
  "json_field k kvs = (case map_of kvs k of Some v \<Rightarrow> v | None \<Rightarrow> JNull)"

definition parse_call :: "(string \<times> json) list \<Rightarrow> (int \<times> string) + (string \<times> json)" where
  "parse_call kvs = (case json_field ''method'' kvs of
     JNull \<Rightarrow> Inl (RPC_INVALID_REQUEST, ''Missing method'')
   | JStr m \<Rightarrow> (case json_field ''params'' kvs of
         JArr ps \<Rightarrow> Inr (m, JArr ps)
       | JObj ps \<Rightarrow> Inr (m, JObj ps)
       | JNull \<Rightarrow> Inr (m, JArr [])
       | _ \<Rightarrow> Inl (RPC_INVALID_REQUEST, ''Params must be an array or object''))
   | _ \<Rightarrow> Inl (RPC_INVALID_REQUEST, ''Method must be a string''))"

definition parse_request :: "rpc_request \<Rightarrow> json \<Rightarrow> rpc_request" where
  "parse_request jreq v = (case v of
     JObj kvs \<Rightarrow> \<lparr>rpc_id = map_of kvs ''id'', rpc_v2 = (json_field ''jsonrpc'' kvs = JStr ''2.0''),
       rpc_call = parse_call kvs\<rparr>
   | _ \<Rightarrow> jreq\<lparr>rpc_call := Inl (RPC_INVALID_REQUEST, ''Invalid Request object'')\<rparr>)"

definition IsNotification :: "rpc_request \<Rightarrow> bool" where
  "IsNotification r = (rpc_id r = None \<and> rpc_v2 r)"

text \<open>
  \<open>CRPCTable::execute\<close> and \<open>ExecuteCommand\<close>: nothing runs during warmup, and named parameters
  are reordered by the table of the method first.
\<close>

definition ExecuteCommand :: "node \<Rightarrow> string \<Rightarrow> json \<Rightarrow> rpc_result" where
  "ExecuteCommand n meth params = (case in_warmup n of
     Some msg \<Rightarrow> RpcError RPC_IN_WARMUP msg
   | None \<Rightarrow> (case params of
       JArr ps \<Rightarrow> rpc_execute n meth ps
     | JObj kvs \<Rightarrow> (case named_args n meth kvs of
         Inl (code, msg) \<Rightarrow> RpcError code msg | Inr ps \<Rightarrow> rpc_execute n meth ps)
     | _ \<Rightarrow> rpc_execute n meth []))"

text \<open>Authorization against the configured \<open>rpcauth\<close> entries.\<close>

definition string_of_bytes :: "byte list \<Rightarrow> string" where
  "string_of_bytes = map char_of"

definition multiUserAuthorized :: "node \<Rightarrow> byte list \<Rightarrow> bool" where
  "multiUserAuthorized n userpass =
     (let s = string_of_bytes userpass;
          strUser = takeWhile (\<lambda>ch. ch \<noteq> CHR '':'') s;
          strPass = drop (length strUser + 1) userpass
      in CHR '':'' \<in> set s \<and>
         list_ex (\<lambda>(name, salt, h). name = strUser \<and> hmac_hex n salt strPass = h) (rpcauth n))"

definition is_trim_char :: "char \<Rightarrow> bool" where
  "is_trim_char ch = (of_char ch \<in> {32, 12, 10, 13, 9, 11 :: nat})"

definition TrimStringView :: "string \<Rightarrow> string" where
  "TrimStringView s = rev (dropWhile is_trim_char (rev (dropWhile is_trim_char s)))"

definition RPCAuthorized :: "node \<Rightarrow> string \<Rightarrow> bool" where
  "RPCAuthorized n strAuth =
     (take 6 strAuth = ''Basic '' \<and>
      (case DecodeBase64 (TrimStringView (drop 6 strAuth)) of
         None \<Rightarrow> False
       | Some userpass \<Rightarrow> multiUserAuthorized n userpass))"

text \<open>The user name that \<open>RPCAuthorized\<close> leaves behind.\<close>

definition auth_user :: "string \<Rightarrow> string" where
  "auth_user strAuth = (case DecodeBase64 (TrimStringView (drop 6 strAuth)) of
     None \<Rightarrow> []
   | Some up \<Rightarrow> (let s = string_of_bytes up in
       if CHR '':'' \<in> set s then takeWhile (\<lambda>ch. ch \<noteq> CHR '':'') s else []))"

definition plain_reply :: "node \<Rightarrow> nat \<Rightarrow> response" where
  "plain_reply n st = \<lparr>status = st, statusText = http_reason n st, resp_body = None\<rparr>"

definition json_reply :: "node \<Rightarrow> json \<Rightarrow> response" where
  "json_reply n v = \<lparr>status = 200, statusText = http_reason n 200, resp_body = Some v\<rparr>"

definition allowed_method :: "node \<Rightarrow> string \<Rightarrow> string \<Rightarrow> bool" where
  "allowed_method n user m = (case whitelist n user of None \<Rightarrow> True | Some ms \<Rightarrow> m \<in> set ms)"

text \<open>A single request: errors become HTTP errors in the legacy version, replies in 2.0.\<close>

definition singleton_request :: "node \<Rightarrow> string \<Rightarrow> json \<Rightarrow> response" where
  "singleton_request n user v = (let r = parse_request new_request v in case rpc_call r of
     Inl (code, msg) \<Rightarrow> JSONErrorReply n code msg r
   | Inr (m, ps) \<Rightarrow>
       if \<not> allowed_method n user m then plain_reply n 403
       else (case ExecuteCommand n m ps of
         RpcError code msg \<Rightarrow>
           if \<not> rpc_v2 r then JSONErrorReply n code msg r
           else if IsNotification r then plain_reply n 204
           else json_reply n (JSONRPCReplyObj JNull (JSONRPCError code msg) (rpc_id r) True)
       | Result w \<Rightarrow>
           if IsNotification r then plain_reply n 204
           else json_reply n (JSONRPCReplyObj w JNull (rpc_id r) (rpc_v2 r))))"

text \<open>The elements of a batch in order; notifications get no reply.\<close>

definition batch_reply :: "node \<Rightarrow> rpc_request \<Rightarrow> json" where
  "batch_reply n r = (case rpc_call r of
     Inl (code, msg) \<Rightarrow> JSONRPCReplyObj JNull (JSONRPCError code msg) (rpc_id r) (rpc_v2 r)
   | Inr (m, ps) \<Rightarrow> (case ExecuteCommand n m ps of
       RpcError code msg \<Rightarrow> JSONRPCReplyObj JNull (JSONRPCError code msg) (rpc_id r) (rpc_v2 r)
     | Result w \<Rightarrow> JSONRPCReplyObj w JNull (rpc_id r) (rpc_v2 r)))"

fun batch_replies :: "node \<Rightarrow> rpc_request \<Rightarrow> json list \<Rightarrow> json list" where
  "batch_replies n jreq [] = []"
| "batch_replies n jreq (v # vs) = (let r = parse_request jreq v in
     (if IsNotification r then [] else [batch_reply n r]) @ batch_replies n r vs)"

text \<open>The whitelist check of a batch stops at the first element that fails it.\<close>

fun batch_forbidden :: "node \<Rightarrow> string \<Rightarrow> json list \<Rightarrow> response option" where
  "batch_forbidden n user [] = None"
| "batch_forbidden n user (v # vs) = (case v of
     JObj kvs \<Rightarrow> (case json_field ''method'' kvs of
         JStr m \<Rightarrow> if allowed_method n user m then batch_forbidden n user vs else Some (plain_reply n 403)
       | _ \<Rightarrow> Some (JSONErrorReply n RPC_PARSE_ERROR ''JSON value is not of expected type string'' new_request))
   | _ \<Rightarrow> Some (JSONErrorReply n RPC_INVALID_REQUEST ''Invalid Request object'' new_request))"

definition batch_request :: "node \<Rightarrow> string \<Rightarrow> json list \<Rightarrow> response" where
  "batch_request n user vs =
     (case (if whitelist n user = None then None else batch_forbidden n user vs) of
        Some r \<Rightarrow> r
      | None \<Rightarrow> (let replies = batch_replies n new_request vs in
          if replies = [] \<and> vs \<noteq> [] then plain_reply n 204 else json_reply n (JArr replies)))"

text \<open>HTTP header names are matched without regard to case.\<close>

definition ascii_lower :: "string \<Rightarrow> string" where
  "ascii_lower = map (\<lambda>ch. let k = of_char ch in if 65 \<le> k \<and> k \<le> (90 :: nat) then char_of (k + 32) else ch)"

definition GetHeader :: "request \<Rightarrow> string \<Rightarrow> string option" where
  "GetHeader req name = map_option snd (find (\<lambda>(k, v). ascii_lower k = name) (headers req))"

definition HTTPReq_JSONRPC :: "node \<Rightarrow> request \<Rightarrow> response" where
  "HTTPReq_JSONRPC n req =
     (if http_method req \<noteq> ''POST'' then plain_reply n 405
      else case GetHeader req ''authorization'' of
        None \<Rightarrow> plain_reply n 401
      | Some auth \<Rightarrow>
          if \<not> RPCAuthorized n auth then plain_reply n 401
          else if whitelist n (auth_user auth) = None \<and> whitelist_default n then plain_reply n 403
          else (case req_body req of
            JObj kvs \<Rightarrow> singleton_request n (auth_user auth) (JObj kvs)
          | JArr vs \<Rightarrow> batch_request n (auth_user auth) vs
          | _ \<Rightarrow> JSONErrorReply n RPC_PARSE_ERROR ''Top-level object parse error'' new_request))"

text \<open>
  The node as the other end of \<open>fetch\<close>. Blocks may be connected between two requests: the
  outside world holds, besides the node, the batches of blocks that will arrive after each of
  the coming requests.
\<close>

type_synonym network = "node \<times> block_index list list"

definition connect_blocks :: "block_index list \<Rightarrow> node \<Rightarrow> node" where
  "connect_blocks bs n = n\<lparr>active_chain := active_chain n @ bs\<rparr>"

definition node_fetch :: "network fetch" where
  "node_fetch req w = (case w of (n, arrivals) \<Rightarrow>
     (Ok (HTTPReq_JSONRPC n req),
      case arrivals of [] \<Rightarrow> (n, []) | bs # rest \<Rightarrow> (connect_blocks bs n, rest)))"

section \<open>Chains that are well formed\<close>

definition block_ok :: "block_index list \<Rightarrow> nat \<Rightarrow> bool" where
  "block_ok c i = (nHeight (c ! i) = int i \<and> bi_status (c ! i) = HaveData \<and>
     FromHex (bi_hash (c ! i)) = Some (bi_hash (c ! i)))"

definition chain_ok :: "block_index list \<Rightarrow> bool" where
  "chain_ok c = (length c \<le> 2 ^ 31 \<and> distinct (map bi_hash c) \<and> list_all (block_ok c) [0..<length c])"

lemma chain_ok_prefix: "chain_ok (c @ d) \<Longrightarrow> chain_ok c"
proof -
  assume ok: "chain_ok (c @ d)"
  have "block_ok c i" if "i < length c" for i
  proof -
    have "block_ok (c @ d) i" using ok that by (simp add: chain_ok_def list_all_iff)
    with that show ?thesis by (simp add: block_ok_def nth_append)
  qed
  with ok show ?thesis by (simp add: chain_ok_def list_all_iff)
qed

lemma chain_ok_nth:
  assumes "chain_ok c" "i < length c"
  shows "nHeight (c ! i) = int i" "bi_status (c ! i) = HaveData"
    "FromHex (bi_hash (c ! i)) = Some (bi_hash (c ! i))"
  using assms by (auto simp: chain_ok_def list_all_iff block_ok_def)

lemma find_distinct:
  "distinct (map f xs) \<Longrightarrow> i < length xs \<Longrightarrow> find (\<lambda>b. f b = f (xs ! i)) (xs @ ys) = Some (xs ! i)"
proof (induction xs arbitrary: i)
  case (Cons x xs)
  show ?case
  proof (cases i)
    case (Suc j)
    with Cons.prems have "f (xs ! j) \<in> f ` set xs" "f x \<notin> f ` set xs" by simp_all
    then have "f x \<noteq> f (xs ! j)" by metis
    with Suc Cons show ?thesis by simp
  qed simp
qed simp

lemma LookupBlockIndex_active:
  "chain_ok (active_chain n) \<Longrightarrow> i < length (active_chain n) \<Longrightarrow>
     LookupBlockIndex n (bi_hash (active_chain n ! i)) = Some (active_chain n ! i)"
  by (simp add: LookupBlockIndex_def find_distinct chain_ok_def)

lemma getInt_nat: "getInt (Num (of_nat h)) = (if h < 2 ^ 31 then Some (int h) else None)"
proof -
  have "of_int \<lfloor>of_nat h :: rat\<rfloor> = (of_nat h :: rat)" "\<lfloor>of_nat h :: rat\<rfloor> = int h" by simp_all
  moreover have "int h < 2 ^ 31 \<longleftrightarrow> h < 2 ^ 31" by simp
  ultimately show ?thesis by (simp add: getInt_def)
qed

lemma getblockhash_active:
  "chain_ok (active_chain n) \<Longrightarrow> h < length (active_chain n) \<Longrightarrow>
     getblockhash n [JNum (Num (of_nat h))] = Result (JStr (bi_hash (active_chain n ! h)))"
  by (auto simp: getblockhash_def getInt_nat Height_def chain_ok_def)

lemma getblockhash_beyond:
  "length (active_chain n) \<le> h \<Longrightarrow> \<exists>code msg. getblockhash n [JNum (Num (of_nat h))] = RpcError code msg
     \<and> code \<noteq> RPC_INVALID_REQUEST \<and> code \<noteq> RPC_METHOD_NOT_FOUND"
  by (auto simp: getblockhash_def getInt_nat Height_def rpc_codes)

lemma getblock_active:
  "chain_ok (active_chain n) \<Longrightarrow> h < length (active_chain n) \<Longrightarrow>
     getblock n [JStr (bi_hash (active_chain n ! h))] = Result (blockToJSON n (active_chain n ! h) 1)"
  by (simp add: getblock_def ParseHashV_def chain_ok_nth LookupBlockIndex_active ParseVerbosity_def GetRawBlockChecked_def)

end
