(* ===== verification/Node_Api.thy ===== *)
theory Node_Api
  imports Api Node_Rpc
begin

text \<open>
  The node as the provider of the interface the explorer's client relies on: the requests of
  \<open>lib/api.ts\<close> pass the node's authorization, are dispatched to the four handlers, and their
  answers show the active chain, also while blocks are being connected between requests.
\<close>

section \<open>The header is understood\<close>

lemma b64_not_trim: "v < 64 \<Longrightarrow> \<not> is_trim_char (b64_chars ! v)"
proof -
  have "list_all (\<lambda>ch. \<not> is_trim_char ch) b64_chars"
    by (simp add: b64_chars_def is_trim_char_def)
  then show "v < 64 \<Longrightarrow> \<not> is_trim_char (b64_chars ! v)"
    by (simp add: list_all_length length_b64_chars)
qed

lemma base64_not_trim:
  "list_all (\<lambda>b. b < 256) bs \<Longrightarrow> list_all (\<lambda>ch. \<not> is_trim_char ch) (base64 bs)"
proof (induction bs rule: base64.induct)
  case (2 a)
  then show ?case using recombine [of a 0 0] b64_not_trim by (simp add: is_trim_char_def)
next
  case (3 a b)
  then show ?case using recombine [of a b 0] b64_not_trim by (simp add: is_trim_char_def)
next
  case (4 a b c xs)
  then show ?case using recombine [of a b c] b64_not_trim by simp
qed simp

lemma TrimStringView_id: "list_all (\<lambda>ch. \<not> is_trim_char ch) s \<Longrightarrow> TrimStringView s = s"
proof -
  have "dropWhile is_trim_char t = t" if "list_all (\<lambda>ch. \<not> is_trim_char ch) t" for t
    using that by (cases t) simp_all
  then show "list_all (\<lambda>ch. \<not> is_trim_char ch) s \<Longrightarrow> TrimStringView s = s"
    by (simp add: TrimStringView_def)
qed

lemma decoded_header:
  "DecodeBase64 (TrimStringView (drop 6 (auth_header e))) = Some (utf8 (RPC_USER e @ '':'' @ RPC_PASSWORD e))"
  by (simp add: auth_header_def TrimStringView_id base64_not_trim DecodeBase64_base64 utf8_bytes)

lemma RPCAuthorized_header:
  "RPCAuthorized n (auth_header e) = multiUserAuthorized n (utf8 (RPC_USER e @ '':'' @ RPC_PASSWORD e))"
proof -
  have "take 6 (auth_header e) = ''Basic ''" by (simp add: auth_header_def)
  then show ?thesis by (simp add: RPCAuthorized_def decoded_header)
qed

lemma GetHeader_post: "GetHeader (rpc_post e meth ps) ''authorization'' = Some (auth_header e)"
proof -
  have "ascii_lower ''Authorization'' = ''authorization''" "ascii_lower ''content-type'' \<noteq> ''authorization''"
    by code_simp+
  then show ?thesis by (simp add: GetHeader_def rpc_post_def)
qed

lemma parse_post:
  "parse_request new_request (rpc_body meth ps)
     = \<lparr>rpc_id = Some (JStr ''explorer''), rpc_v2 = False,
        rpc_call = Inr (meth, JArr (map (\<lambda>x. if x = JUndef then JNull else stringified x) ps))\<rparr>"
  by (simp add: parse_request_def rpc_body_def json_field_def parse_call_def)


section \<open>What the node answers the explorer\<close>

definition may_call :: "env \<Rightarrow> node \<Rightarrow> bool" where
  "may_call e n = (let u = auth_user (auth_header e) in
     multiUserAuthorized n (utf8 (RPC_USER e @ '':'' @ RPC_PASSWORD e)) \<and>
     \<not> (whitelist n u = None \<and> whitelist_default n) \<and>
     list_all (allowed_method n u) [''getblockcount'', ''getblockhash'', ''getblock'', ''getmininginfo''])"

definition node_serves :: "env \<Rightarrow> network \<Rightarrow> bool" where
  "node_serves e w = (case w of (n, arrivals) \<Rightarrow>
     rpc_enabled e \<and> in_warmup n = None \<and> may_call e n \<and> active_chain n \<noteq> [] \<and>
     chain_ok (active_chain n @ concat arrivals))"

definition node_extends :: "network \<Rightarrow> network \<Rightarrow> bool" where
  "node_extends w w' = (case (w, w') of ((n, arrivals), (n', arrivals')) \<Rightarrow>
     \<exists>bs. n' = connect_blocks bs n \<and> concat arrivals = bs @ concat arrivals')"

definition node_tip :: "network \<Rightarrow> nat" where
  "node_tip w = length (active_chain (fst w)) - 1"

definition node_hash_at :: "network \<Rightarrow> nat \<Rightarrow> string" where
  "node_hash_at w h = bi_hash (active_chain (fst w) ! h)"

definition block_shown :: "block_index \<Rightarrow> block" where
  "block_shown b = \<lparr>height = jint (nHeight b), hash = JStr (bi_hash b),
     timestamp = js_mul (Num (of_int (nTime b))) (Num 1000), size_bytes = jint (block_size b),
     tx_count = JNum (Num (of_nat (length (txids b)))), miner = ''Retardio Miner'', reward = Num 50\<rparr>"

definition node_shown :: "network \<Rightarrow> nat \<Rightarrow> block" where
  "node_shown w h = block_shown (active_chain (fst w) ! h)"

definition node_overview :: "host \<Rightarrow> network \<Rightarrow> stats" where
  "node_overview hs w = (let n = fst w in
     \<lparr>st_height = jint (Height n),
      hashrate = to_fixed 2 (js_div (networkhashps n) (Num 1000000)) @ '' MH/s'',
      st_difficulty = to_fixed 2 (difficulty (last (active_chain n))),
      supply_text = numLocale hs (js_mul (Num (of_int (Height n))) (Num 50)) @ '' RTC'',
      avgBlockTime = ''60s''\<rparr>)"

text \<open>An accepted request is answered with the result of its handler, or with an HTTP error.\<close>

lemma post_reply:
  assumes "may_call e n" "in_warmup n = None"
    "meth \<in> {''getblockcount'', ''getblockhash'', ''getblock'', ''getmininginfo''}"
    "map stringified ps = ps" "JUndef \<notin> set ps"
  shows "rpc_execute n meth ps = Result v \<Longrightarrow> HTTPReq_JSONRPC n (rpc_post e meth ps)
      = json_reply n (JObj [(''result'', v), (''error'', JNull), (''id'', JStr ''explorer'')])"
    and "rpc_execute n meth ps = RpcError code msg \<Longrightarrow> \<not> res_ok (HTTPReq_JSONRPC n (rpc_post e meth ps))"
proof -
  have ps: "map (\<lambda>x. if x = JUndef then JNull else stringified x) ps = ps"
    using assms(4,5) by (metis (mono_tags, lifting) map_cong)
  have ok: "allowed_method n (auth_user (auth_header e)) meth"
    using assms(1,3) by (auto simp: may_call_def Let_def)
  obtain kvs where kvs: "rpc_body meth ps = JObj kvs" by (simp add: rpc_body_def)
  have http: "HTTPReq_JSONRPC n (rpc_post e meth ps)
      = singleton_request n (auth_user (auth_header e)) (rpc_body meth ps)"
    using assms(1) GetHeader_post [of e meth ps]
    by (auto simp: HTTPReq_JSONRPC_def RPCAuthorized_header may_call_def Let_def rpc_post_def kvs)
  show "HTTPReq_JSONRPC n (rpc_post e meth ps)
      = json_reply n (JObj [(''result'', v), (''error'', JNull), (''id'', JStr ''explorer'')])"
    if "rpc_execute n meth ps = Result v"
    using that ok assms(2) unfolding http
    by (simp add: singleton_request_def parse_post ps ExecuteCommand_def IsNotification_def JSONRPCReplyObj_def)
  show "\<not> res_ok (HTTPReq_JSONRPC n (rpc_post e meth ps))"
    if "rpc_execute n meth ps = RpcError code msg"
    using that ok assms(2) unfolding http
    by (simp add: singleton_request_def parse_post ps ExecuteCommand_def JSONErrorReply_def res_ok_def Let_def)
qed

lemma fetch_extends:
  assumes "node_serves e w"
  obtains w' where "node_fetch req w = (Ok (HTTPReq_JSONRPC (fst w) req), w')" "node_extends w w'"
proof -
  obtain n arrivals where w: "w = (n, arrivals)" by force
  have "n = connect_blocks [] n" by (simp add: connect_blocks_def)
  then show thesis
    using that by (cases arrivals) (auto simp: node_fetch_def node_extends_def w)
qed

lemma node_answers:
  assumes "node_serves e w" "rpc_execute (fst w) meth ps = Result v"
    "meth \<in> {''getblockcount'', ''getblockhash'', ''getblock'', ''getmininginfo''}"
    "map stringified ps = ps" "JUndef \<notin> set ps"
  shows "\<exists>w'. answers node_fetch e meth ps w v w' \<and> node_extends w w'"
proof -
  obtain w' where "node_fetch (rpc_post e meth ps) w = (Ok (HTTPReq_JSONRPC (fst w) (rpc_post e meth ps)), w')"
      "node_extends w w'"
    by (rule fetch_extends [OF assms(1)])
  moreover have "HTTPReq_JSONRPC (fst w) (rpc_post e meth ps)
      = json_reply (fst w) (JObj [(''result'', v), (''error'', JNull), (''id'', JStr ''explorer'')])"
    using assms by (intro post_reply(1)) (auto simp: node_serves_def split: prod.splits)
  ultimately show ?thesis by (auto simp: answers_def json_reply_def res_ok_def)
qed

lemma node_refuses:
  assumes "node_serves e w" "rpc_execute (fst w) meth ps = RpcError code msg"
    "meth \<in> {''getblockcount'', ''getblockhash'', ''getblock'', ''getmininginfo''}"
    "map stringified ps = ps" "JUndef \<notin> set ps"
  shows "\<exists>w'. refuses node_fetch e meth ps w w' \<and> node_extends w w'"
proof -
  obtain w' where "node_fetch (rpc_post e meth ps) w = (Ok (HTTPReq_JSONRPC (fst w) (rpc_post e meth ps)), w')"
      "node_extends w w'"
    by (rule fetch_extends [OF assms(1)])
  moreover have "\<not> res_ok (HTTPReq_JSONRPC (fst w) (rpc_post e meth ps))"
    using assms by (intro post_reply(2)) (auto simp: node_serves_def split: prod.splits)
  ultimately show ?thesis by (auto simp: refuses_def)
qed

lemma blockToJSON_fields:
  "get_prop ''height'' (blockToJSON n b 1) = Ok (jint (nHeight b))"
  "get_prop ''hash'' (blockToJSON n b 1) = Ok (JStr (bi_hash b))"
  "get_prop ''time'' (blockToJSON n b 1) = Ok (jint (nTime b))"
  "get_prop ''size'' (blockToJSON n b 1) = Ok (jint (block_size b))"
  "get_prop ''tx'' (blockToJSON n b 1) = Ok (JArr (map JStr (txids b)))"
proof -
  obtain conf pnext where c: "ComputeNextBlockAndDepth n b = (conf, pnext)" by force
  show "get_prop ''height'' (blockToJSON n b 1) = Ok (jint (nHeight b))"
    "get_prop ''hash'' (blockToJSON n b 1) = Ok (JStr (bi_hash b))"
    "get_prop ''time'' (blockToJSON n b 1) = Ok (jint (nTime b))"
    "get_prop ''size'' (blockToJSON n b 1) = Ok (jint (block_size b))"
    "get_prop ''tx'' (blockToJSON n b 1) = Ok (JArr (map JStr (txids b)))"
    by (cases "previousblockhash b"; cases pnext;
        simp add: blockToJSON_def blockheaderToJSON_def c)+
qed

lemma block_of_blockToJSON: "block_of (blockToJSON n b 1) = Ok (block_shown b)"
  by (simp add: block_of_def blockToJSON_fields block_shown_def)

lemma chain_of_serves:
  assumes "node_serves e w"
  shows "chain_ok (active_chain (fst w))" "active_chain (fst w) \<noteq> []"
    "h \<le> node_tip w \<longleftrightarrow> h < length (active_chain (fst w))"
proof -
  show "chain_ok (active_chain (fst w))" "active_chain (fst w) \<noteq> []"
    using assms by (auto simp: node_serves_def split: prod.splits intro: chain_ok_prefix)
  then show "h \<le> node_tip w \<longleftrightarrow> h < length (active_chain (fst w))"
    by (cases "active_chain (fst w)") (auto simp: node_tip_def)
qed


lemma extends_chain:
  assumes "node_extends w w'" "node_serves e w"
  shows "node_serves e w'" "\<exists>bs. active_chain (fst w') = active_chain (fst w) @ bs"
proof -
  obtain n arrivals n' arrivals' where w: "w = (n, arrivals)" "w' = (n', arrivals')" by force
  obtain bs where n': "n' = connect_blocks bs n" "concat arrivals = bs @ concat arrivals'"
    using assms(1) by (auto simp: node_extends_def w)
  show "\<exists>bs. active_chain (fst w') = active_chain (fst w) @ bs"
    by (auto simp: w n'(1) connect_blocks_def)
  have "may_call e n' = may_call e n"
    by (simp add: n'(1) connect_blocks_def may_call_def multiUserAuthorized_def allowed_method_def Let_def)
  then show "node_serves e w'"
    using assms(2) n' by (simp add: node_serves_def w connect_blocks_def)
qed

lemma mininginfo_fields:
  assumes "active_chain n \<noteq> []"
  obtains kvs where "getmininginfo n [] = Result (JObj kvs)"
    "get_prop ''blocks'' (JObj kvs) = Ok (jint (Height n))"
    "get_prop ''networkhashps'' (JObj kvs) = Ok (JNum (networkhashps n))"
    "get_prop ''difficulty'' (JObj kvs) = Ok (JNum (difficulty (last (active_chain n))))"
proof (rule that)
  let ?kvs = "[(''blocks'', jint (Height n)), (''bits'', JStr (nBits (last (active_chain n)))),
    (''difficulty'', JNum (difficulty (last (active_chain n)))), (''target'', JStr (bi_target (last (active_chain n)))),
    (''networkhashps'', JNum (networkhashps n))] @ mining_extra n"
  show "getmininginfo n [] = Result (JObj ?kvs)"
    using assms by (simp add: getmininginfo_def Let_def)
  show "get_prop ''blocks'' (JObj ?kvs) = Ok (jint (Height n))"
    "get_prop ''networkhashps'' (JObj ?kvs) = Ok (JNum (networkhashps n))"
    "get_prop ''difficulty'' (JObj ?kvs) = Ok (JNum (difficulty (last (active_chain n))))"
    by simp_all
qed

lemma stats_of_fields:
  assumes "get_prop ''blocks'' info = Ok (jint (Height n))"
    "get_prop ''networkhashps'' info = Ok (JNum (networkhashps n))"
    "get_prop ''difficulty'' info = Ok (JNum (difficulty (last (active_chain n))))"
  shows "stats_of hs info = Ok (node_overview hs (n, arrivals))"
  by (simp add: stats_of_def assms node_overview_def call_toFixed_def Let_def)

lemma rpc_execute_dispatch:
  "rpc_execute n ''getblockcount'' = getblockcount n"
  "rpc_execute n ''getblockhash'' = getblockhash n"
  "rpc_execute n ''getblock'' = getblock n"
  "rpc_execute n ''getmininginfo'' = getmininginfo n"
  by (rule ext, simp add: rpc_execute_def)+

lemma node_extends_trans: "node_extends w w' \<Longrightarrow> node_extends w' w'' \<Longrightarrow> node_extends w w''"
proof -
  obtain n a n' a' n'' a'' where w: "w = (n, a)" "w' = (n', a')" "w'' = (n'', a'')"
    by (cases w, cases w', cases w'') simp
  have "connect_blocks ds (connect_blocks bs n) = connect_blocks (bs @ ds) n" for bs ds
    by (simp add: connect_blocks_def)
  then show "node_extends w w' \<Longrightarrow> node_extends w' w'' \<Longrightarrow> node_extends w w''"
    unfolding node_extends_def w by force
qed

lemma node_extends_refl: "node_extends w w"
  by (cases w) (auto simp: node_extends_def connect_blocks_def intro: exI [of _ "[]"])

lemma node_tip_small: "node_serves e w \<Longrightarrow> node_tip w < 2 ^ 31"
proof -
  assume s: "node_serves e w"
  have "length (active_chain (fst w)) \<le> 2 ^ 31" using chain_of_serves(1) [OF s] by (simp add: chain_ok_def)
  moreover have "0 < length (active_chain (fst w))" using chain_of_serves(2) [OF s] by simp
  ultimately show ?thesis unfolding node_tip_def by linarith
qed

lemma node_hash_nonempty: "node_serves e w \<Longrightarrow> h \<le> node_tip w \<Longrightarrow> node_hash_at w h \<noteq> []"
  using chain_ok_nth(3) [OF chain_of_serves(1)] chain_of_serves(3)
  by (fastforce simp: node_hash_at_def FromHex_def)

lemma node_count:
  assumes "node_serves e w"
  shows "\<exists>w'. answers node_fetch e ''getblockcount'' [] w (JNum (Num (of_nat (node_tip w)))) w' \<and> node_extends w w'"
proof -
  have "Height (fst w) = int (node_tip w)"
    using chain_of_serves(2) [OF assms] unfolding Height_def node_tip_def
    by (cases "active_chain (fst w)") simp_all
  then show ?thesis
    by (intro node_answers [OF assms]) (simp_all add: rpc_execute_dispatch getblockcount_def)
qed

lemma node_mining:
  assumes "node_serves e w"
  shows "\<exists>info w'. answers node_fetch e ''getmininginfo'' [] w info w' \<and> node_extends w w' \<and>
      truthy info \<and> stats_of hs info = Ok (node_overview hs w)"
proof -
  obtain kvs where i: "getmininginfo (fst w) [] = Result (JObj kvs)"
      "get_prop ''blocks'' (JObj kvs) = Ok (jint (Height (fst w)))"
      "get_prop ''networkhashps'' (JObj kvs) = Ok (JNum (networkhashps (fst w)))"
      "get_prop ''difficulty'' (JObj kvs) = Ok (JNum (difficulty (last (active_chain (fst w)))))"
    by (rule mininginfo_fields [OF chain_of_serves(2) [OF assms]])
  have "\<exists>w'. answers node_fetch e ''getmininginfo'' [] w (JObj kvs) w' \<and> node_extends w w'"
    by (rule node_answers [OF assms]) (simp_all add: rpc_execute_dispatch i(1))
  moreover have "stats_of hs (JObj kvs) = Ok (node_overview hs w)"
    using stats_of_fields [OF i(2-4), of hs "snd w"] by simp
  moreover have "truthy (JObj kvs)" by simp
  ultimately show ?thesis by blast
qed

lemma node_hash_unknown:
  assumes "node_serves e w" "node_tip w < h"
  shows "\<exists>w'. refuses node_fetch e ''getblockhash'' [JNum (Num (of_nat h))] w w' \<and> node_extends w w'"
proof -
  have "length (active_chain (fst w)) \<le> h" using chain_of_serves(3) [OF assms(1), of h] assms(2) by simp
  then obtain code msg where "getblockhash (fst w) [JNum (Num (of_nat h))] = RpcError code msg"
    using getblockhash_beyond by blast
  then show ?thesis
    by (intro node_refuses [OF assms(1)]) (simp_all add: rpc_execute_dispatch)
qed

lemma node_blocks:
  assumes "node_serves e w" "h \<le> node_tip w"
  shows "\<exists>w'. answers node_fetch e ''getblockhash'' [JNum (Num (of_nat h))] w (JStr (node_hash_at w h)) w' \<and> node_extends w w'"
    and "\<exists>b w'. answers node_fetch e ''getblock'' [JStr (node_hash_at w h)] w b w' \<and> node_extends w w' \<and>
      truthy b \<and> block_of b = Ok (node_shown w h)"
proof -
  note c = chain_of_serves(1) [OF assms(1)]
  have h: "h < length (active_chain (fst w))" using assms chain_of_serves(3) by simp
  show "\<exists>w'. answers node_fetch e ''getblockhash'' [JNum (Num (of_nat h))] w (JStr (node_hash_at w h)) w' \<and> node_extends w w'"
    using getblockhash_active [OF c h]
    by (intro node_answers [OF assms(1)]) (simp_all add: rpc_execute_dispatch node_hash_at_def)
  have "\<exists>w'. answers node_fetch e ''getblock'' [JStr (node_hash_at w h)] w
      (blockToJSON (fst w) (active_chain (fst w) ! h) 1) w' \<and> node_extends w w'"
    using getblock_active [OF c h]
    by (intro node_answers [OF assms(1)]) (simp_all add: rpc_execute_dispatch node_hash_at_def)
  moreover have "truthy (blockToJSON (fst w) (active_chain (fst w) ! h) 1)" by (simp add: blockToJSON_def)
  moreover have "block_of (blockToJSON (fst w) (active_chain (fst w) ! h) 1) = Ok (node_shown w h)"
    by (simp add: block_of_blockToJSON node_shown_def)
  ultimately show "\<exists>b w'. answers node_fetch e ''getblock'' [JStr (node_hash_at w h)] w b w' \<and> node_extends w w' \<and>
      truthy b \<and> block_of b = Ok (node_shown w h)" by blast
qed

lemma node_extends_same:
  assumes "node_extends w w'" "node_serves e w"
  shows "node_tip w \<le> node_tip w'"
    and "h \<le> node_tip w \<Longrightarrow> node_hash_at w' h = node_hash_at w h \<and> node_shown w' h = node_shown w h"
proof -
  obtain bs where bs: "active_chain (fst w') = active_chain (fst w) @ bs"
    using extends_chain(2) [OF assms] by blast
  show "node_tip w \<le> node_tip w'" by (simp add: node_tip_def bs)
  show "node_hash_at w' h = node_hash_at w h \<and> node_shown w' h = node_shown w h" if "h \<le> node_tip w"
    using that chain_of_serves(3) [OF assms(2)] by (simp add: node_hash_at_def node_shown_def bs nth_append)
qed

interpretation node_server: chain_server node_fetch e hs "node_serves e" node_extends node_tip
  node_hash_at node_shown "node_overview hs" for e :: env and hs :: host
proof
  show "node_serves e w \<Longrightarrow> rpc_enabled e" for w
    by (auto simp: node_serves_def split: prod.splits)
qed (fact node_tip_small node_hash_nonempty extends_chain(1) node_extends_same node_extends_refl node_extends_trans
    node_count node_hash_unknown node_blocks node_mining)+

section \<open>A concrete network\<close>

definition demo_env :: env where
  "demo_env = \<lparr>process_RPC_USER = Some ''alice'', process_RPC_PASSWORD = None,
     process_RPC_HOST = None, process_RPC_PORT = None\<rparr>"

definition demo_host :: host where
  "demo_host = \<lparr>now = (\<lambda>_. Num 1700000000000), numLocale = num_to_string, dateLocale = num_to_string,
     timeLocale = num_to_string, json_error = (\<lambda>_. [])\<rparr>"

definition demo_block :: "nat \<Rightarrow> block_index" where
  "demo_block i = \<lparr>bi_hash = replicate 63 CHR ''0'' @ [digit_char i], nHeight = int i, nVersion = 1,
     versionHex = [], merkleroot = [], nTime = 1700000000 + 30 * int i, mediantime = 0, nNonce = 0,
     nBits = [], bi_target = [], difficulty = Num 1, chainwork = [], nTx = 1, previousblockhash = None,
     bi_status = HaveData, strippedsize = 250, block_size = 285, weight = 1140,
     txids = [''coinbase''], raw_hex = []\<rparr>"

text \<open>Three blocks now, a fourth arrives after the second request.\<close>

definition demo_node :: node where
  "demo_node = \<lparr>active_chain = map demo_block [0, 1, 2], stale_blocks = [],
     rpcauth = [(''alice'', ''salt'', ''saltpass'')], hmac_hex = (\<lambda>salt pw. salt @ map char_of pw),
     in_warmup = None, networkhashps = Num 2500000, mining_extra = [], tx_details = (\<lambda>_ _. []),
     named_args = (\<lambda>_ _. Inr []), whitelist = (\<lambda>_. None), whitelist_default = False,
     http_reason = (\<lambda>_. ''OK''), other_method = (\<lambda>_ _. None)\<rparr>"

definition demo_network :: network where
  "demo_network = (demo_node, [[], [demo_block 3]])"

lemma demo_chain: "chain_ok (map demo_block [0, 1, 2, 3])"
  unfolding chain_ok_def
proof (intro conjI)
  show "list_all (block_ok (map demo_block [0, 1, 2, 3])) [0..<length (map demo_block [0, 1, 2, 3])]"
    "distinct (map bi_hash (map demo_block [0, 1, 2, 3]))"
    by code_simp+
qed simp

lemma demo_may_call: "may_call demo_env demo_node"
proof -
  have "multiUserAuthorized demo_node (utf8 (RPC_USER demo_env @ '':'' @ RPC_PASSWORD demo_env))"
    by code_simp
  then show ?thesis by (simp add: may_call_def Let_def demo_node_def allowed_method_def)
qed

lemma demo_serves: "node_serves demo_env demo_network"
  using demo_chain demo_may_call
  by (simp add: node_serves_def demo_network_def demo_node_def demo_env_def rpc_enabled_def env_or_def)

lemma demo_tip: "node_tip demo_network = 2"
  by (simp add: node_tip_def demo_network_def demo_node_def)


lemma latest_shown:
  assumes "node_serves e (n, arrivals)" "world m = (n, arrivals)" "1 < length (active_chain n)"
  shows "\<exists>m'. getLatestBlocks hs node_fetch e m =
    (Ok (map block_shown (take 10 (rev (active_chain n)))), m') \<and> node_extends (n, arrivals) (world m')"
proof -
  let ?c = "active_chain n"
  have tip: "node_tip (n, arrivals) = length ?c - 1" by (simp add: node_tip_def)
  have "map (\<lambda>j. node_shown (n, arrivals) (length ?c - 1 - j)) [0..<min 10 (length ?c)]
      = map block_shown (take 10 (rev ?c))"
    by (rule nth_equalityI) (auto simp: node_shown_def rev_nth)
  moreover have "Suc (length ?c - 1) = length ?c" using assms(3) by simp
  ultimately show ?thesis
    using node_server.latest_blocks [of e m hs] assms tip by simp
qed

section \<open>Properties\<close>

text \<open>
  C1: from a node that serves its chain, the explorer's list of latest blocks is the block at
  the tip and the up to nine blocks below it, in descending order without gaps or repeats,
  with the hash, time, size and transaction count of the node's index - also when further
  blocks are connected while the list is being fetched.
\<close>

theorem latest_blocks_of_node:
  assumes "node_serves e (n, arrivals)" "world m = (n, arrivals)" "1 < length (active_chain n)"
  shows "\<exists>m'. getLatestBlocks hs node_fetch e m =
    (Ok (map block_shown (take 10 (rev (active_chain n)))), m')"
  using latest_shown [OF assms] by blast

theorem latest_blocks_of_node_witness:
  "\<exists>m'. getLatestBlocks demo_host node_fetch demo_env \<lparr>console = [], world = demo_network\<rparr> =
     (Ok (map block_shown [demo_block 2, demo_block 1, demo_block 0]), m')"
  using latest_blocks_of_node [of demo_env demo_node "[[], [demo_block 3]]" "\<lparr>console = [], world = demo_network\<rparr>"]
    demo_serves by (simp add: demo_network_def demo_node_def)

text \<open>
  C10: for a height on the chain \<open>getBlock\<close> returns exactly the node's block at that height,
  whatever is connected meanwhile.
\<close>

theorem getBlock_of_node:
  assumes "node_serves e (n, arrivals)" "world m = (n, arrivals)" "h < length (active_chain n)"
  shows "\<exists>m'. getBlock hs node_fetch e (Num (of_nat h)) m = (Ok (block_shown (active_chain n ! h)), m')"
  using node_server.get_block [of e m h hs] assms chain_of_serves(3) [OF assms(1), of h]
  by (simp add: node_shown_def)

theorem getBlock_of_node_witness:
  "\<exists>m'. getBlock demo_host node_fetch demo_env (Num (of_nat 1)) \<lparr>console = [], world = demo_network\<rparr>
     = (Ok (block_shown (demo_block 1)), m')"
  using getBlock_of_node [of demo_env demo_node "[[], [demo_block 3]]" "\<lparr>console = [], world = demo_network\<rparr>" 1]
    demo_serves by (simp add: demo_network_def demo_node_def)

text \<open>
  For a height beyond the tip the client does not report an error: it returns the first
  mock block, so a page for a block that does not exist shows block 10500.
\<close>

theorem getBlock_beyond_tip_is_mock:
  assumes "node_serves e (n, arrivals)" "world m = (n, arrivals)" "length (active_chain n) \<le> h"
  shows "\<exists>m'. getBlock hs node_fetch e (Num (of_nat h)) m = (Ok (mock_block hs 0), m')"
  using node_server.get_block_beyond [of e m h hs] assms chain_of_serves(3) [OF assms(1), of h]
  by (simp add: MOCK_BLOCKS_def)

theorem getBlock_beyond_tip_is_mock_witness:
  "\<exists>m'. getBlock demo_host node_fetch demo_env (Num (of_nat 77)) \<lparr>console = [], world = demo_network\<rparr>
     = (Ok (mock_block demo_host 0), m')"
  using getBlock_beyond_tip_is_mock [of demo_env demo_node "[[], [demo_block 3]]" "\<lparr>console = [], world = demo_network\<rparr>" 77]
    demo_serves by (simp add: demo_network_def demo_node_def)


text \<open>
  A chain that holds only the genesis block is mistaken for a missing answer: its height 0
  is falsy, and the explorer lists the ten mock blocks.
\<close>

theorem genesis_only_lists_mock:
  assumes "node_serves e (n, arrivals)" "world m = (n, arrivals)" "length (active_chain n) = 1"
  shows "\<exists>m'. getLatestBlocks hs node_fetch e m = (Ok (MOCK_BLOCKS hs), m')"
  using node_server.latest_blocks_genesis [of e m hs] assms by (simp add: node_tip_def)

theorem genesis_only_lists_mock_witness:
  "\<exists>m'. getLatestBlocks demo_host node_fetch demo_env
      \<lparr>console = [], world = (demo_node\<lparr>active_chain := [demo_block 0]\<rparr>, [])\<rparr>
    = (Ok (MOCK_BLOCKS demo_host), m')"
proof (rule genesis_only_lists_mock)
  let ?n = "demo_node\<lparr>active_chain := [demo_block 0]\<rparr>"
  have "chain_ok [demo_block 0]" using demo_chain chain_ok_prefix [of "[demo_block 0]"] by simp
  moreover have "may_call demo_env ?n"
    using demo_may_call by (simp add: may_call_def Let_def multiUserAuthorized_def allowed_method_def)
  ultimately show "node_serves demo_env (?n, [])"
    by (simp add: node_serves_def demo_node_def demo_env_def rpc_enabled_def env_or_def)
qed simp_all

text \<open>
  C15: the statistics shown are those of the node: its height, its network hash rate in
  millions with two decimals, the difficulty of the tip with two decimals; the supply is 50
  times the height, whatever the node's subsidy schedule is.
\<close>

theorem getStats_of_node:
  assumes "node_serves e (n, arrivals)" "world m = (n, arrivals)"
  shows "\<exists>m'. getStats hs node_fetch e m = (Ok \<lparr>st_height = jint (Height n),
      hashrate = to_fixed 2 (js_div (networkhashps n) (Num 1000000)) @ '' MH/s'',
      st_difficulty = to_fixed 2 (difficulty (last (active_chain n))),
      supply_text = numLocale hs (js_mul (Num (of_int (Height n))) (Num 50)) @ '' RTC'',
      avgBlockTime = ''60s''\<rparr>, m')"
  using node_server.get_stats [of e m hs] assms by (auto simp: node_overview_def Let_def)

theorem getStats_of_node_witness:
  "\<exists>st m'. getStats demo_host node_fetch demo_env \<lparr>console = [], world = demo_network\<rparr> = (Ok st, m') \<and>
     st_height st = JNum (Num 2)"
  using getStats_of_node [of demo_env demo_node "[[], [demo_block 3]]"
      "\<lparr>console = [], world = demo_network\<rparr>" demo_host] demo_serves
  by (auto simp: demo_network_def demo_node_def Height_def)

text \<open>
  C37: the \<open>Authorization\<close> header of the client is decoded by the node to exactly the user and
  password it was built from: it is accepted if and only if some \<open>rpcauth\<close> entry has that user
  name and the keyed hash of that password. (The user name must not contain the separator.)
\<close>

theorem header_accepted_iff:
  assumes "list_all (\<lambda>ch. of_char ch < (128 :: nat) \<and> ch \<noteq> CHR '':'') (RPC_USER e)"
  shows "RPCAuthorized n (auth_header e) \<longleftrightarrow>
    (\<exists>salt h. (RPC_USER e, salt, h) \<in> set (rpcauth n) \<and> hmac_hex n salt (utf8 (RPC_PASSWORD e)) = h)"
proof -
  have ascii: "string_of_bytes (utf8 u) = u \<and> length (utf8 u) = length u"
    if "list_all (\<lambda>ch. of_char ch < (128 :: nat) \<and> ch \<noteq> CHR '':'') u" for u
    using that by (induction u) (auto simp: utf8_def string_of_bytes_def Let_def)
  have split: "utf8 (u @ '':'' @ p) = utf8 u @ 58 # utf8 p" for u p
    by (simp add: utf8_def)
  have colon: "char_of (58 :: nat) = CHR '':''" by code_simp
  let ?u = "RPC_USER e"
  have s: "string_of_bytes (utf8 (?u @ '':'' @ RPC_PASSWORD e)) = ?u @ CHR '':'' # string_of_bytes (utf8 (RPC_PASSWORD e))"
    using ascii [OF assms] unfolding split by (simp add: string_of_bytes_def colon)
  have tw: "takeWhile (\<lambda>ch. ch \<noteq> CHR '':'') (?u @ CHR '':'' # r) = ?u" for r
    using assms by (simp add: list_all_iff takeWhile_append2)
  have dr: "drop (length ?u + 1) (utf8 (?u @ '':'' @ RPC_PASSWORD e)) = utf8 (RPC_PASSWORD e)"
    using ascii [OF assms] unfolding split by simp
  show ?thesis
    unfolding RPCAuthorized_header multiUserAuthorized_def Let_def s tw dr
    by (force simp: list_ex_iff)
qed

theorem header_accepted_iff_witness: "RPCAuthorized demo_node (auth_header demo_env)"
proof -
  have "RPC_USER demo_env = ''alice''" "RPC_PASSWORD demo_env = ''pass''"
    by (simp_all add: RPC_USER_def RPC_PASSWORD_def demo_env_def env_or_def)
  moreover have "''salt'' @ map char_of (utf8 ''pass'') = ''saltpass''" by code_simp
  ultimately show ?thesis
    using header_accepted_iff [of demo_env demo_node] by (simp add: demo_node_def)
qed

end
