(* ===== verification/Jsx.thy ===== *)
theory Jsx
  imports Js_Value
begin

text \<open>
  React elements as the pages build them, and the class-name helper of
  \<open>packages/explorer-next/src/lib/utils.ts\<close>. An element is a host tag or a component of a
  library (\<open>Link\<close>, the icons, the chart parts) with its properties and children; the
  application's own components are functions that return elements. \<open>text_content\<close> and \<open>hrefs\<close>
  are what a reader of a page sees and can follow.
\<close>

section \<open>Elements\<close>

datatype jsx = Text string | Val json | Frag "jsx list" | Elem string "(string \<times> json) list" "jsx list"

text \<open>
  A value used as a child: numbers and strings are shown, booleans and missing values are
  not, arrays show their elements, and an object is an error.
\<close>

fun render_value :: "json \<Rightarrow> string outcome" where
  "render_value (JNum n) = Ok (num_to_string n)"
| "render_value (JStr s) = Ok s"
| "render_value (JArr vs) = bind_outcome (seq_outcomes (map render_value vs)) (\<lambda>ss. Ok (concat ss))"
| "render_value (JObj kvs) = Throw (ErrorObj ''Objects are not valid as a React child'')"
| "render_value v = Ok []"

fun text_content :: "jsx \<Rightarrow> string outcome" where
  "text_content (Text s) = Ok s"
| "text_content (Val v) = render_value v"
| "text_content (Frag xs) = bind_outcome (seq_outcomes (map text_content xs)) (\<lambda>ss. Ok (concat ss))"
| "text_content (Elem tag attrs xs) = bind_outcome (seq_outcomes (map text_content xs)) (\<lambda>ss. Ok (concat ss))"

text \<open>The elements with a given tag, outermost first.\<close>

fun elements :: "string \<Rightarrow> jsx \<Rightarrow> jsx list" where
  "elements tag (Text s) = []"
| "elements tag (Val v) = []"
| "elements tag (Frag xs) = concat (map (elements tag) xs)"
| "elements tag (Elem t attrs xs) =
     (if t = tag then [Elem t attrs xs] else []) @ concat (map (elements tag) xs)"

fun attr :: "string \<Rightarrow> jsx \<Rightarrow> json" where
  "attr k (Elem t attrs xs) = (case map_of attrs k of Some v \<Rightarrow> v | None \<Rightarrow> JUndef)"
| "attr k _ = JUndef"

definition hrefs :: "jsx \<Rightarrow> json list" where
  "hrefs x = map (attr ''href'') (elements ''Link'' x)"

section \<open>Class names\<close>

text \<open>\<open>clsx\<close> and \<open>twMerge\<close> are library functions.\<close>

record css =
  clsx :: "json list \<Rightarrow> string"
  twMerge :: "string \<Rightarrow> string"

definition cn :: "css \<Rightarrow> json list \<Rightarrow> string" where
  "cn c inputs = twMerge c (clsx c inputs)"

section \<open>Rules for pages\<close>

lemma hrefs_simps [render_simps]:
  "hrefs (Text s) = []"
  "hrefs (Val v) = []"
  "hrefs (Frag xs) = concat (map hrefs xs)"
  "hrefs (Elem t attrs xs) = (if t = ''Link'' then [attr ''href'' (Elem t attrs xs)] else []) @ concat (map hrefs xs)"
proof -
  have h: "hrefs = (\<lambda>x. map (attr ''href'') (elements ''Link'' x))" by (rule ext) (simp add: hrefs_def)
  show "hrefs (Text s) = []" "hrefs (Val v) = []" "hrefs (Frag xs) = concat (map hrefs xs)"
    "hrefs (Elem t attrs xs) = (if t = ''Link'' then [attr ''href'' (Elem t attrs xs)] else []) @ concat (map hrefs xs)"
    unfolding h by (simp_all add: map_concat comp_def)
qed

text \<open>Optional results of a list of computations that all succeed.\<close>

lemma seq_outcomes_choice:
  assumes "\<And>x. x \<in> set xs \<Longrightarrow> \<exists>y. g x = Ok y \<and> P x y"
  shows "\<exists>ys. seq_outcomes (map g xs) = Ok ys \<and> list_all2 P xs ys"
  using assms
proof (induction xs)
  case (Cons x xs)
  then obtain ys where "seq_outcomes (map g xs) = Ok ys" "list_all2 P xs ys" by auto
  moreover obtain y where "g x = Ok y" "P x y" using Cons.prems by auto
  ultimately show ?case by auto
qed simp

lemma concat_list_all2: "list_all2 (\<lambda>x y. f y = h x) xs ys \<Longrightarrow> concat (map f ys) = concat (map h xs)"
  by (induction rule: list_all2_induct) simp_all

lemma seq_outcomes_Ok: "seq_outcomes (map (\<lambda>x. Ok (f x)) xs) = Ok (map f xs)"
  by (induction xs) simp_all

lemma seq_outcomes_map_Ok:
  "(\<And>x. x \<in> set xs \<Longrightarrow> g x = Ok (f x)) \<Longrightarrow> seq_outcomes (map g xs) = Ok (map f xs)"
  by (induction xs) simp_all

lemma seq_outcomes_append:
  "seq_outcomes (xs @ ys) = bind_outcome (seq_outcomes xs) (\<lambda>us. bind_outcome (seq_outcomes ys) (\<lambda>vs. Ok (us @ vs)))"
proof (induction xs)
  case Nil
  then show ?case by (cases "seq_outcomes ys") simp_all
next
  case (Cons m ms)
  then show ?case by (cases m; cases "seq_outcomes ms"; cases "seq_outcomes ys") simp_all
qed

end
