(* ===== verification/Js_Date.thy ===== *)
theory Js_Date
  imports Js_String
begin

text \<open>
  \<open>Date\<close> values of JavaScript as the pages use them: \<open>new Date(t)\<close>, and its text in UTC. The
  calendar is the proleptic Gregorian one of the language's specification.
\<close>

section \<open>Calendar\<close>

definition DayFromYear :: "int \<Rightarrow> int" where
  "DayFromYear y = 365 * (y - 1970) + (y - 1969) div 4 - (y - 1901) div 100 + (y - 1601) div 400"

definition leap :: "int \<Rightarrow> bool" where
  "leap y = (y mod 4 = 0 \<and> (y mod 100 \<noteq> 0 \<or> y mod 400 = 0))"

text \<open>The mean year has 146097 / 400 days, so the estimate is at most one year off.\<close>

definition YearFromDay :: "int \<Rightarrow> int" where
  "YearFromDay d = (let y = 1970 + d * 400 div 146097 in
     if d < DayFromYear y then y - 1 else if DayFromYear (y + 1) \<le> d then y + 1 else y)"

definition month_lengths :: "int \<Rightarrow> int list" where
  "month_lengths y = [31, if leap y then 29 else 28, 31, 30, 31, 30, 31, 31, 30, 31, 30, 31]"

text \<open>Month index and day of the month from the day within the year.\<close>

fun split_month :: "int list \<Rightarrow> int \<Rightarrow> nat \<times> int" where
  "split_month [] n = (0, n)"
| "split_month (l # ls) n = (if n < l then (0, n) else (let (m, r) = split_month ls (n - l) in (Suc m, r)))"

section \<open>Time values\<close>

text \<open>\<open>new Date(t)\<close>: the integer part of a finite number within 8.64e15 milliseconds, or invalid.\<close>

definition date_value :: "number \<Rightarrow> int option" where
  "date_value t = (case val t of
     None \<Rightarrow> None
   | Some r \<Rightarrow> if \<bar>r\<bar> \<le> 8640000000000000 then Some (if 0 \<le> r then \<lfloor>r\<rfloor> else \<lceil>r\<rceil>) else None)"

record utc =
  weekday :: int
  year :: int
  month :: nat
  day :: int
  hour :: int
  minute :: int
  second :: int

definition utc_fields :: "int \<Rightarrow> utc" where
  "utc_fields t = (let s = t div 1000; d = s div 86400; r = s mod 86400; y = YearFromDay d;
      (m, k) = split_month (month_lengths y) (d - DayFromYear y)
     in \<lparr>weekday = (d + 4) mod 7, year = y, month = m, day = k + 1,
         hour = r div 3600, minute = r div 60 mod 60, second = r mod 60\<rparr>)"

definition day_names :: "string list" where
  "day_names = [''Sun'', ''Mon'', ''Tue'', ''Wed'', ''Thu'', ''Fri'', ''Sat'']"

definition month_names :: "string list" where
  "month_names = [''Jan'', ''Feb'', ''Mar'', ''Apr'', ''May'', ''Jun'', ''Jul'', ''Aug'', ''Sep'',
     ''Oct'', ''Nov'', ''Dec'']"

definition pad :: "nat \<Rightarrow> int \<Rightarrow> string" where
  "pad w n = (let s = nat_to_string (nat n) in replicate (w - length s) CHR ''0'' @ s)"

definition utc_text :: "utc \<Rightarrow> string" where
  "utc_text u = day_names ! nat (weekday u) @ '', '' @ pad 2 (day u) @ '' '' @ month_names ! month u @ '' ''
     @ (if year u < 0 then ''-'' else []) @ pad 4 \<bar>year u\<bar> @ '' ''
     @ pad 2 (hour u) @ '':'' @ pad 2 (minute u) @ '':'' @ pad 2 (second u) @ '' GMT''"

definition toUTCString :: "number \<Rightarrow> string" where
  "toUTCString t = (case date_value t of None \<Rightarrow> ''Invalid Date'' | Some ms \<Rightarrow> utc_text (utc_fields ms))"

text \<open>\<open>toLocaleString\<close> and \<open>toLocaleTimeString\<close>, whose text is up to the host.\<close>

definition locale_text :: "(number \<Rightarrow> string) \<Rightarrow> number \<Rightarrow> string" where
  "locale_text loc t = (case date_value t of None \<Rightarrow> ''Invalid Date'' | Some ms \<Rightarrow> loc (Num (of_int ms)))"

section \<open>The calendar is right\<close>

lemma div_bounds:
  fixes x m :: int
  assumes "0 < m"
  shows "m * (x div m) \<le> x" "x < m * (x div m) + m"
  using mult_div_mod_eq [of m x] pos_mod_bound [OF assms, of x] pos_mod_sign [OF assms, of x] by linarith+

lemma DayFromYear_bounds:
  "146097 * (y - 1970) - 1200 \<le> 400 * DayFromYear y" "400 * DayFromYear y \<le> 146097 * (y - 1970) + 1200"
proof -
  obtain a b c where abc: "(y - 1969) div 4 = a" "(y - 1901) div 100 = b" "(y - 1601) div 400 = c" by blast
  have "4 * a \<le> y - 1969" "y - 1969 < 4 * a + 4" "100 * b \<le> y - 1901" "y - 1901 < 100 * b + 100"
    "400 * c \<le> y - 1601" "y - 1601 < 400 * c + 400"
    unfolding abc [symmetric] by (intro div_bounds; simp)+
  then have "97 * y - 192290 \<le> 400 * a - 400 * b + 400 * c" "400 * a - 400 * b + 400 * c \<le> 97 * y - 189890"
    by linarith+
  moreover have "400 * DayFromYear y = 146000 * y - 287620000 + (400 * a - 400 * b + 400 * c)"
    by (simp add: DayFromYear_def abc algebra_simps)
  ultimately show "146097 * (y - 1970) - 1200 \<le> 400 * DayFromYear y" "400 * DayFromYear y \<le> 146097 * (y - 1970) + 1200"
    by (simp_all add: algebra_simps)
qed

lemma YearFromDay_correct:
  "DayFromYear (YearFromDay d) \<le> d" "d < DayFromYear (YearFromDay d + 1)"
proof -
  define q where "q = d * 400 div 146097"
  define y where "y = 1970 + q"
  have q: "146097 * q \<le> d * 400" "d * 400 < 146097 * q + 146097"
    unfolding q_def by (intro div_bounds; simp)+
  have lo: "DayFromYear (y - 1) \<le> d"
    using DayFromYear_bounds(2) [of "y - 1"] q(1) by (simp add: y_def)
  have hi: "d < DayFromYear (y + 2)"
    using DayFromYear_bounds(1) [of "y + 2"] q(2) by (simp add: y_def)
  have "YearFromDay d = (if d < DayFromYear y then y - 1 else if DayFromYear (y + 1) \<le> d then y + 1 else y)"
    by (simp add: YearFromDay_def Let_def y_def q_def)
  then show "DayFromYear (YearFromDay d) \<le> d" "d < DayFromYear (YearFromDay d + 1)"
    using lo hi by (auto simp: add.commute)
qed

lemma div_succ:
  fixes x m :: int
  assumes "0 < m"
  shows "(x + 1) div m = x div m + (if (x + 1) mod m = 0 then 1 else 0)"
proof -
  let ?q = "x div m" and ?r = "x mod m"
  have r: "0 \<le> ?r" "?r < m" "x = m * ?q + ?r" using assms by simp_all
  show ?thesis
  proof (cases "?r = m - 1")
    case True
    then have "x + 1 = m * ?q + m" using r(3) by linarith
    then have "x + 1 = m * (?q + 1) + 0" by (simp add: distrib_left)
    then show ?thesis
      using int_div_pos_eq [of "x + 1" m "?q + 1" 0] int_mod_pos_eq [of "x + 1" m "?q + 1" 0] assms by simp
  next
    case False
    then have "x + 1 = m * ?q + (?r + 1)" "0 \<le> ?r + 1" "?r + 1 < m" using r by linarith+
    then have "(x + 1) div m = ?q" "(x + 1) mod m = ?r + 1" using int_div_pos_eq int_mod_pos_eq by blast+
    then show ?thesis using r(1) by simp
  qed
qed

lemma century_steps:
  fixes y :: int
  shows "(y - 1968) div 4 = (y - 1969) div 4 + (if y mod 4 = 0 then 1 else 0)"
    and "(y - 1900) div 100 = (y - 1901) div 100 + (if y mod 100 = 0 then 1 else 0)"
    and "(y - 1600) div 400 = (y - 1601) div 400 + (if y mod 400 = 0 then 1 else 0)"
proof -
  have up: "y - 1969 + 1 = y - 1968" "y - 1901 + 1 = y - 1900" "y - 1601 + 1 = y - 1600" by simp_all
  have "(y - 1968) mod 4 = y mod 4" using mod_mult_self2 [of y 4 "- 492"] by simp
  then show "(y - 1968) div 4 = (y - 1969) div 4 + (if y mod 4 = 0 then 1 else 0)"
    using div_succ [of 4 "y - 1969", OF zero_less_numeral, unfolded up] by (simp only:)
  have "(y - 1900) mod 100 = y mod 100" using mod_mult_self2 [of y 100 "- 19"] by simp
  then show "(y - 1900) div 100 = (y - 1901) div 100 + (if y mod 100 = 0 then 1 else 0)"
    using div_succ [of 100 "y - 1901", OF zero_less_numeral, unfolded up] by (simp only:)
  have "(y - 1600) mod 400 = y mod 400" using mod_mult_self2 [of y 400 "- 4"] by simp
  then show "(y - 1600) div 400 = (y - 1601) div 400 + (if y mod 400 = 0 then 1 else 0)"
    using div_succ [of 400 "y - 1601", OF zero_less_numeral, unfolded up] by (simp only:)
qed

lemma leap_alt: "(if y mod 4 = 0 then 1 else 0) - (if y mod 100 = 0 then 1 else 0)
    + (if y mod 400 = 0 then 1 else 0) = (if leap y then 1 else 0 :: int)"
proof -
  have "y mod 400 = 0 \<Longrightarrow> y mod 100 = 0" using mod_mod_cancel [of 100 400 y] by simp
  moreover have "y mod 100 = 0 \<Longrightarrow> y mod 4 = 0" using mod_mod_cancel [of 4 100 y] by simp
  ultimately show ?thesis
    unfolding leap_def
    by (cases "y mod 400 = 0"; cases "y mod 100 = 0"; cases "y mod 4 = 0") (simp_all only: simp_thms if_True if_False, simp_all)
qed

lemma year_length: "DayFromYear (y + 1) - DayFromYear y = (if leap y then 366 else 365)"
proof -
  obtain a b c where abc: "(y - 1969) div 4 = a" "(y - 1901) div 100 = b" "(y - 1601) div 400 = c" by blast
  have shift: "y + 1 - 1969 = y - 1968" "y + 1 - 1901 = y - 1900" "y + 1 - 1601 = y - 1600" by simp_all
  obtain i j k :: int where ijk: "(if y mod 4 = 0 then 1 else 0) = i" "(if y mod 100 = 0 then 1 else 0) = j"
    "(if y mod 400 = 0 then 1 else 0) = k" by blast
  have "DayFromYear (y + 1) - DayFromYear y = 365 + (i - j + k)"
    unfolding DayFromYear_def shift century_steps abc ijk by simp
  also have "i - j + k = (if leap y then 1 else 0)" using leap_alt [of y] unfolding ijk .
  finally show ?thesis by simp
qed

lemma split_month_sum:
  assumes "split_month ls n = (m, r)" "0 \<le> n" "n < sum_list ls"
  shows "m < length ls" "0 \<le> r" "r < ls ! m" "n = sum_list (take m ls) + r"
proof -
  have "m < length ls \<and> 0 \<le> r \<and> r < ls ! m \<and> n = sum_list (take m ls) + r"
    using assms
  proof (induction ls arbitrary: n m)
    case (Cons l ls)
    show ?case
    proof (cases "n < l")
      case False
      with Cons.prems obtain m' where "split_month ls (n - l) = (m', r)" "m = Suc m'"
        by (auto split: prod.splits)
      with Cons.IH [of "n - l" m'] Cons.prems False show ?thesis by simp
    qed (use Cons.prems in auto)
  qed simp
  then show "m < length ls" "0 \<le> r" "r < ls ! m" "n = sum_list (take m ls) + r" by auto
qed

lemma sum_month_lengths: "sum_list (month_lengths y) = (if leap y then 366 else 365)"
  by (simp add: month_lengths_def)

text \<open>
  The fields are those of a valid date and time, and the time they denote is the time value
  in whole seconds.
\<close>

definition seconds_of :: "utc \<Rightarrow> int" where
  "seconds_of u = (DayFromYear (year u) + sum_list (take (month u) (month_lengths (year u))) + day u - 1) * 86400
     + hour u * 3600 + minute u * 60 + second u"

lemma utc_fields_valid:
  fixes t :: int
  defines "u \<equiv> utc_fields t"
  shows "month u < 12 \<and> 1 \<le> day u \<and> day u \<le> month_lengths (year u) ! month u \<and>
    0 \<le> hour u \<and> hour u < 24 \<and> 0 \<le> minute u \<and> minute u < 60 \<and> 0 \<le> second u \<and> second u < 60 \<and>
    0 \<le> weekday u \<and> weekday u < 7"
    and "seconds_of u = t div 1000"
proof -
  define s d r where "s = t div 1000" and "d = s div 86400" and "r = s mod 86400"
  define y where "y = YearFromDay d"
  obtain m k where mk: "split_month (month_lengths y) (d - DayFromYear y) = (m, k)" by force
  have u: "u = \<lparr>weekday = (d + 4) mod 7, year = y, month = m, day = k + 1,
      hour = r div 3600, minute = r div 60 mod 60, second = r mod 60\<rparr>"
    unfolding u_def utc_fields_def Let_def s_def [symmetric] d_def [symmetric] r_def [symmetric]
      y_def [symmetric] by (simp add: mk)
  have inyear: "0 \<le> d - DayFromYear y" "d - DayFromYear y < sum_list (month_lengths y)"
    using YearFromDay_correct [of d] year_length [of y] unfolding y_def [symmetric] sum_month_lengths by auto
  note sm = split_month_sum [OF mk inyear]
  have r: "0 \<le> r" "r < 86400" by (simp_all add: r_def)
  have h: "r div 3600 < 24" "0 \<le> r div 3600" using r div_bounds [of 3600 r] by linarith+
  show "month u < 12 \<and> 1 \<le> day u \<and> day u \<le> month_lengths (year u) ! month u \<and>
    0 \<le> hour u \<and> hour u < 24 \<and> 0 \<le> minute u \<and> minute u < 60 \<and> 0 \<le> second u \<and> second u < 60 \<and>
    0 \<le> weekday u \<and> weekday u < 7"
    using sm h by (simp add: u month_lengths_def)
  have "r div 60 div 60 = r div 3600" using zdiv_zmult2_eq [of 60 r 60] by simp
  then have "r = r div 3600 * 3600 + r div 60 mod 60 * 60 + r mod 60"
    using mult_div_mod_eq [of 60 r] mult_div_mod_eq [of 60 "r div 60"] by linarith
  moreover have "s = d * 86400 + r" using mult_div_mod_eq [of 86400 s] by (simp add: d_def r_def)
  ultimately show "seconds_of u = t div 1000"
    using sm(4) by (simp add: u seconds_of_def s_def [symmetric])
qed

section \<open>The text determines the time\<close>

lemma length_digits: "n < 10 ^ w \<Longrightarrow> 0 < w \<Longrightarrow> length (digits 10 n) \<le> w"
proof (induction w arbitrary: n)
  case (Suc w)
  show ?case
  proof (cases "n < 10")
    case False
    with Suc.prems have "n div 10 < 10 ^ w" "0 < w" by (auto simp: less_mult_imp_div_less intro: gr0I)
    with Suc.IH [of "n div 10"] False show ?thesis by (subst digits.simps) simp
  qed (simp add: digits.simps)
qed simp

lemma length_pad: "0 < w \<Longrightarrow> n < 10 ^ w \<Longrightarrow> length (pad w n) = w"
proof -
  assume "0 < w" "n < 10 ^ w"
  then have "nat n < 10 ^ w" by (cases "0 \<le> n") (simp_all add: nat_less_iff)
  with \<open>0 < w\<close> show ?thesis using length_digits [of "nat n" w] by (simp add: pad_def Let_def nat_to_string_def)
qed

lemma dec_val_pad: "0 \<le> n \<Longrightarrow> dec_val (pad w n) = nat n"
proof -
  have "dec_val (replicate k CHR ''0'' @ s) = dec_val s" for k s
    by (induction k) (simp_all add: dec_val_def undigits_Cons)
  then show "0 \<le> n \<Longrightarrow> dec_val (pad w n) = nat n" by (simp add: pad_def Let_def)
qed

lemma pad_inj: "0 \<le> a \<Longrightarrow> 0 \<le> b \<Longrightarrow> pad w a = pad w b \<Longrightarrow> a = b"
  by (metis dec_val_pad eq_nat_nat_iff)

lemma month_lengths_small: "i < 12 \<Longrightarrow> month_lengths y ! i \<le> 31"
proof -
  have "list_all (\<lambda>l. l \<le> 31) (month_lengths y)" by (simp add: month_lengths_def)
  then show "i < 12 \<Longrightarrow> month_lengths y ! i \<le> 31" by (simp add: list_all_length month_lengths_def)
qed

lemma utc_text_inj:
  assumes "utc_text u = utc_text v"
    and "u = utc_fields s" "v = utc_fields t" "0 \<le> year u" "year u < 10000" "0 \<le> year v" "year v < 10000"
  shows "seconds_of u = seconds_of v"
proof -
  have two: "length (pad 2 n) = 2" if "n < 100" for n using length_pad [of 2 n] that by simp
  have four: "length (pad 4 n) = 4" if "n < 10000" for n using length_pad [of 4 n] that by simp
  have names: "length (day_names ! i) = 3" if "i < 7" for i
    using that by (simp add: day_names_def less_Suc_eq numeral_eq_Suc) auto
  have months: "length (month_names ! i) = 3" if "i < 12" for i
    using that by (simp add: month_names_def less_Suc_eq numeral_eq_Suc) auto
  have month_inj: "month_names ! i = month_names ! j \<longleftrightarrow> i = j" if "i < 12" "j < 12" for i j
    using that by (intro nth_eq_iff_index_eq) (simp_all add: month_names_def)
  have vu: "month u < 12 \<and> 1 \<le> day u \<and> day u < 100 \<and> 0 \<le> hour u \<and> hour u < 100 \<and> 0 \<le> minute u \<and>
      minute u < 100 \<and> 0 \<le> second u \<and> second u < 100 \<and> nat (weekday u) < 7" if "u = utc_fields r" for u r
    using utc_fields_valid(1) [of r] month_lengths_small [of "month u" "year u"] that by (auto simp: nat_less_iff)
  note u = vu [OF assms(2)] and v = vu [OF assms(3)]
  have "pad 2 (day u) = pad 2 (day v) \<and> month_names ! month u = month_names ! month v \<and>
      pad 4 (year u) = pad 4 (year v) \<and> pad 2 (hour u) = pad 2 (hour v) \<and>
      pad 2 (minute u) = pad 2 (minute v) \<and> pad 2 (second u) = pad 2 (second v)"
    using assms(1,4-7) u v by (simp add: utc_text_def two four names months)
  then have "day u = day v" "month u = month v" "year u = year v" "hour u = hour v" "minute u = minute v"
    "second u = second v"
    using pad_inj u v assms(4-7) month_inj by auto
  then show ?thesis by (simp add: seconds_of_def)
qed


lemma DayFromYear_mono: "a \<le> b \<Longrightarrow> DayFromYear a \<le> DayFromYear b"
proof (induction b rule: int_ge_induct)
  case (step b)
  then show ?case using year_length [of b] by (simp split: if_splits)
qed simp

lemma year_range:
  assumes "0 \<le> t" "t div 1000 div 86400 < 2932897"
  shows "1970 \<le> year (utc_fields t)" "year (utc_fields t) < 10000"
proof -
  define d where "d = t div 1000 div 86400"
  have y: "year (utc_fields t) = YearFromDay d"
    by (simp add: utc_fields_def Let_def d_def split: prod.split)
  have d: "0 \<le> d" "d < 2932897" using assms by (simp_all add: d_def)
  have ends: "DayFromYear 1970 = 0" "DayFromYear 10000 = 2932897" by (simp_all add: DayFromYear_def)
  show "1970 \<le> year (utc_fields t)"
    using YearFromDay_correct(2) [of d] DayFromYear_mono [of "YearFromDay d + 1" 1970] d ends unfolding y by linarith
  show "year (utc_fields t) < 10000"
    using YearFromDay_correct(1) [of d] DayFromYear_mono [of 10000 "YearFromDay d"] d ends unfolding y by linarith
qed

text \<open>Up to the year 9999, two times in whole seconds have the same text only if they are equal.\<close>

lemma toUTCString_inj:
  assumes "0 \<le> s" "s < 253402300800" "0 \<le> t" "t < 253402300800"
  shows "toUTCString (Num (of_int (s * 1000))) = toUTCString (Num (of_int (t * 1000))) \<longleftrightarrow> s = t"
proof -
  have dv: "date_value (Num (of_int (r * 1000))) = Some (r * 1000)" if "0 \<le> r" "r < 253402300800" for r
  proof -
    have "(of_int (r * 1000) :: rat) \<le> of_int 8640000000000000" using that by (simp only: of_int_le_iff)
    moreover have "\<lfloor>of_int (r * 1000) :: rat\<rfloor> = r * 1000" by (rule floor_of_int)
    ultimately show ?thesis using that by (simp add: date_value_def)
  qed
  have small: "r * 1000 div 1000 div 86400 < 2932897" if "r < 253402300800" for r :: int
    using that div_bounds [of 86400 r] by simp
  have "s = t" if "utc_text (utc_fields (s * 1000)) = utc_text (utc_fields (t * 1000))"
    using utc_text_inj [OF that refl refl] year_range [of "s * 1000"] year_range [of "t * 1000"]
      small [OF assms(2)] small [OF assms(4)] assms utc_fields_valid(2) [of "s * 1000"] utc_fields_valid(2) [of "t * 1000"]
    by simp
  then show ?thesis using dv assms by (auto simp: toUTCString_def)
qed

end
