(* ===== verification/Components.thy ===== *)
theory Components
  imports Jsx Js_Date Api
begin

text \<open>
  The components under \<open>packages/explorer-next/src/components\<close>: the card family, the
  navigation bar, the statistics card, the block tape and the activity chart, and the colours
  of \<open>tailwind.config.ts\<close> that their class names refer to.
\<close>

section \<open>Cards\<close>

definition Card :: "css \<Rightarrow> json \<Rightarrow> (string \<times> json) list \<Rightarrow> jsx list \<Rightarrow> jsx" where
  "Card css className props children = Elem ''div''
     ((''className'', JStr (cn css [JStr ''rounded-xl border border-border bg-card text-card-foreground shadow-sm'',
        className])) # props) children"

definition CardHeader :: "css \<Rightarrow> json \<Rightarrow> (string \<times> json) list \<Rightarrow> jsx list \<Rightarrow> jsx" where
  "CardHeader css className props children = Elem ''div''
     ((''className'', JStr (cn css [JStr ''flex flex-col space-y-1.5 p-6'', className])) # props) children"

definition CardTitle :: "css \<Rightarrow> json \<Rightarrow> (string \<times> json) list \<Rightarrow> jsx list \<Rightarrow> jsx" where
  "CardTitle css className props children = Elem ''h3''
     ((''className'', JStr (cn css [JStr ''font-semibold leading-none tracking-tight'', className])) # props) children"

definition CardContent :: "css \<Rightarrow> json \<Rightarrow> (string \<times> json) list \<Rightarrow> jsx list \<Rightarrow> jsx" where
  "CardContent css className props children = Elem ''div''
     ((''className'', JStr (cn css [JStr ''p-6 pt-0'', className])) # props) children"

lemmas card_defs = Card_def CardHeader_def CardTitle_def CardContent_def

section \<open>Navigation\<close>

definition Navbar :: jsx where
  "Navbar =
  Elem ''nav'' [(''className'', JStr ''sticky top-0 z-50 w-full border-b border-border bg-background/80 backdrop-blur-xl'')] [
    Elem ''div'' [(''className'', JStr ''container flex h-16 items-center justify-between px-4'')] [
      Elem ''Link'' [(''href'', JStr ''/''),
        (''className'', JStr ''flex items-center gap-2 font-bold text-xl tracking-tighter'')] [
        Elem ''span'' [(''className'', JStr ''text-primary'')] [Text ''RETARDIO''],
        Elem ''span'' [(''className'', JStr ''text-muted-foreground'')] [Text ''SCAN'']],
      Elem ''div'' [(''className'', JStr ''hidden md:flex flex-1 mx-12 max-w-md'')] [
        Elem ''div'' [(''className'', JStr ''relative w-full'')] [
          Elem ''Search'' [(''className'', JStr ''absolute left-3 top-1/2 -translate-y-1/2 h-4 w-4 text-muted-foreground'')] [],
          Elem ''input'' [(''type'', JStr ''text''),
            (''placeholder'', JStr ''Search by Block / Tx / Address...''),
            (''className'', JStr ''w-full h-10 rounded-full border border-border bg-card-hover pl-10 pr-4 text-sm outline-none focus:border-primary transition-colors hover:border-primary/50'')] []]],
      Elem ''div'' [(''className'', JStr ''flex items-center gap-6 text-sm font-medium'')] [
        Elem ''Link'' [(''href'', JStr ''/miners''),
          (''className'', JStr ''hover:text-primary transition-colors'')] [Text ''Miners''],
        Elem ''Link'' [(''href'', JStr ''/mempool''),
          (''className'', JStr ''hover:text-primary transition-colors'')] [Text ''Mempool''],
        Elem ''Link'' [(''href'', JStr ''https://retardiochain.com''), (''target'', JStr ''_blank''),
          (''className'', JStr ''text-muted-foreground hover:text-white transition-colors'')] [Text ''Main Site''],
        Elem ''button'' [(''className'', JStr ''md:hidden text-muted-foreground'')] [
          Elem ''Search'' [(''className'', JStr ''h-5 w-5'')] []]]]]"

lemma Navbar_hrefs [render_simps]:
  "hrefs Navbar = map JStr [''/'', ''/miners'', ''/mempool'', ''https://retardiochain.com'']"
  by (simp add: Navbar_def render_simps)

lemma Navbar_text [render_simps]: "text_content Navbar = Ok ''RETARDIOSCANMinersMempoolMain Site''"
  by (simp add: Navbar_def)

section \<open>Dashboard\<close>

datatype trend = Up | Down | Neutral

text \<open>An absent or empty \<open>subValue\<close> is falsy and shows nothing.\<close>

definition stat_sub :: "string option \<Rightarrow> trend option \<Rightarrow> jsx" where
  "stat_sub subValue trend = (case subValue of
     None \<Rightarrow> Val JUndef
   | Some s \<Rightarrow> if s = [] then Val (JStr [])
     else
  Elem ''div'' [(''className'', JStr ''flex items-center text-xs text-muted-foreground mt-1'')] [
    (if trend = Some Up then Elem ''ArrowUpRight'' [(''className'', JStr ''mr-1 h-3 w-3 text-secondary'')] [] else Val (JBool False)),
    (if trend = Some Down then Elem ''ArrowDownRight'' [(''className'', JStr ''mr-1 h-3 w-3 text-danger'')] [] else Val (JBool False)),
    Text s])"

definition StatCard :: "css \<Rightarrow> string \<Rightarrow> json \<Rightarrow> string option \<Rightarrow> trend option \<Rightarrow> string option \<Rightarrow> jsx" where
  "StatCard css title v subValue trend icon =
  Card css (JStr ''hover:border-primary/50 transition-colors'') [] [
    CardHeader css (JStr ''flex flex-row items-center justify-between space-y-0 pb-2'') [] [
      CardTitle css (JStr ''text-sm font-medium text-muted-foreground'') [] [Text title],
      Elem (case icon of Some i \<Rightarrow> i | None \<Rightarrow> ''Activity'') [(''className'', JStr ''h-4 w-4 text-muted-foreground'')] []],
    CardContent css JUndef [] [
      Elem ''div'' [(''className'', JStr ''text-2xl font-bold'')] [Val v],
      stat_sub subValue trend]]"

definition tape_item :: "host \<Rightarrow> block \<Rightarrow> jsx outcome" where
  "tape_item hs b =
     bind_outcome (to_string (height b)) (\<lambda>height_text.
     bind_outcome (call_toLocaleString (numLocale hs) ''block.size.toLocaleString'' (size_bytes b)) (\<lambda>size_text.
     Ok (
  Elem ''Link'' [(''key'', height b), (''href'', JStr (''/block/'' @ height_text)),
  (''className'', JStr ''flex-shrink-0 min-w-[200px] group'')] [
    Elem ''div'' [(''className'', JStr ''rounded-lg border border-border bg-card p-4 transition-all hover:bg-card-hover hover:border-primary/50 group-hover:-translate-y-1 group-hover:shadow-lg hover:shadow-primary/10'')] [
      Elem ''div'' [(''className'', JStr ''flex justify-between items-start mb-2'')] [
        Elem ''span'' [(''className'', JStr ''text-sm font-mono text-muted-foreground'')] [
          Text ''#'',
          Val (height b)],
        Elem ''span'' [(''className'', JStr ''text-xs text-muted-foreground'')]
          [Text (locale_text (timeLocale hs) (timestamp b))]],
      Elem ''div'' [(''className'', JStr ''flex flex-col gap-1'')] [
        Elem ''span'' [(''className'', JStr ''font-bold text-lg text-foreground group-hover:text-primary transition-colors'')] [
          Val (tx_count b),
          Text '' txs''],
        Elem ''div'' [(''className'', JStr ''flex justify-between items-center text-xs'')] [
          Elem ''span'' [(''className'', JStr ''text-muted-foreground truncate max-w-[80px]'')] [Text (miner b)],
          Elem ''span'' [(''className'', JStr ''text-secondary font-mono'')] [
            Text size_text,
            Text '' B'']]],
      Elem ''div'' [(''className'', JStr ''mt-3 h-1 w-full rounded-full bg-primary/20 overflow-hidden'')] [
        Elem ''div'' [(''className'', JStr ''h-full bg-primary w-2/3'')] []]]])))"

definition BlockTape :: "host \<Rightarrow> block list \<Rightarrow> jsx outcome" where
  "BlockTape hs blocks = bind_outcome (seq_outcomes (map (tape_item hs) blocks)) (\<lambda>items. Ok (
  Elem ''div'' [(''className'', JStr ''w-full overflow-x-auto border-b border-border bg-card/50 backdrop-blur-sm'')] [
    Elem ''div'' [(''className'', JStr ''flex min-w-full p-4 gap-4'')] [Frag items]]))"

definition chart_data :: "json list" where
  "chart_data = map (\<lambda>n. JObj [(''value'', JNum (Num n))]) [400, 300, 200, 278, 189, 239, 349]"

definition NetworkActivityChart :: "css \<Rightarrow> jsx" where
  "NetworkActivityChart css =
  Card css (JStr ''col-span-4 border-yellow-500/20 shadow-[0_0_20px_rgba(255,215,0,0.05)]'') [] [
    CardHeader css JUndef [] [
      CardTitle css (JStr ''text-sm font-medium text-muted-foreground uppercase tracking-wider'') []
        [Text ''Network Activity (24h)'']],
    CardContent css (JStr ''pl-2'') [] [
      Elem ''ResponsiveContainer'' [(''width'', JStr ''100%''), (''height'', JNum (Num 120))] [
        Elem ''BarChart'' [(''data'', JArr chart_data)] [
          Elem ''Tooltip'' [(''cursor'', JObj [(''fill'', JStr ''transparent'')]), (''contentStyle'', JObj [(''backgroundColor'', JStr ''#111''), (''border'', JStr ''1px solid #333''), (''color'', JStr ''#fff'')])] [],
          Elem ''Bar'' [(''dataKey'', JStr ''value''), (''fill'', JStr ''#FFD700''), (''radius'', JArr (map (\<lambda>n. JNum (Num n)) [4, 4, 0, 0])),
            (''className'', JStr ''fill-primary hover:opacity-80 transition-opacity'')] []]]]]"

lemma tape_item_number:
  "height b = JNum n \<Longrightarrow> size_bytes b = JNum sz \<Longrightarrow>
     \<exists>x. tape_item hs b = Ok x \<and> hrefs x = [JStr (''/block/'' @ num_to_string n)]"
  by (simp add: tape_item_def render_simps)

lemma BlockTape_numbers:
  assumes "\<And>b. b \<in> set bs \<Longrightarrow> height b = JNum (ht b) \<and> size_bytes b = JNum (sz b)"
  shows "\<exists>x. BlockTape hs bs = Ok x \<and> hrefs x = map (\<lambda>b. JStr (''/block/'' @ num_to_string (ht b))) bs"
proof -
  obtain ys where ys: "seq_outcomes (map (tape_item hs) bs) = Ok ys"
      "list_all2 (\<lambda>b y. hrefs y = [JStr (''/block/'' @ num_to_string (ht b))]) bs ys"
    using seq_outcomes_choice [of bs "tape_item hs" "\<lambda>b y. hrefs y = [JStr (''/block/'' @ num_to_string (ht b))]"]
      tape_item_number assms by meson
  show ?thesis
    using concat_list_all2 [OF ys(2)] ys(1) by (simp add: BlockTape_def render_simps)
qed

lemma chart_hrefs [render_simps]: "hrefs (NetworkActivityChart css) = []"
  by (simp add: NetworkActivityChart_def card_defs render_simps)

lemma stat_hrefs [render_simps]: "icon \<noteq> Some ''Link'' \<Longrightarrow> hrefs (StatCard css title v subValue trend icon) = []"
  by (auto simp: StatCard_def stat_sub_def card_defs render_simps split: option.splits)

section \<open>Theme\<close>

text \<open>\<open>tailwind.config.ts\<close>: the files scanned for class names and the extensions of the theme.\<close>

record tailwind_config =
  content :: "string list"
  colors :: "(string \<times> string) list"
  fontFamily :: "(string \<times> string list) list"
  backgroundImage :: "(string \<times> string) list"
  plugins :: "string list"

definition config :: tailwind_config where
  "config = \<lparr>
     content = [''./src/pages/**/*.{js,ts,jsx,tsx,mdx}'', ''./src/components/**/*.{js,ts,jsx,tsx,mdx}'',
       ''./src/app/**/*.{js,ts,jsx,tsx,mdx}''],
     colors = [(''background'', ''#000000''), (''foreground'', ''#ffffff''), (''card'', ''#111111''),
       (''card-hover'', ''#1a1a1a''), (''border'', ''#333333''), (''primary'', ''#FFD700''),
       (''secondary'', ''#E5C100''), (''danger'', ''#ff4444''), (''muted'', ''#888888'')],
     fontFamily = [(''sans'', [''var(--font-inter)'', ''sans-serif'']),
       (''mono'', [''var(--font-roboto-mono)'', ''monospace''])],
     backgroundImage = [(''gradient-radial'', ''radial-gradient(var(--tw-gradient-stops))'')],
     plugins = []\<rparr>"

text \<open>The class names of an element and everything below it.\<close>

fun words :: "string \<Rightarrow> string list" where
  "words [] = []"
| "words (ch # cs) = (if ch = CHR '' '' then [] # words cs
     else (case words cs of [] \<Rightarrow> [[ch]] | w # ws \<Rightarrow> (ch # w) # ws))"

fun class_names :: "jsx \<Rightarrow> string list" where
  "class_names (Frag xs) = concat (map class_names xs)"
| "class_names (Elem t attrs xs) =
     (case map_of attrs ''className'' of Some (JStr s) \<Rightarrow> words s | _ \<Rightarrow> []) @ concat (map class_names xs)"
| "class_names _ = []"

section \<open>Properties\<close>

text \<open>
  The theme has no colour \<open>muted-foreground\<close> (only \<open>muted\<close>), although the navigation bar
  colours its secondary texts with \<open>text-muted-foreground\<close>; the colours of its other text
  classes, \<open>primary\<close> and \<open>background\<close> among them, are defined.
\<close>

theorem muted_foreground_undefined:
  "''text-muted-foreground'' \<in> set (class_names Navbar) \<and> map_of (colors config) ''muted-foreground'' = None \<and>
   ''text-primary'' \<in> set (class_names Navbar) \<and> map_of (colors config) ''primary'' = Some ''#FFD700''"
  by (simp add: Navbar_def config_def)

end
