(* ===== verification/Pages.thy ===== *)
theory Pages
  imports Components
begin

text \<open>
  The routes under \<open>packages/explorer-next/src/app\<close>. A page that awaits the client is a
  computation over the network; an expression of a page that can throw (a template literal or
  \<open>toLocaleString\<close> on an unchecked value) is bound before the tree it occurs in.
\<close>

section \<open>Home\<close>

definition home_row :: "host \<Rightarrow> block \<Rightarrow> jsx outcome" where
  "home_row hs b =
     bind_outcome (to_string (height b)) (\<lambda>height_text.
     bind_outcome (call_toLocaleString (numLocale hs) ''block.size.toLocaleString'' (size_bytes b)) (\<lambda>size_text.
     Ok (
  Elem ''div'' [(''key'', height b),
  (''className'', JStr ''flex items-center justify-between border-b border-border py-4 last:border-0 hover:bg-card-hover px-4 -mx-4 transition-colors'')] [
    Elem ''div'' [(''className'', JStr ''flex items-center gap-4'')] [
      Elem ''div'' [(''className'', JStr ''h-10 w-10 flex items-center justify-center rounded bg-primary/10 text-primary font-bold'')]
        [Text ''Bk''],
      Elem ''div'' [(''className'', JStr ''space-y-1'')] [
        Elem ''Link'' [(''href'', JStr (''/block/'' @ height_text)),
          (''className'', JStr ''font-mono text-lg font-medium text-primary hover:underline'')] [
          Text ''#'',
          Val (height b)],
        Elem ''p'' [(''className'', JStr ''text-xs text-muted-foreground'')]
          [Text (locale_text (dateLocale hs) (timestamp b))]]],
    Elem ''div'' [(''className'', JStr ''flex gap-8 text-right'')] [
      Elem ''div'' [] [
        Elem ''div'' [(''className'', JStr ''text-sm font-medium text-foreground'')] [
          Val (tx_count b),
          Text '' TXs''],
        Elem ''div'' [(''className'', JStr ''text-xs text-muted-foreground'')] [
          Text size_text,
          Text '' B'']],
      Elem ''div'' [] [
        Elem ''div'' [(''className'', JStr ''text-sm font-medium text-primary'')] [
          Val (JNum (reward b)),
          Text '' RTC''],
        Elem ''div'' [(''className'', JStr ''text-xs text-muted-foreground'')] [Text ''Reward + Fees'']],
      Elem ''div'' [(''className'', JStr ''min-w-[100px]'')] [
        Elem ''Link'' [(''href'', JStr (''/miners/'' @ miner b)),
          (''className'', JStr ''text-sm font-medium hover:text-white transition-colors'')] [Text (miner b)],
        Elem ''div'' [(''className'', JStr ''text-xs text-muted-foreground'')] [Text ''Miner'']]]])))"

text \<open>The block tape is rendered by React after the page function has returned its tree.\<close>

definition home_view :: "host \<Rightarrow> css \<Rightarrow> stats \<Rightarrow> block list \<Rightarrow> jsx outcome" where
  "home_view hs css st latestBlocks =
     bind_outcome (call_toLocaleString (numLocale hs) ''stats.height.toLocaleString'' (st_height st)) (\<lambda>height_text.
     bind_outcome (seq_outcomes (map (home_row hs) latestBlocks)) (\<lambda>rows.
     bind_outcome (BlockTape hs latestBlocks) (\<lambda>tape.
     Ok (
  Elem ''div'' [(''className'', JStr ''flex min-h-screen flex-col bg-background selection:bg-primary/30'')] [
    Navbar,
    tape,
    Elem ''main'' [(''className'', JStr ''flex-1 space-y-8 p-8 pt-6'')] [
      Elem ''div'' [(''className'', JStr ''flex flex-col items-center justify-center py-8 space-y-6'')] [
        Elem ''h1'' [(''className'', JStr ''text-4xl font-bold tracking-tighter text-white'')] [
          Elem ''span'' [(''className'', JStr ''text-primary'')] [Text ''RETARDIO''],
          Text '' EXPLORER''],
        Elem ''div'' [(''className'', JStr ''w-full max-w-2xl relative group'')] [
          Elem ''Search'' [(''className'', JStr ''absolute left-4 top-1/2 -translate-y-1/2 h-5 w-5 text-muted-foreground group-focus-within:text-primary transition-colors'')] [],
          Elem ''input'' [(''type'', JStr ''text''),
            (''placeholder'', JStr ''Search block, transaction, hash...''),
            (''className'', JStr ''w-full h-12 pl-12 pr-4 rounded-lg border border-border bg-card text-foreground focus:ring-2 focus:ring-primary focus:border-transparent outline-none transition-all placeholder:text-muted-foreground'')] []]],
      Elem ''div'' [(''className'', JStr ''grid grid-cols-1 lg:grid-cols-2 gap-6 max-w-6xl mx-auto'')] [
        Elem ''div'' [(''className'', JStr ''grid grid-cols-2 gap-4'')] [
          StatCard css ''TPS'' (JStr ''1,110'') (Some ''Peak: 2.4k'') None (Some ''Zap''),
          StatCard css ''Block Height'' (JStr height_text) (Some ''Latest'') None (Some ''Box''),
          StatCard css ''Hashrate'' (JStr (hashrate st)) (Some ''Network'') None (Some ''Activity''),
          StatCard css ''Supply'' (JStr (supply_text st)) (Some ''Total'') None (Some ''Coins'')],
        Elem ''div'' [(''className'', JStr ''flex flex-col'')] [NetworkActivityChart css]],
      Elem ''div'' [(''className'', JStr ''max-w-6xl mx-auto pt-8'')] [
        Card css (JStr ''border-border'') [] [
          CardHeader css JUndef [] [
            CardTitle css (JStr ''text-primary'') [] [Text ''Recent Blocks'']],
          CardContent css JUndef [] [
            Elem ''div'' [(''className'', JStr ''space-y-0'')] [Frag rows]]]]]]))))"

definition Home :: "host \<Rightarrow> css \<Rightarrow> 'w fetch \<Rightarrow> env \<Rightarrow> ('w, jsx) io" where
  "Home hs css fetch e =
     await (getStats hs fetch e) (\<lambda>st.
     await (getLatestBlocks hs fetch e) (\<lambda>latestBlocks.
     lift_outcome (home_view hs css st latestBlocks)))"

section \<open>Block\<close>

definition block_view :: "host \<Rightarrow> css \<Rightarrow> block option \<Rightarrow> jsx outcome" where
  "block_view hs css blk = (case blk of
     None \<Rightarrow> Ok (Elem ''div'' [] [Text ''Block not found''])
   | Some b \<Rightarrow>
     bind_outcome (call_toLocaleString (numLocale hs) ''block.size.toLocaleString'' (size_bytes b)) (\<lambda>size_text.
     Ok (
  Elem ''div'' [(''className'', JStr ''flex min-h-screen flex-col'')] [
    Navbar,
    Elem ''main'' [(''className'', JStr ''flex-1 p-8 pt-6 container max-w-5xl mx-auto'')] [
      Elem ''div'' [(''className'', JStr ''mb-6 flex items-center gap-4'')] [
        Elem ''Link'' [(''href'', JStr ''/''),
          (''className'', JStr ''p-2 rounded-full hover:bg-white/10 transition-colors'')] [
          Elem ''ArrowLeft'' [(''className'', JStr ''h-5 w-5'')] []],
        Elem ''h1'' [(''className'', JStr ''text-3xl font-bold font-mono tracking-tight flex items-center gap-3'')] [
          Elem ''Box'' [(''className'', JStr ''h-8 w-8 text-primary'')] [],
          Text ''Block #'',
          Val (height b)]],
      Elem ''div'' [(''className'', JStr ''grid gap-6'')] [
        Elem ''div'' [(''className'', JStr ''grid md:grid-cols-3 gap-4'')] [
          Card css JUndef [] [
            CardHeader css (JStr ''pb-2'') [] [
              CardTitle css (JStr ''text-sm text-muted-foreground'') [] [Text ''Mined By'']],
            CardContent css JUndef [] [
              Elem ''div'' [(''className'', JStr ''flex items-center gap-2'')] [
                Elem ''User'' [(''className'', JStr ''h-4 w-4 text-secondary'')] [],
                Elem ''Link'' [(''href'', JStr (''/miners/'' @ miner b)),
                  (''className'', JStr ''font-medium hover:text-primary transition-colors'')] [Text (miner b)]]]],
          Card css JUndef [] [
            CardHeader css (JStr ''pb-2'') [] [
              CardTitle css (JStr ''text-sm text-muted-foreground'') [] [Text ''Transaction Count'']],
            CardContent css JUndef [] [
              Elem ''div'' [(''className'', JStr ''flex items-center gap-2'')] [
                Elem ''Database'' [(''className'', JStr ''h-4 w-4 text-primary'')] [],
                Elem ''span'' [(''className'', JStr ''font-mono text-xl'')] [Val (tx_count b)]]]],
          Card css JUndef [] [
            CardHeader css (JStr ''pb-2'') [] [
              CardTitle css (JStr ''text-sm text-muted-foreground'') [] [Text ''Confirmations'']],
            CardContent css JUndef [] [
              Elem ''div'' [(''className'', JStr ''flex items-center gap-2'')] [
                Elem ''CheckCircle'' [(''className'', JStr ''h-4 w-4 text-secondary'')] [],
                Elem ''span'' [(''className'', JStr ''font-mono text-xl'')] [Text ''120+'']]]]],
        Card css JUndef [] [
          CardHeader css JUndef [] [CardTitle css JUndef [] [Text ''Details'']],
          CardContent css (JStr ''space-y-6'') [] [
            Elem ''div'' [(''className'', JStr ''grid md:grid-cols-2 gap-6'')] [
              Elem ''div'' [(''className'', JStr ''space-y-1'')] [
                Elem ''span'' [(''className'', JStr ''text-xs text-muted-foreground uppercase tracking-wider'')]
                  [Text ''Block Hash''],
                Elem ''div'' [(''className'', JStr ''flex items-center gap-2 bg-card-hover p-3 rounded-lg border border-border/50'')] [
                  Elem ''Hash'' [(''className'', JStr ''h-4 w-4 text-muted-foreground'')] [],
                  Elem ''code'' [(''className'', JStr ''text-sm break-all text-primary/80'')] [Val (hash b)]]],
              Elem ''div'' [(''className'', JStr ''space-y-1'')] [
                Elem ''span'' [(''className'', JStr ''text-xs text-muted-foreground uppercase tracking-wider'')]
                  [Text ''Timestamp''],
                Elem ''div'' [(''className'', JStr ''flex items-center gap-2 bg-card-hover p-3 rounded-lg border border-border/50'')] [
                  Elem ''Clock'' [(''className'', JStr ''h-4 w-4 text-muted-foreground'')] [],
                  Elem ''span'' [(''className'', JStr ''text-sm'')] [Text (toUTCString (timestamp b))]]],
              Elem ''div'' [(''className'', JStr ''space-y-1'')] [
                Elem ''span'' [(''className'', JStr ''text-xs text-muted-foreground uppercase tracking-wider'')]
                  [Text ''Size''],
                Elem ''div'' [(''className'', JStr ''p-3'')] [
                  Elem ''span'' [(''className'', JStr ''text-lg font-mono'')] [
                    Text size_text,
                    Text '' bytes'']]],
              Elem ''div'' [(''className'', JStr ''space-y-1'')] [
                Elem ''span'' [(''className'', JStr ''text-xs text-muted-foreground uppercase tracking-wider'')]
                  [Text ''Reward''],
                Elem ''div'' [(''className'', JStr ''p-3'')] [
                  Elem ''span'' [(''className'', JStr ''text-lg font-mono text-secondary'')] [
                    Val (JNum (reward b)),
                    Text '' RTC'']]]]]],
        Card css JUndef [] [
          CardHeader css JUndef [] [CardTitle css JUndef [] [Text ''Transactions'']],
          CardContent css JUndef [] [
            Elem ''div'' [(''className'', JStr ''py-8 text-center text-muted-foreground'')]
              [Text ''Transaction list loading...'']]]]]])))"

text \<open>\<open>getBlock\<close> resolves to an object whenever it resolves, so the first branch is never taken.\<close>

definition BlockPage :: "host \<Rightarrow> css \<Rightarrow> 'w fetch \<Rightarrow> env \<Rightarrow> string \<Rightarrow> ('w, jsx) io" where
  "BlockPage hs css fetch e params_height =
     (let ht = parse_int 0 params_height in
      await (getBlock hs fetch e ht) (\<lambda>b. lift_outcome (block_view hs css (Some b))))"

section \<open>Transaction and address\<close>

definition TxPage :: "css \<Rightarrow> string \<Rightarrow> jsx" where
  "TxPage css txid =
  Elem ''div'' [(''className'', JStr ''flex min-h-screen flex-col'')] [
    Navbar,
    Elem ''main'' [(''className'', JStr ''flex-1 p-8 pt-6 container max-w-5xl mx-auto'')] [
      Elem ''div'' [(''className'', JStr ''mb-6 flex items-center gap-4'')] [
        Elem ''Link'' [(''href'', JStr ''/''),
          (''className'', JStr ''p-2 rounded-full hover:bg-white/10 transition-colors'')] [
          Elem ''ArrowLeft'' [(''className'', JStr ''h-5 w-5'')] []],
        Elem ''h1'' [(''className'', JStr ''text-2xl font-bold font-mono tracking-tight truncate max-w-2xl'')]
          [Text txid]],
      Elem ''div'' [(''className'', JStr ''grid gap-6'')] [
        Card css JUndef [] [
          CardHeader css JUndef [] [
            CardTitle css JUndef [] [Text ''Transaction inputs & outputs'']],
          CardContent css JUndef [] [
            Elem ''div'' [(''className'', JStr ''flex flex-col md:flex-row gap-8'')] [
              Elem ''div'' [(''className'', JStr ''flex-1 space-y-3'')] [
                Elem ''h3'' [(''className'', JStr ''text-sm font-semibold text-muted-foreground uppercase'')]
                  [Text ''Inputs (1)''],
                Elem ''div'' [(''className'', JStr ''p-4 rounded-lg bg-card-hover border border-border/50 space-y-2'')] [
                  Elem ''div'' [(''className'', JStr ''flex justify-between items-center text-sm'')] [
                    Elem ''Link'' [(''href'', JStr ''#''),
                      (''className'', JStr ''text-primary hover:underline font-mono'')] [Text ''rt1q...xy2z''],
                    Elem ''span'' [(''className'', JStr ''text-red-400 font-mono'')] [Text ''- 500.00 RTC'']]]],
              Elem ''div'' [(''className'', JStr ''flex items-center justify-center'')] [
                Elem ''ArrowRightCircle'' [(''className'', JStr ''h-8 w-8 text-muted-foreground/30 rotate-90 md:rotate-0'')] []],
              Elem ''div'' [(''className'', JStr ''flex-1 space-y-3'')] [
                Elem ''h3'' [(''className'', JStr ''text-sm font-semibold text-muted-foreground uppercase'')]
                  [Text ''Outputs (2)''],
                Elem ''div'' [(''className'', JStr ''p-4 rounded-lg bg-card-hover border border-border/50 space-y-2'')] [
                  Elem ''div'' [(''className'', JStr ''flex justify-between items-center text-sm'')] [
                    Elem ''Link'' [(''href'', JStr ''#''),
                      (''className'', JStr ''text-primary hover:underline font-mono'')] [Text ''rt1q...abc1''],
                    Elem ''span'' [(''className'', JStr ''text-green-400 font-mono'')] [Text ''+ 100.00 RTC'']],
                  Elem ''div'' [(''className'', JStr ''border-t border-border/30 my-2'')] [],
                  Elem ''div'' [(''className'', JStr ''flex justify-between items-center text-sm'')] [
                    Elem ''Link'' [(''href'', JStr ''#''),
                      (''className'', JStr ''text-primary hover:underline font-mono'')] [Text ''rt1q...def2''],
                    Elem ''span'' [(''className'', JStr ''text-green-400 font-mono'')] [Text ''+ 399.99 RTC'']]]]],
            Elem ''div'' [(''className'', JStr ''mt-8 pt-6 border-t border-border flex justify-between items-center'')] [
              Elem ''span'' [(''className'', JStr ''text-sm text-muted-foreground'')] [
                Text ''Fee: '',
                Elem ''span'' [(''className'', JStr ''text-foreground'')] [Text ''0.01 RTC'']],
              Elem ''span'' [(''className'', JStr ''text-sm px-2 py-1 rounded bg-secondary/10 text-secondary border border-secondary/20'')]
                [Text ''Confirmed'']]]]]]]"

definition AddressPage :: "css \<Rightarrow> string \<Rightarrow> jsx" where
  "AddressPage css address =
  Elem ''div'' [(''className'', JStr ''flex min-h-screen flex-col'')] [
    Navbar,
    Elem ''main'' [(''className'', JStr ''flex-1 p-8 pt-6 container max-w-5xl mx-auto'')] [
      Elem ''div'' [(''className'', JStr ''mb-6 flex items-center justify-between'')] [
        Elem ''h1'' [(''className'', JStr ''text-2xl font-bold font-mono tracking-tight flex items-center gap-2'')] [
          Elem ''Wallet'' [(''className'', JStr ''h-6 w-6 text-primary'')] [],
          Elem ''span'' [(''className'', JStr ''truncate max-w-xl'')] [Text address]],
        Elem ''button'' [(''className'', JStr ''p-2 border border-border rounded-lg bg-card-hover hover:text-primary transition-colors'')] [
          Elem ''Copy'' [(''className'', JStr ''h-4 w-4'')] []]],
      Elem ''div'' [(''className'', JStr ''grid gap-6 md:grid-cols-2'')] [
        Card css JUndef [] [
          CardHeader css JUndef [] [CardTitle css JUndef [] [Text ''Balance'']],
          CardContent css (JStr ''text-center py-6'') [] [
            Elem ''div'' [(''className'', JStr ''text-4xl font-bold font-mono text-secondary'')]
              [Text ''1,337.00 RTC'']]],
        Card css JUndef [] [
          CardHeader css JUndef [] [
            CardTitle css JUndef [] [Text ''Total Received / Sent'']],
          CardContent css (JStr ''space-y-4'') [] [
            Elem ''div'' [(''className'', JStr ''flex justify-between items-center text-sm'')] [
              Elem ''span'' [(''className'', JStr ''text-muted-foreground flex items-center gap-1'')] [
                Elem ''Coins'' [(''className'', JStr ''h-3 w-3'')] [],
                Text '' Received''],
              Elem ''span'' [(''className'', JStr ''font-mono'')] [Text ''50,000.00 RTC'']],
            Elem ''div'' [(''className'', JStr ''w-full h-1 bg-border rounded-full overflow-hidden'')] [
              Elem ''div'' [(''className'', JStr ''h-full bg-green-500 w-[70%]'')] []],
            Elem ''div'' [(''className'', JStr ''flex justify-between items-center text-sm'')] [
              Elem ''span'' [(''className'', JStr ''text-muted-foreground flex items-center gap-1'')] [
                Elem ''Coins'' [(''className'', JStr ''h-3 w-3'')] [],
                Text '' Sent''],
              Elem ''span'' [(''className'', JStr ''font-mono'')] [Text ''48,663.00 RTC'']]]],
        Card css (JStr ''md:col-span-2'') [] [
          CardHeader css JUndef [] [CardTitle css JUndef [] [Text ''History'']],
          CardContent css JUndef [] [
            Elem ''div'' [(''className'', JStr ''text-center py-8 text-muted-foreground'')]
              [Text ''Transaction history loading...'']]]]]]"

section \<open>Miners\<close>

definition miner_row :: "nat \<Rightarrow> jsx" where
  "miner_row i =
  Elem ''div'' [(''key'', JNum (Num (of_nat i))),
  (''className'', JStr ''flex items-center justify-between border-b border-border py-4 last:border-0'')] [
    Elem ''div'' [(''className'', JStr ''flex items-center gap-4'')] [
      Elem ''div'' [(''className'', JStr ''flex h-8 w-8 items-center justify-center rounded-full bg-secondary/10 text-secondary font-bold'')]
        [Val (JNum (Num (of_nat i)))],
      Elem ''div'' [(''className'', JStr ''space-y-1'')] [
        Elem ''div'' [(''className'', JStr ''font-medium text-lg flex items-center gap-2'')] [
          Text (if i = 1 then ''RetardioPool'' else ''RetardioSoloMiner''),
          (if i = 1 then Elem ''Award'' [(''className'', JStr ''h-4 w-4 text-yellow-500'')] [] else Val (JBool False))],
        Elem ''div'' [(''className'', JStr ''text-xs text-muted-foreground font-mono'')] [
          Text ''rt1q...address'',
          Val (JNum (Num (of_nat i)))]]],
    Elem ''div'' [(''className'', JStr ''text-right'')] [
      Elem ''div'' [(''className'', JStr ''font-bold'')] [
        Val (JNum (js_sub (Num 1000) (js_mul (Num (of_nat i)) (Num 150)))),
        Text '' Blocks''],
      Elem ''div'' [(''className'', JStr ''text-xs text-muted-foreground'')] [
        Text (to_fixed 1 (js_sub (Num 50) (js_mul (Num (of_nat i)) (Num 5)))),
        Text ''% Network Share'']]]"

definition MinersPage :: "css \<Rightarrow> jsx" where
  "MinersPage css =
  Elem ''div'' [(''className'', JStr ''flex min-h-screen flex-col'')] [
    Navbar,
    Elem ''main'' [(''className'', JStr ''flex-1 p-8 pt-6 container max-w-5xl mx-auto'')] [
      Elem ''h1'' [(''className'', JStr ''text-3xl font-bold tracking-tight mb-6'')] [Text ''Miners Distribution''],
      Elem ''div'' [(''className'', JStr ''grid gap-6'')] [
        Card css JUndef [] [
          CardHeader css JUndef [] [
            CardTitle css JUndef [] [Text ''Hashrate Distribution (24h)'']],
          CardContent css (JStr ''h-[300px] flex items-center justify-center bg-card-hover/20'') []
            [Text ''Pie Chart Placeholder'']],
        Card css JUndef [] [
          CardHeader css JUndef [] [
            CardTitle css JUndef [] [Text ''Top Miners (7 Days)'']],
          CardContent css JUndef [] [
            Elem ''div'' [(''className'', JStr ''space-y-4'')] [Frag (map miner_row [1, 2, 3, 4, 5])]]]]]]"

section \<open>Layout\<close>

text \<open>The class names that the font loader of the framework generates.\<close>

record fonts =
  inter_variable :: string
  robotoMono_variable :: string

definition metadata :: "(string \<times> string) list" where
  "metadata = [(''title'', ''Retardio Explorer''),
     (''description'', ''The official block explorer for the Retardio blockchain.'')]"

definition RootLayout :: "fonts \<Rightarrow> jsx \<Rightarrow> jsx" where
  "RootLayout f children =
  Elem ''html'' [(''lang'', JStr ''en'')] [
    Elem ''body'' [(''className'', JStr (inter_variable f @ '' '' @ robotoMono_variable f
        @ '' font-sans bg-background text-foreground antialiased selection:bg-primary/20''))] [children]]"

section \<open>What the pages show\<close>

lemma home_row_number:
  "height b = JNum n \<Longrightarrow> size_bytes b = JNum sz \<Longrightarrow>
     \<exists>x. home_row hs b = Ok x \<and>
       hrefs x = [JStr (''/block/'' @ num_to_string n), JStr (''/miners/'' @ miner b)]"
  by (simp add: home_row_def render_simps)

lemma home_view_links:
  assumes "\<And>b. b \<in> set bs \<Longrightarrow> height b = JNum (ht b) \<and> size_bytes b = JNum (sz b)"
    and "st_height st = JNum k"
  shows "\<exists>page. home_view hs css st bs = Ok page \<and>
    hrefs page = map JStr [''/'', ''/miners'', ''/mempool'', ''https://retardiochain.com'']
      @ map (\<lambda>b. JStr (''/block/'' @ num_to_string (ht b))) bs
      @ concat (map (\<lambda>b. [JStr (''/block/'' @ num_to_string (ht b)), JStr (''/miners/'' @ miner b)]) bs)"
proof -
  let ?row = "\<lambda>b. [JStr (''/block/'' @ num_to_string (ht b)), JStr (''/miners/'' @ miner b)]"
  have "\<exists>y. home_row hs b = Ok y \<and> hrefs y = ?row b" if "b \<in> set bs" for b
    using home_row_number [of b] assms(1) [OF that] by blast
  then obtain ys where ys: "seq_outcomes (map (home_row hs) bs) = Ok ys" "list_all2 (\<lambda>b y. hrefs y = ?row b) bs ys"
    using seq_outcomes_choice [of bs "home_row hs" "\<lambda>b y. hrefs y = ?row b"] by blast
  obtain tape where tape: "BlockTape hs bs = Ok tape"
      "hrefs tape = map (\<lambda>b. JStr (''/block/'' @ num_to_string (ht b))) bs"
    using BlockTape_numbers [OF assms(1)] by blast
  show ?thesis
    using ys(1) tape concat_list_all2 [OF ys(2)] assms(2)
    by (simp add: home_view_def card_defs render_simps)
qed

lemma block_view_text:
  assumes "size_bytes b = JNum sz" "height b = JNum h" "tx_count b = JNum c" "hash b = JStr k"
  shows "\<exists>page. block_view hs css (Some b) = Ok page \<and>
    text_content page = 
      Ok (''RETARDIOSCANMinersMempoolMain SiteBlock #'' @ num_to_string h @ ''Mined By'' @ miner b @
        ''Transaction Count'' @ num_to_string c @ ''Confirmations120+DetailsBlock Hash'' @ k @
        ''Timestamp'' @ toUTCString (timestamp b) @ ''Size'' @ numLocale hs sz @ '' bytesReward'' @
        num_to_string (reward b) @ '' RTCTransactionsTransaction list loading...'')"
  using assms by (simp add: block_view_def card_defs Navbar_text)

section \<open>Page directories\<close>

text \<open>
  The directories of \<open>src/app\<close> that hold a page; a segment in brackets is the name of a parameter of the page.
\<close>

definition app_pages :: "string list" where
  "app_pages = [''/'', ''/block/[height]'', ''/tx/[txid]'', ''/address/[address]'', ''/miners'']"

text \<open>What stands for the parameter of the block page in those of the links that begin as its directory.\<close>

definition block_params :: "json list \<Rightarrow> string list" where
  "block_params ls = concat (map (\<lambda>v. case v of
     JStr s \<Rightarrow> if take 7 s = ''/block/'' then [drop 7 s] else [] | _ \<Rightarrow> []) ls)"

lemma block_params_simps [simp]:
  "block_params [] = []"
  "block_params (JStr (''/block/'' @ p) # ls) = p # block_params ls"
  "take 7 s \<noteq> ''/block/'' \<Longrightarrow> block_params (JStr s # ls) = block_params ls"
  "block_params (ls @ ks) = block_params ls @ block_params ks"
  by (simp_all add: block_params_def)

lemma block_params_map [simp]: "block_params (map (\<lambda>b. JStr (''/block/'' @ f b)) bs) = map f bs"
  by (induction bs) (simp_all del: append.simps)

section \<open>Properties\<close>

text \<open>
  The transaction page is a placeholder: whatever the identifier, the page shows it in its
  heading and the same one input, two outputs, fee and confirmation below.
\<close>

theorem TxPage_text:
  "text_content (TxPage css txid) = Ok (''RETARDIOSCANMinersMempoolMain Site'' @ txid @
     ''Transaction inputs & outputsInputs (1)rt1q...xy2z- 500.00 RTCOutputs (2)rt1q...abc1+ 100.00 RTC'' @
     ''rt1q...def2+ 399.99 RTCFee: 0.01 RTCConfirmed'')"
  by (simp add: TxPage_def card_defs Navbar_text)

text \<open>
  The address page is a placeholder as well: every address is shown with the same balance,
  and the totals received and sent differ by that balance.
\<close>

theorem AddressPage_text:
  "text_content (AddressPage css address) = Ok (''RETARDIOSCANMinersMempoolMain Site'' @ address @
     ''Balance1,337.00 RTCTotal Received / Sent Received50,000.00 RTC Sent48,663.00 RTC'' @
     ''HistoryTransaction history loading...'')"
  by (simp add: AddressPage_def card_defs Navbar_text)

lemma small_numbers:
  "nat_to_string 1 = ''1''" "nat_to_string 2 = ''2''" "nat_to_string 3 = ''3''" "nat_to_string 4 = ''4''"
  "nat_to_string 5 = ''5''" "nat_to_string 850 = ''850''" "nat_to_string 700 = ''700''"
  "nat_to_string 550 = ''550''" "nat_to_string 400 = ''400''" "nat_to_string 250 = ''250''"
  by code_simp+

lemma small_shares:
  "to_fixed 1 (Num 45) = ''45.0''" "to_fixed 1 (Num 40) = ''40.0''" "to_fixed 1 (Num 35) = ''35.0''"
  "to_fixed 1 (Num 30) = ''30.0''" "to_fixed 1 (Num 25) = ''25.0''"
  by code_simp+

lemma miner_row_text:
  assumes "i \<le> 5"
  shows "text_content (miner_row i) = Ok (nat_to_string i
      @ (if i = 1 then ''RetardioPool'' else ''RetardioSoloMiner'') @ ''rt1q...address'' @ nat_to_string i
      @ nat_to_string (1000 - i * 150) @ '' Blocks'' @ to_fixed 1 (Num (of_nat (50 - i * 5))) @ ''% Network Share'')"
proof -
  have a: "js_sub (Num 1000) (js_mul (Num (of_nat i)) (Num 150)) = Num (of_nat (1000 - i * 150))"
    using js_mul_nat [of i 150] js_sub_nat [of "i * 150" 1000] assms by simp
  have b: "js_sub (Num 50) (js_mul (Num (of_nat i)) (Num 5)) = Num (of_nat (50 - i * 5))"
    using js_mul_nat [of i 5] js_sub_nat [of "i * 5" 50] assms by simp
  have n: "num_to_string (Num (of_nat i)) = nat_to_string i"
    "num_to_string (Num (of_nat (1000 - i * 150))) = nat_to_string (1000 - i * 150)"
    using assms by (intro num_to_string_nat; simp)+
  show ?thesis unfolding miner_row_def a b by (simp add: n del: of_nat_diff)
qed

text \<open>
  The miners page is made of placeholders: five rows, from 850 down to 250 blocks, whose
  network shares of 45, 40, 35, 30 and 25 percent add up to 175 percent.
\<close>

theorem MinersPage_text:
  "text_content (MinersPage css) = Ok (''RETARDIOSCANMinersMempoolMain SiteMiners Distribution'' @
     ''Hashrate Distribution (24h)Pie Chart PlaceholderTop Miners (7 Days)'' @
     ''1RetardioPoolrt1q...address1850 Blocks45.0% Network Share'' @
     ''2RetardioSoloMinerrt1q...address2700 Blocks40.0% Network Share'' @
     ''3RetardioSoloMinerrt1q...address3550 Blocks35.0% Network Share'' @
     ''4RetardioSoloMinerrt1q...address4400 Blocks30.0% Network Share'' @
     ''5RetardioSoloMinerrt1q...address5250 Blocks25.0% Network Share'')"
proof -
  have "text_content (miner_row 1) = Ok ''1RetardioPoolrt1q...address1850 Blocks45.0% Network Share''"
    using miner_row_text [of 1] by (simp add: small_numbers [simplified] small_shares [simplified])
  moreover have "text_content (miner_row 2) = Ok ''2RetardioSoloMinerrt1q...address2700 Blocks40.0% Network Share''"
    using miner_row_text [of 2] by (simp add: small_numbers small_shares [simplified])
  moreover have "text_content (miner_row 3) = Ok ''3RetardioSoloMinerrt1q...address3550 Blocks35.0% Network Share''"
    using miner_row_text [of 3] by (simp add: small_numbers small_shares [simplified])
  moreover have "text_content (miner_row 4) = Ok ''4RetardioSoloMinerrt1q...address4400 Blocks30.0% Network Share''"
    using miner_row_text [of 4] by (simp add: small_numbers small_shares [simplified])
  moreover have "text_content (miner_row 5) = Ok ''5RetardioSoloMinerrt1q...address5250 Blocks25.0% Network Share''"
    using miner_row_text [of 5] by (simp add: small_numbers small_shares [simplified])
  ultimately show ?thesis
    by (simp add: MinersPage_def card_defs Navbar_text)
qed


text \<open>
  Of the four links in the navigation bar, the home and the miners link name pages of the
  application, and the mempool link does not.
\<close>

theorem navigation_dead_links:
  "hrefs Navbar = map JStr [''/'', ''/miners'', ''/mempool'', ''https://retardiochain.com''] \<and>
   [p \<leftarrow> [''/'', ''/miners'', ''/mempool'']. p \<notin> set app_pages] = [''/mempool'']"
  by (simp add: Navbar_hrefs app_pages_def)

end
