(* ===== verification/Emission.thy ===== *)
theory Emission
  imports Prelude
begin

text \<open>
  The interface every block-reward schedule of the system provides: a reward per height that
  is constant within a period, never negative and never rises from one period to the next.
  The explorer's halving schedule and the node's block subsidy both interpret it; the client
  lemmas bound the coins that a chain of a given length can have emitted.
\<close>

locale emission_schedule =
  fixes interval :: nat and reward :: "nat \<Rightarrow> rat"
  assumes interval_pos: "0 < interval"
    and reward_period: "reward h = reward (h div interval * interval)"
    and reward_nonneg: "0 \<le> reward h"
    and reward_step: "reward ((k + 1) * interval) \<le> reward (k * interval)"
begin

definition emitted :: "nat \<Rightarrow> rat" where
  "emitted n = (\<Sum>h<n. reward h)"

lemma reward_period_antimono: "k \<le> l \<Longrightarrow> reward (l * interval) \<le> reward (k * interval)"
proof (induction l)
  case (Suc l)
  then show ?case
    using reward_step [of l] by (cases "k = Suc l") (auto simp del: mult_Suc)
qed simp

lemma reward_antimono: "g \<le> h \<Longrightarrow> reward h \<le> reward g"
  using reward_period_antimono [OF div_le_mono [of g h interval]] reward_period [of g] reward_period [of h]
  by simp

lemma reward_same_period: "g div interval = h div interval \<Longrightarrow> reward g = reward h"
  by (metis reward_period)

lemma emitted_Suc: "emitted (Suc n) = emitted n + reward n"
  by (simp add: emitted_def)

lemma emitted_mono: "m \<le> n \<Longrightarrow> emitted m \<le> emitted n"
  unfolding emitted_def by (rule sum_mono2) (auto simp: reward_nonneg)

lemma emitted_upper: "emitted n \<le> of_nat n * reward 0"
proof (induction n)
  case (Suc n)
  then show ?case using reward_antimono [of 0 n] by (simp add: emitted_Suc algebra_simps)
qed (simp add: emitted_def)

lemma emitted_periods: "emitted (k * interval) = of_nat interval * (\<Sum>j<k. reward (j * interval))"
proof (induction k)
  case (Suc k)
  have split: "{..<Suc k * interval} = {..<k * interval} \<union> {k * interval..<k * interval + interval}"
    by auto
  have "(\<Sum>h = k * interval..<k * interval + interval. reward h)
      = (\<Sum>h = k * interval..<k * interval + interval. reward (k * interval))"
  proof (rule sum.cong [OF refl])
    fix h assume "h \<in> {k * interval..<k * interval + interval}"
    then have "h div interval = k"
      by (auto intro: div_nat_eqI simp: mult.commute)
    then show "reward h = reward (k * interval)"
      by (metis reward_period)
  qed
  then have "emitted (Suc k * interval) = emitted (k * interval) + of_nat interval * reward (k * interval)"
    unfolding emitted_def split by (subst sum.union_disjoint) auto
  with Suc show ?case by (simp add: algebra_simps)
qed (simp add: emitted_def)

end

end
