(* ===== verification/Halving.thy ===== *)
theory Halving
  imports Js_Number Emission
begin

text \<open>
  \<open>packages/explorer-next/src/lib/halving.ts\<close>: the halving arithmetic the explorer shows,
  on the doubles it runs on.
\<close>

definition HALVING_INTERVAL :: number where
  "HALVING_INTERVAL = Num 210000"

definition INITIAL_REWARD :: number where
  "INITIAL_REWARD = Num 50"

record halving_info =
  era :: number
  currentReward :: number
  nextHalvingHeight :: number
  blocksRemaining :: number
  blocksPercentage :: number

definition getHalvingInfo :: "number \<Rightarrow> halving_info" where
  "getHalvingInfo currentHeight =
     (let era = math_floor (js_div currentHeight HALVING_INTERVAL);
          nextHalvingHeight = js_mul (js_add era (Num 1)) HALVING_INTERVAL;
          blocksRemaining = js_sub nextHalvingHeight currentHeight;
          currentReward = js_div INITIAL_REWARD (math_pow2 era);
          blocksPercentage =
            js_mul (js_div (js_rem currentHeight HALVING_INTERVAL) HALVING_INTERVAL) (Num 100)
      in \<lparr>era = era,
          currentReward = currentReward,
          nextHalvingHeight = nextHalvingHeight,
          blocksRemaining = blocksRemaining,
          blocksPercentage = math_min (math_max blocksPercentage (Num 0)) (Num 100)\<rparr>)"

text \<open>The reward the explorer shows at a height, and the schedule it is meant to follow.\<close>

definition halving_reward :: "nat \<Rightarrow> rat" where
  "halving_reward h = 50 / 2 ^ (h div 210000)"

section \<open>Exactness on the heights a chain can have\<close>

lemma era_exact:
  "h < 2 ^ 53 \<Longrightarrow> era (getHalvingInfo (Num (of_nat h))) = Num (of_nat (h div 210000))"
  using js_div_nat_floor [of h 210000] by (simp add: getHalvingInfo_def HALVING_INTERVAL_def Let_def)

lemma reward_of_era:
  "js_div INITIAL_REWARD (math_pow2 (Num (of_nat k))) = (if k < 1024 then Num (50 / 2 ^ k) else Num 0)"
proof (cases "k < 1024")
  case True
  have "of_int 25 * 2 powi (1 - int k) = (50 / 2 ^ k :: rat)"
    by (simp add: power_int_diff)
  moreover have "fl (of_int 25 * 2 powi (1 - int k)) = Num (of_int 25 * 2 powi (1 - int k))"
    using True by (intro fl_pos_exact) simp_all
  ultimately show ?thesis
    using True by (simp add: math_pow2_nat js_div_def INITIAL_REWARD_def)
next
  case False
  then show ?thesis
    by (simp add: math_pow2_nat js_div_def INITIAL_REWARD_def zero_def)
qed

lemma percentage_rounding:
  assumes "0 < m" "m < 210000"
  defines "x \<equiv> of_nat m / 210000 :: rat"
  obtains p where "js_mul (js_div (Num (of_nat m)) (Num 210000)) (Num 100) = Num p"
    "0 < p" "p < 100" "\<bar>p - 100 * x\<bar> \<le> 1 / 2 ^ 44"
proof -
  have m: "(1 :: rat) \<le> of_nat m" "of_nat m \<le> (209999 :: rat)"
    using assms of_nat_le_iff [of 1 m, where 'a = rat] of_nat_le_iff [of m 209999, where 'a = rat] by simp_all
  then have x: "1 / 210000 \<le> x" "x \<le> 209999 / 210000" by (simp_all add: x_def)
  have lo: "2 powi (- 1022) \<le> t" if "1 / 420000 \<le> t" for t :: rat
  proof -
    have "(2 :: rat) powi (- 1022) \<le> 2 powi (- 20)" by (subst pow2_le_iff) simp
    also have "\<dots> \<le> 1 / 420000" by (simp add: power_int_minus)
    finally show ?thesis using that by simp
  qed
  have hi: "t \<le> 2 powi 1000" if "t \<le> 100" for t :: rat
  proof -
    have "(100 :: rat) \<le> 2 powi 7" by simp
    also have "\<dots> \<le> 2 powi 1000" by (subst pow2_le_iff) simp
    finally show ?thesis using that by simp
  qed
  obtain y where y: "fl x = Num y" "\<bar>y - x\<bar> \<le> x / 2 ^ 53" "0 < y"
    using fl_error [of x] lo [of x] hi [of x] x by force
  have "x / 2 ^ 53 \<le> 1 / 2 ^ 53" using x by (intro divide_right_mono) simp_all
  with y(2) have ey: "\<bar>y - x\<bar> \<le> 1 / 9007199254740992" by simp
  have ypos: "1 / 420000 \<le> 100 * y" "100 * y \<le> 100" using ey x by linarith+
  obtain p where p: "fl (100 * y) = Num p" "\<bar>p - 100 * y\<bar> \<le> 100 * y / 2 ^ 53" "0 < p"
    using fl_error [of "100 * y"] lo [of "100 * y"] hi [of "100 * y"] ypos by force
  have "100 * y / 2 ^ 53 \<le> 100 / 2 ^ 53" using ypos by (intro divide_right_mono) simp_all
  with p(2) have ep: "\<bar>p - 100 * y\<bar> \<le> 100 / 9007199254740992" by simp
  have near: "\<bar>p - 100 * x\<bar> \<le> 1 / 17592186044416" using ep ey by linarith
  show thesis
  proof (rule that)
    show "js_mul (js_div (Num (of_nat m)) (Num 210000)) (Num 100) = Num p"
      using y p assms(1) by (simp add: js_div_def js_mul_def x_def mult.commute)
    show "p < 100" using near x by linarith
  qed (use p near in simp_all)
qed

lemma clamp_id: "0 < p \<Longrightarrow> p < 100 \<Longrightarrow> math_min (math_max (Num p) (Num 0)) (Num 100) = Num p"
  by (simp add: math_min_def math_max_def js_less_def)

lemma clamp_range:
  "math_min (math_max a (Num 0)) (Num 100) = NaN \<or>
   (\<exists>p. math_min (math_max a (Num 0)) (Num 100) = Num p \<and> 0 \<le> p \<and> p \<le> 100)"
  by (cases a) (auto simp: math_min_def math_max_def js_less_def zero_def)

interpretation explorer_emission: emission_schedule 210000 halving_reward
proof
  show "halving_reward h = halving_reward (h div 210000 * 210000)" for h
    by (simp add: halving_reward_def)
  show "halving_reward ((k + 1) * 210000) \<le> halving_reward (k * 210000)" for k
    by (simp add: halving_reward_def field_simps)
qed (simp_all add: halving_reward_def)

section \<open>Properties\<close>

lemma currentReward_nat:
  "h < 2 ^ 53 \<Longrightarrow> currentReward (getHalvingInfo (Num (of_nat h))) =
     (if h div 210000 < 1024 then Num (halving_reward h) else Num 0)"
  using era_exact [of h] reward_of_era [of "h div 210000"]
  by (simp add: getHalvingInfo_def halving_reward_def Let_def)

text \<open>
  C4: at every block height whose next halving is still a safe integer, the era, the next
  halving height, the blocks remaining and the reward that \<open>getHalvingInfo\<close> computes in
  double arithmetic are the exact values of the halving schedule; from the 1024th era on the
  divisor overflows to infinity and the reward shown is zero.
\<close>

theorem getHalvingInfo_exact:
  assumes "h + 210000 \<le> 2 ^ 53"
  shows "era (getHalvingInfo (Num (of_nat h))) = Num (of_nat (h div 210000)) \<and>
    nextHalvingHeight (getHalvingInfo (Num (of_nat h))) = Num (of_nat ((h div 210000 + 1) * 210000)) \<and>
    blocksRemaining (getHalvingInfo (Num (of_nat h))) = Num (of_nat (210000 - h mod 210000)) \<and>
    currentReward (getHalvingInfo (Num (of_nat h))) =
      (if h div 210000 < 1024 then Num (halving_reward h) else Num 0)"
proof -
  let ?k = "h div 210000" and ?i = "getHalvingInfo (Num (of_nat h))"
  have h: "h < 2 ^ 53" using assms by simp
  have le: "(?k + 1) * 210000 \<le> h + 210000" by simp
  have sub: "(?k + 1) * 210000 - h = 210000 - h mod 210000"
    using minus_mod_eq_div_mult [of h 210000, symmetric] mod_less_eq_dividend [of h 210000]
    by (simp add: algebra_simps)
  have e: "era ?i = Num (of_nat ?k)" by (rule era_exact [OF h])
  have "?k + 1 \<le> 2 ^ 53" using le assms by linarith
  moreover have "(?k + 1) * 210000 \<le> 2 ^ 53" using le assms by linarith
  ultimately have n: "nextHalvingHeight ?i = Num (of_nat ((?k + 1) * 210000))"
    using e js_add_nat [of ?k 1] js_mul_nat [of "?k + 1" 210000]
    by (simp add: getHalvingInfo_def HALVING_INTERVAL_def Let_def del: of_nat_mult of_nat_add)
  have "blocksRemaining ?i = js_sub (nextHalvingHeight ?i) (Num (of_nat h))"
    by (simp add: getHalvingInfo_def Let_def)
  also have "\<dots> = Num (of_nat ((?k + 1) * 210000 - h))"
    unfolding n using le assms by (intro js_sub_nat) (simp_all add: dividend_less_div_times less_imp_le)
  finally show ?thesis using e n sub currentReward_nat [OF h] by simp
qed

text \<open>Witness: the default height of the explorer's mock data, and the first height of era one.\<close>

theorem getHalvingInfo_exact_witness:
  "currentReward (getHalvingInfo (Num (of_nat 10500))) = Num 50 \<and>
   blocksRemaining (getHalvingInfo (Num (of_nat 10500))) = Num 199500 \<and>
   currentReward (getHalvingInfo (Num (of_nat 210000))) = Num 25"
  using getHalvingInfo_exact [of 10500] getHalvingInfo_exact [of 210000]
  by (simp add: halving_reward_def del: of_nat_numeral)

text \<open>
  Whatever number \<open>getHalvingInfo\<close> is given, fractional, negative or infinite heights
  included, the percentage it returns is NaN or lies between 0 and 100: the clamp works.
\<close>

theorem blocksPercentage_clamped:
  "blocksPercentage (getHalvingInfo a) = NaN \<or>
   (\<exists>p. blocksPercentage (getHalvingInfo a) = Num p \<and> 0 \<le> p \<and> p \<le> 100)"
  using clamp_range by (simp add: getHalvingInfo_def Let_def)

text \<open>
  C34: at a block height, the percentage shown is within \<open>2^-44\<close> of the exact progress
  through the current era, and below 100, so the clamp never alters it.
\<close>

theorem blocksPercentage_accurate:
  assumes "h \<le> 2 ^ 53"
  shows "\<exists>p. blocksPercentage (getHalvingInfo (Num (of_nat h))) = Num p \<and> p < 100 \<and>
    \<bar>p - 100 * of_nat (h mod 210000) / 210000\<bar> \<le> 1 / 2 ^ 44"
proof (cases "h mod 210000 = 0")
  case True
  then show ?thesis
    using js_rem_nat [of h 210000] assms
    by (simp add: getHalvingInfo_def HALVING_INTERVAL_def Let_def js_div_def js_mul_def zero_def
        math_min_def math_max_def js_less_def)
next
  case False
  then obtain p where p: "js_mul (js_div (Num (of_nat (h mod 210000))) (Num 210000)) (Num 100) = Num p"
    "0 < p" "p < 100" "\<bar>p - 100 * (of_nat (h mod 210000) / 210000)\<bar> \<le> 1 / 2 ^ 44"
    using percentage_rounding [of "h mod 210000"] by force
  then show ?thesis
    using js_rem_nat [of h 210000] assms clamp_id [of p]
    by (simp add: getHalvingInfo_def HALVING_INTERVAL_def Let_def)
qed

theorem blocksPercentage_accurate_witness:
  "\<exists>p. blocksPercentage (getHalvingInfo (Num (of_nat 10500))) = Num p \<and> p < 100 \<and>
    \<bar>p - 100 * of_nat (10500 mod 210000) / 210000\<bar> \<le> 1 / 2 ^ 44"
  by (rule blocksPercentage_accurate [of 10500]) simp

text \<open>
  The reward the explorer shows never rises with the height, on every pair of heights
  below \<open>2^53\<close>, the overflow to zero included.
\<close>

theorem currentReward_never_rises:
  assumes "g \<le> h" "h < 2 ^ 53"
  shows "\<not> js_less (currentReward (getHalvingInfo (Num (of_nat g))))
    (currentReward (getHalvingInfo (Num (of_nat h))))"
proof -
  have "g < 2 ^ 53" using assms by simp
  then show ?thesis
    using explorer_emission.reward_antimono [OF assms(1)] explorer_emission.reward_nonneg [of g]
      div_le_mono [OF assms(1), of 210000] assms(2)
    by (auto simp: currentReward_nat js_less_def)
qed

theorem currentReward_never_rises_witness:
  "\<not> js_less (currentReward (getHalvingInfo (Num (of_nat 209999))))
    (currentReward (getHalvingInfo (Num (of_nat 210000))))"
  by (rule currentReward_never_rises) simp_all

end
