(* ===== verification/Miners.thy ===== *)
theory Miners
  imports Js_String
begin

text \<open>
  \<open>packages/explorer-next/src/lib/miners.ts\<close>: naming the miner of a block from its payout
  address or its coinbase tag.
\<close>

definition KNOWN_MINERS :: "(string \<times> string) list" where
  "KNOWN_MINERS = [(''rt1q...pool'', ''RetardioPool''), (''rt1q...dev'', ''Dev Fund'')]"

text \<open>
  \<open>KNOWN_MINERS[address]\<close> on an object literal also finds what the object inherits from
  \<open>Object.prototype\<close>; those members are functions or objects, not names.
\<close>

datatype member = Own string | Inherited string

definition object_prototype :: "string list" where
  "object_prototype =
     [''constructor'', ''__defineGetter__'', ''__defineSetter__'', ''hasOwnProperty'',
      ''__lookupGetter__'', ''__lookupSetter__'', ''isPrototypeOf'', ''propertyIsEnumerable'',
      ''toString'', ''valueOf'', ''__proto__'', ''toLocaleString'']"

definition lookup_member :: "(string \<times> string) list \<Rightarrow> string \<Rightarrow> member option" where
  "lookup_member kvs k = (case map_of kvs k of Some v \<Rightarrow> Some (Own v)
     | None \<Rightarrow> if k \<in> set object_prototype then Some (Inherited k) else None)"

fun member_truthy :: "member option \<Rightarrow> bool" where
  "member_truthy None = False"
| "member_truthy (Some (Own s)) = (s \<noteq> [])"
| "member_truthy (Some (Inherited k)) = True"

record miner_id =
  name :: member
  isPool :: bool

definition present :: "string option \<Rightarrow> bool" where
  "present s = (case s of None \<Rightarrow> False | Some t \<Rightarrow> t \<noteq> [])"

definition identifyMiner :: "string option \<Rightarrow> string option \<Rightarrow> miner_id" where
  "identifyMiner address coinbaseTag =
     (let known = lookup_member KNOWN_MINERS (the address) in
      if present address \<and> member_truthy known then \<lparr>name = the known, isPool = True\<rparr>
      else if present coinbaseTag \<and> js_includes ''/RetardioPool/'' (the coinbaseTag)
      then \<lparr>name = Own ''RetardioPool'', isPool = True\<rparr>
      else \<lparr>name = Own (if present address then js_substring 0 12 (the address) @ ''...''
              else ''Unknown Miner''),
            isPool = False\<rparr>)"

section \<open>Properties\<close>

lemma present_cases: "present s \<Longrightarrow> (\<And>t. s = Some t \<Longrightarrow> t \<noteq> [] \<Longrightarrow> P) \<Longrightarrow> P"
  by (auto simp: present_def split: option.splits)

lemma known_truthy_iff:
  "member_truthy (lookup_member KNOWN_MINERS a) \<longleftrightarrow>
     a = ''rt1q...pool'' \<or> a = ''rt1q...dev'' \<or> a \<in> set object_prototype"
  by (auto simp: lookup_member_def KNOWN_MINERS_def)

text \<open>
  C40: a block is attributed to a pool exactly when its address is a listed one, or an
  inherited member name, or its coinbase tag contains the pool's marker.
\<close>

theorem identifyMiner_isPool_iff:
  "isPool (identifyMiner address coinbaseTag) \<longleftrightarrow>
     (\<exists>a. address = Some a \<and> (a = ''rt1q...pool'' \<or> a = ''rt1q...dev'' \<or> a \<in> set object_prototype))
   \<or> (\<exists>u v. coinbaseTag = Some (u @ ''/RetardioPool/'' @ v))"
proof -
  have empty: "[] \<notin> set object_prototype" by (simp add: object_prototype_def)
  have "isPool (identifyMiner address coinbaseTag) \<longleftrightarrow>
      present address \<and> member_truthy (lookup_member KNOWN_MINERS (the address))
    \<or> present coinbaseTag \<and> js_includes ''/RetardioPool/'' (the coinbaseTag)"
    by (simp add: identifyMiner_def Let_def)
  then show ?thesis
    using empty unfolding known_truthy_iff js_includes_iff
    by (cases address; cases coinbaseTag) (auto simp: present_def)
qed

text \<open>
  For an address that is neither listed nor the name of an inherited member, and a
  coinbase without the marker, the miner is shown by at most the first twelve characters of
  the address followed by dots, and is not a pool.
\<close>

theorem identifyMiner_fallback:
  assumes "a \<noteq> []" "a \<notin> {''rt1q...pool'', ''rt1q...dev''}" "a \<notin> set object_prototype"
    and "\<nexists>u v. coinbaseTag = Some (u @ ''/RetardioPool/'' @ v)"
  shows "identifyMiner (Some a) coinbaseTag = \<lparr>name = Own (take 12 a @ ''...''), isPool = False\<rparr>"
proof -
  have "\<not> (present coinbaseTag \<and> js_includes ''/RetardioPool/'' (the coinbaseTag))"
    using assms(4) unfolding js_includes_iff by (auto simp: present_def split: option.splits)
  moreover have "\<not> member_truthy (lookup_member KNOWN_MINERS a)"
    using assms(2,3) by (simp add: known_truthy_iff)
  ultimately show ?thesis
    using assms(1) by (simp add: identifyMiner_def present_def js_substring_def)
qed

theorem identifyMiner_fallback_witness:
  "identifyMiner (Some ''ret1qxyzabcdefgh'') None
     = \<lparr>name = Own ''ret1qxyzabcd...'', isPool = False\<rparr>"
  using identifyMiner_fallback [of "''ret1qxyzabcdefgh''" None]
  by (simp add: object_prototype_def)

text \<open>
  The lookup does not guard against inherited members: an address spelled like one is
  reported as a pool whose name is not a string.
\<close>

theorem identifyMiner_inherited:
  "identifyMiner (Some ''constructor'') coinbaseTag = \<lparr>name = Inherited ''constructor'', isPool = True\<rparr>"
  by (simp add: identifyMiner_def present_def lookup_member_def KNOWN_MINERS_def object_prototype_def)

end
