(* ===== verification/Subsidy.thy ===== *)
theory Subsidy
  imports Emission
begin

text \<open>
  The node's block subsidy, \<open>GetBlockSubsidy\<close> of \<open>src/validation.cpp\<close>, with the amounts of
  \<open>src/consensus/amount.h\<close>. Amounts are 64-bit integers in the code; the model uses
  unbounded ones and shows that no intermediate value leaves the 64-bit range.
\<close>

type_synonym CAmount = int

definition COIN :: CAmount where
  "COIN = 100000000"

definition MAX_MONEY :: CAmount where
  "MAX_MONEY = 21000000 * COIN"

definition MoneyRange :: "CAmount \<Rightarrow> bool" where
  "MoneyRange nValue = (0 \<le> nValue \<and> nValue \<le> MAX_MONEY)"

text \<open>Division of the C++ code truncates towards zero.\<close>

definition c_div :: "int \<Rightarrow> int \<Rightarrow> int" where
  "c_div a b = sgn a * sgn b * (\<bar>a\<bar> div \<bar>b\<bar>)"

text \<open>The loop: \<open>n\<close> reductions by one percent, leaving early at zero.\<close>

fun reduce_subsidy :: "nat \<Rightarrow> CAmount \<Rightarrow> CAmount" where
  "reduce_subsidy 0 nSubsidy = nSubsidy"
| "reduce_subsidy (Suc n) nSubsidy =
     (let nSubsidy' = c_div (nSubsidy * 99) 100 in
      if nSubsidy' = 0 then nSubsidy' else reduce_subsidy n nSubsidy')"

text \<open>
  \<open>nHeight\<close>, the interval and \<open>reductions\<close> are of type \<open>int\<close>, 32 bits wide; \<open>c_int\<close> is its range. For heights
  in that range the quotient is in it too (lemma \<open>reductions_in_range\<close>), so that the unbounded
  division below is the one of the code.
\<close>

definition c_int :: "int \<Rightarrow> bool" where
  "c_int x = (- (2 ^ 31) \<le> x \<and> x < 2 ^ 31)"

definition GetBlockSubsidy :: "int \<Rightarrow> int \<Rightarrow> CAmount" where
  "GetBlockSubsidy nSubsidyHalvingInterval nHeight =
     (let nSubsidy = c_div (239726 * COIN) 100;
          reductions = c_div nHeight nSubsidyHalvingInterval
      in reduce_subsidy (nat reductions) nSubsidy)"

text \<open>The interval of the main network (\<open>CMainParams\<close> in \<open>src/kernel/chainparams.cpp\<close>).\<close>

definition mainSubsidyHalvingInterval :: int where
  "mainSubsidyHalvingInterval = 87600"

section \<open>The loop computes iterated floors\<close>

lemma c_div_nonneg [simp]: "0 \<le> a \<Longrightarrow> 0 < b \<Longrightarrow> c_div a b = a div b"
  by (simp add: c_div_def sgn_if)

lemma reductions_in_range: "c_int h \<Longrightarrow> 0 < n \<Longrightarrow> c_int (c_div h n)"
  using zdiv_mono2 [of "\<bar>h\<bar>" 1 n] pos_imp_zdiv_nonneg_iff [of n "\<bar>h\<bar>"]
  by (auto simp: c_int_def c_div_def sgn_if abs_if split: if_splits)

fun reduced :: "nat \<Rightarrow> int \<Rightarrow> int" where
  "reduced 0 s = s"
| "reduced (Suc n) s = reduced n (s * 99 div 100)"

lemma reduced_0 [simp]: "reduced n 0 = 0"
  by (induction n) simp_all

lemma reduce_subsidy_eq: "0 \<le> s \<Longrightarrow> reduce_subsidy n s = reduced n s"
  by (induction n arbitrary: s) (simp_all add: Let_def)

lemma reduced_Suc': "reduced (Suc n) s = reduced n s * 99 div 100"
  by (induction n arbitrary: s) simp_all

lemma reduced_nonneg: "0 \<le> s \<Longrightarrow> 0 \<le> reduced n s"
  by (induction n arbitrary: s) simp_all

lemma reduced_decr: "0 \<le> s \<Longrightarrow> reduced (Suc n) s \<le> reduced n s"
  using reduced_nonneg [of s n] by (simp only: reduced_Suc') simp

lemma reduced_upper: "0 \<le> s \<Longrightarrow> (of_int (reduced n s) :: rat) \<le> of_int s * (99 / 100) ^ n"
proof (induction n)
  case (Suc n)
  have "of_int (reduced n s * 99 div 100) \<le> (of_int (reduced n s * 99) / 100 :: rat)"
    by (metis floor_divide_of_int_eq of_int_floor_le of_int_numeral)
  then show ?case using Suc by (simp only: reduced_Suc') simp
qed simp

lemma main_subsidy:
  "GetBlockSubsidy mainSubsidyHalvingInterval (int h) = reduced (h div 87600) 239726000000"
  by (simp add: GetBlockSubsidy_def mainSubsidyHalvingInterval_def reduce_subsidy_eq COIN_def
      nat_div_distrib flip: zdiv_int)

interpretation node_emission: emission_schedule 87600
  "\<lambda>h. of_int (GetBlockSubsidy mainSubsidyHalvingInterval (int h))"
proof
  fix k :: nat
  show "(of_int (GetBlockSubsidy mainSubsidyHalvingInterval (int ((k + 1) * 87600))) :: rat)
      \<le> of_int (GetBlockSubsidy mainSubsidyHalvingInterval (int (k * 87600)))"
    using reduced_decr [of 239726000000 k] by (simp only: main_subsidy) simp
qed (simp_all only: main_subsidy, simp_all add: reduced_nonneg)

lemma reward_sum_bound:
  "(\<Sum>j<k. of_int (reduced j 239726000000)) \<le> (23972600000000 :: rat)"
proof -
  have "(\<Sum>j<k. of_int (reduced j 239726000000)) \<le> (\<Sum>j<k. 239726000000 * (99 / 100 :: rat) ^ j)"
    using reduced_upper [of 239726000000] by (intro sum_mono) simp
  also have "\<dots> = 239726000000 * (\<Sum>j<k. (99 / 100) ^ j)"
    by (simp add: sum_distrib_left)
  also have "\<dots> = 239726000000 * ((1 - (99 / 100) ^ k) * 100)"
    by (subst sum_gp_strict) simp
  also have "\<dots> \<le> 239726000000 * (1 * 100)"
    by (intro mult_left_mono mult_right_mono) simp_all
  finally show ?thesis by simp
qed

lemma emitted_first_period: "n \<le> 87600 \<Longrightarrow> node_emission.emitted n = of_nat n * 239726000000"
proof (induction n)
  case (Suc n)
  then have "GetBlockSubsidy mainSubsidyHalvingInterval (int n) = 239726000000"
    using main_subsidy [of n] by simp
  with Suc show ?case
    by (simp add: node_emission.emitted_Suc algebra_simps)
qed (simp add: node_emission.emitted_def)

section \<open>Properties\<close>

text \<open>The design limit of the schedule.\<close>

lemma main_supply_bounded:
  "(\<Sum>h<n. of_int (GetBlockSubsidy mainSubsidyHalvingInterval (int h))) < (21000000000 * of_int COIN :: rat)"
proof -
  let ?k = "n div 87600 + 1"
  have "n \<le> ?k * 87600" by (simp add: dividend_less_div_times less_imp_le)
  then have "node_emission.emitted n \<le> node_emission.emitted (?k * 87600)"
    by (rule node_emission.emitted_mono)
  also have "\<dots> = of_nat 87600 * (\<Sum>j<?k. of_int (reduced j 239726000000))"
    unfolding node_emission.emitted_periods by (simp add: main_subsidy del: of_nat_mult)
  also have "\<dots> \<le> of_nat 87600 * 23972600000000"
    by (intro mult_left_mono reward_sum_bound) simp
  also have "\<dots> < 21000000000 * of_int COIN" by (simp add: COIN_def)
  finally show ?thesis by (simp add: node_emission.emitted_def)
qed

text \<open>
  At every non-negative height of the main chain the subsidy lies between zero and the
  initial 2397.26 coins, never rises with the height, and stays far enough below the 64-bit
  limit that the multiplication by 99 in the loop cannot overflow.
\<close>

theorem main_subsidy_range:
  assumes "g \<le> h"
  shows "0 \<le> GetBlockSubsidy mainSubsidyHalvingInterval (int h) \<and>
    GetBlockSubsidy mainSubsidyHalvingInterval (int h) \<le> GetBlockSubsidy mainSubsidyHalvingInterval (int g) \<and>
    GetBlockSubsidy mainSubsidyHalvingInterval (int g) \<le> 239726000000 \<and>
    GetBlockSubsidy mainSubsidyHalvingInterval (int g) * 99 < 2 ^ 63"
  using node_emission.reward_nonneg [of h] node_emission.reward_antimono [OF assms]
    node_emission.reward_antimono [of 0 g] main_subsidy [of 0]
  by simp

theorem main_subsidy_range_witness:
  "GetBlockSubsidy mainSubsidyHalvingInterval (int 87600) \<le> GetBlockSubsidy mainSubsidyHalvingInterval (int 10500)"
  using main_subsidy_range [of 10500 87600] by simp

text \<open>The whole emission, by evaluation: the reductions with the sum of the rewards so far.\<close>

fun reduced_sum :: "nat \<Rightarrow> int \<times> int \<Rightarrow> int \<times> int" where
  "reduced_sum 0 p = p"
| "reduced_sum (Suc n) p = reduced_sum n (fst p * 99 div 100, snd p + fst p)"

lemma reduced_sum_eq: "reduced_sum n (s, a) = (reduced n s, a + (\<Sum>j<n. reduced j s))"
proof (induction n arbitrary: s a)
  case (Suc n)
  have "(\<Sum>j<Suc n. reduced j s) = s + (\<Sum>j<n. reduced j (s * 99 div 100))"
    by (simp add: sum.lessThan_Suc_shift del: sum.lessThan_Suc)
  with Suc show ?case by simp
qed simp

lemma reduced_sum_add: "reduced_sum (m + n) p = reduced_sum n (reduced_sum m p)"
  by (induction m arbitrary: p) simp_all

lemma reduced_sum_parts:
  "reduced_sum 441 (239726000000, 0) = (2849941523, 23687605825686)"
  "reduced_sum 441 (2849941523, 23687605825686) = (33880993, 23969211857708)"
  "reduced_sum 441 (33880993, 23969211857708) = (402741, 23972559660968)"
  "reduced_sum 441 (402741, 23972559660968) = (4739, 23972599439153)"
  "reduced_sum 442 (4739, 23972599439153) = (1, 23972599891094)"
  by code_simp+

lemma last_period:
  "reduced 2206 239726000000 = 1 \<and> (\<Sum>j<2206. reduced j 239726000000) = 23972599891094"
proof -
  have "reduced_sum (441 + (441 + (441 + (441 + 442)))) (239726000000, 0) = (1, 23972599891094)"
    by (simp only: reduced_sum_add reduced_sum_parts)
  then show ?thesis by (simp add: reduced_sum_eq)
qed

lemma reduced_positive: "0 < reduced (m + n) s \<Longrightarrow> 0 \<le> s \<Longrightarrow> 0 < reduced m s"
proof (induction n)
  case (Suc n)
  then show ?case using reduced_decr [of s "m + n"] by (simp del: reduced.simps)
qed simp

lemma reduced_main_0_iff: "reduced k 239726000000 = 0 \<longleftrightarrow> 2207 \<le> k"
proof (cases "2207 \<le> k")
  case True
  have one: "reduced (Suc 2206) 239726000000 = 0"
    by (subst reduced_Suc') (simp add: last_period)
  have "\<not> 0 < reduced (Suc 2206 + (k - Suc 2206)) 239726000000"
    using reduced_positive [of "Suc 2206" "k - Suc 2206" 239726000000] one by auto
  then show ?thesis using True reduced_nonneg [of 239726000000 k] by simp
next
  case False
  have "0 < reduced (k + (2206 - k)) 239726000000" using False last_period by simp
  then have "0 < reduced k 239726000000" by (rule reduced_positive) simp
  then show ?thesis using False by simp
qed

lemma main_subsidy_0_iff:
  "GetBlockSubsidy mainSubsidyHalvingInterval (int h) = 0 \<longleftrightarrow> 193333200 \<le> h"
  using less_eq_div_iff_mult_less_eq [of 87600 2207 h]
  by (simp add: main_subsidy reduced_main_0_iff)

lemma emitted_total: "node_emission.emitted 193333200 = 2099999750459922000"
proof -
  have "node_emission.emitted (2207 * 87600)
      = of_nat 87600 * (\<Sum>j<2207. of_int (reduced j 239726000000))"
    unfolding node_emission.emitted_periods by (simp add: main_subsidy del: of_nat_mult)
  also have "\<dots> = of_nat 87600 * of_int (\<Sum>j<Suc 2206. reduced j 239726000000)" by simp
  also have "\<dots> = 2099999750459922000"
    by (simp only: sum.lessThan_Suc last_period) simp
  finally show ?thesis by simp
qed

lemma emitted_after_end: "193333200 \<le> h \<Longrightarrow> node_emission.emitted h = 2099999750459922000"
proof (induction h rule: dec_induct)
  case (step n)
  then show ?case by (simp add: node_emission.emitted_Suc main_subsidy_0_iff)
qed (rule emitted_total)

lemma main_supply_total:
  assumes "193333200 \<le> h"
  shows "(\<Sum>g<h. GetBlockSubsidy mainSubsidyHalvingInterval (int g)) = 2099999750459922000"
proof -
  have "(of_int (\<Sum>g<h. GetBlockSubsidy mainSubsidyHalvingInterval (int g)) :: rat) = of_int 2099999750459922000"
    using emitted_after_end [OF assms] by (simp add: node_emission.emitted_def)
  then show ?thesis by (simp only: of_int_eq_iff)
qed

text \<open>
  C32: emission stops at a definite height: among the heights a C++ \<open>int\<close> can hold, the subsidy of the main
  chain is zero exactly from 193333200 on, after 2207 reductions; a chain that has come so far has paid out
  20,999,997,504.59922 coins in all, and not one more.
\<close>

theorem main_emission_ends:
  assumes "c_int (int h)"
  shows "(GetBlockSubsidy mainSubsidyHalvingInterval (int h) = 0 \<longleftrightarrow> 193333200 \<le> h) \<and>
    (193333200 \<le> h \<longrightarrow> (\<Sum>g<h. GetBlockSubsidy mainSubsidyHalvingInterval (int g)) = 2099999750459922000)"
  using main_subsidy_0_iff [of h] main_supply_total [of h] by blast

theorem main_emission_ends_witness:
  "GetBlockSubsidy mainSubsidyHalvingInterval (int 193333200) = 0 \<and>
   GetBlockSubsidy mainSubsidyHalvingInterval (int 193333199) \<noteq> 0 \<and>
   (\<Sum>g<193333200. GetBlockSubsidy mainSubsidyHalvingInterval (int g)) = 2099999750459922000"
  using main_emission_ends [of 193333200] main_emission_ends [of 193333199]
  by (simp add: c_int_def)

lemma main_supply_exceeds_MAX_MONEY:
  "of_int MAX_MONEY < (\<Sum>h<8761. of_int (GetBlockSubsidy mainSubsidyHalvingInterval (int h)) :: rat) \<and>
   \<not> MoneyRange (\<Sum>h<8761. GetBlockSubsidy mainSubsidyHalvingInterval (int h))"
proof -
  have sum: "(\<Sum>h<8761. of_int (GetBlockSubsidy mainSubsidyHalvingInterval (int h)) :: rat) = 8761 * 239726000000"
    using emitted_first_period [of 8761] by (simp add: node_emission.emitted_def)
  then have "(of_int (\<Sum>h<8761. GetBlockSubsidy mainSubsidyHalvingInterval (int h)) :: rat) = of_int (8761 * 239726000000)"
    by simp
  then have "(\<Sum>h<8761. GetBlockSubsidy mainSubsidyHalvingInterval (int h)) = 8761 * 239726000000"
    by (simp only: of_int_eq_iff)
  then show ?thesis
    unfolding sum by (simp add: MoneyRange_def MAX_MONEY_def COIN_def)
qed

text \<open>
  C33: however long the main chain, the subsidies of its blocks stay below the 21 billion coins that the emission schedule is
  designed for; but the amount limit was not adapted to the schedule: after 8761 blocks, three days at the
  30-second target, the coins in existence exceed \<open>MAX_MONEY\<close>, so that an output holding them fails
  \<open>MoneyRange\<close>. The unit tests \<open>block_subsidy_test\<close> and \<open>subsidy_limit_test\<close> of \<open>src/test/validation_tests.cpp\<close> still check
  the schedule of Bitcoin (an initial subsidy of 50 coins that halves, a sum of 2099999997690000 within
  \<open>MoneyRange\<close>) and contradict the code of this one.
\<close>

theorem main_supply_limits:
  "(\<forall>n. (\<Sum>h<n. of_int (GetBlockSubsidy mainSubsidyHalvingInterval (int h))) < (21000000000 * of_int COIN :: rat)) \<and>
   of_int MAX_MONEY < (\<Sum>h<8761. of_int (GetBlockSubsidy mainSubsidyHalvingInterval (int h)) :: rat) \<and>
   \<not> MoneyRange (\<Sum>h<8761. GetBlockSubsidy mainSubsidyHalvingInterval (int h))"
  using main_supply_bounded main_supply_exceeds_MAX_MONEY by blast

end
