(* ===== verification/Base58.thy ===== *)
theory Base58
  imports Prelude
begin

text \<open>
  Base58 on both sides: the encoder of the wallet (\<open>base58_encode\<close> of
  \<open>Wallet/src/lib/crypto.rs\<close>) and the decoder of the node (\<open>DecodeBase58\<close> of
  \<open>src/base58.cpp\<close>). Both run the same multiply-and-add pass over a digit vector, which is
  kept here with its least significant digit first, the order in which the passes visit it.
\<close>

section \<open>The encoder of the wallet\<close>

definition ALPHABET :: string where
  "ALPHABET = ''123456789ABCDEFGHJKLMNPQRSTUVWXYZabcdefghijkmnopqrstuvwxyz''"

text \<open>The digits that the loop \<open>while carry > 0\<close> inserts in front.\<close>

fun carry_digits :: "nat \<Rightarrow> nat \<Rightarrow> nat list" where
  "carry_digits b carry = (if b < 2 \<or> carry = 0 then [] else carry mod b # carry_digits b (carry div b))"

declare carry_digits.simps [simp del]

fun mul_add :: "nat \<Rightarrow> nat \<Rightarrow> nat \<Rightarrow> nat list \<Rightarrow> nat list" where
  "mul_add b m carry [] = carry_digits b carry"
| "mul_add b m carry (d # ds) = (carry + d * m) mod b # mul_add b m ((carry + d * m) div b) ds"

definition base58_encode :: "byte list \<Rightarrow> string" where
  "base58_encode data =
     (let leading_zeros = length (takeWhile (\<lambda>b. b = 0) data);
          digits = foldl (\<lambda>ds byte. mul_add 58 256 byte ds) [] (drop leading_zeros data)
      in replicate leading_zeros CHR ''1'' @ map (\<lambda>d. ALPHABET ! d) (rev digits))"

section \<open>The decoder of the node\<close>

text \<open>Rejected is the \<open>false\<close> of the code, Aborted its failed assertion.\<close>

datatype 'a checked = Done 'a | Rejected | Aborted

definition IsSpace :: "char \<Rightarrow> bool" where
  "IsSpace c = (of_char c \<in> {32, 12, 10, 13, 9, 11 :: nat})"

fun index_of :: "char \<Rightarrow> string \<Rightarrow> nat option" where
  "index_of c [] = None"
| "index_of c (d # ds) = (if c = d then Some 0 else map_option Suc (index_of c ds))"

text \<open>The table \<open>mapBase58\<close>: the position of a character in the alphabet.\<close>

definition mapBase58 :: "char \<Rightarrow> nat option" where
  "mapBase58 c = index_of c ALPHABET"

text \<open>
  One pass over a fixed vector of digits in base \<open>b\<close>, which multiplies by \<open>m\<close> and adds: it runs while there is a carry or a used digit, and stops at
  the end of the vector with the carry that is left.
\<close>

fun vector_pass :: "nat \<Rightarrow> nat \<Rightarrow> nat \<Rightarrow> nat \<Rightarrow> nat \<Rightarrow> nat list \<Rightarrow> nat \<times> nat \<times> nat list" where
  "vector_pass b m carry i used [] = (carry, i, [])"
| "vector_pass b m carry i used (x # xs) =
     (if carry \<noteq> 0 \<or> i < used
      then (let (c, j, ys) = vector_pass b m ((carry + m * x) div b) (Suc i) used xs
            in (c, j, (carry + m * x) mod b # ys))
      else (carry, i, x # xs))"

fun decode_chars :: "nat \<Rightarrow> nat \<Rightarrow> string \<Rightarrow> nat \<Rightarrow> nat list \<Rightarrow> (nat \<times> nat list \<times> string) checked" where
  "decode_chars zeroes max_ret [] used b256 = Done (used, b256, [])"
| "decode_chars zeroes max_ret (ch # cs) used b256 =
     (if IsSpace ch then Done (used, b256, ch # cs)
      else (case mapBase58 ch of
        None \<Rightarrow> Rejected
      | Some carry \<Rightarrow>
          (case vector_pass 256 58 carry 0 used b256 of (c, i, b) \<Rightarrow>
             if c \<noteq> 0 then Aborted
             else if max_ret < i + zeroes then Rejected
             else decode_chars zeroes max_ret cs i b)))"

definition DecodeBase58 :: "string \<Rightarrow> nat \<Rightarrow> byte list checked" where
  "DecodeBase58 str max_ret =
     (if CHR 0x00 \<in> set str then Rejected
      else (let psz = dropWhile IsSpace str;
           zeroes = length (takeWhile (\<lambda>c. c = CHR ''1'') psz);
           rest = drop zeroes psz;
           size = length rest * 733 div 1000 + 1
       in if max_ret < zeroes then Rejected
          else (case decode_chars zeroes max_ret rest 0 (replicate size 0) of
            Rejected \<Rightarrow> Rejected | Aborted \<Rightarrow> Aborted
          | Done (used, b256, tail) \<Rightarrow>
              if dropWhile IsSpace tail \<noteq> [] then Rejected
              else Done (replicate zeroes 0 @ rev (take used b256)))))"

section \<open>What a pass computes\<close>

text \<open>\<open>carry_digits b v\<close> is the shortest digit list of \<open>v\<close>, least significant first.\<close>

lemma mul_add_carry_digits:
  assumes "2 \<le> b" "0 < m"
  shows "mul_add b m c (carry_digits b v) = carry_digits b (c + m * v)"
proof (induction v arbitrary: c rule: less_induct)
  case (less v)
  show ?case
  proof (cases "v = 0")
    case False
    have v: "carry_digits b v = v mod b # carry_digits b (v div b)"
      using False assms by (simp add: carry_digits.simps [of b v])
    have split: "c + m * v = c + v mod b * m + b * (m * (v div b))"
      using mult_div_mod_eq [of b v] by (metis add.assoc add.commute add_mult_distrib2 mult.assoc mult.commute)
    have "0 < b" using assms by simp
    then have dm: "(c + m * v) mod b = (c + v mod b * m) mod b"
      "(c + m * v) div b = (c + v mod b * m) div b + m * (v div b)"
      unfolding split by simp_all
    have "carry_digits b (c + m * v)
        = (c + m * v) mod b # carry_digits b ((c + m * v) div b)"
      using False assms by (simp add: carry_digits.simps [of b "c + m * v"])
    moreover have "v div b < v" using False assms by simp
    ultimately show ?thesis
      unfolding v using less.IH [of "v div b"] by (simp add: dm)
  qed (simp add: carry_digits.simps [of b 0])
qed

lemma encode_digits:
  "foldl (\<lambda>ds byte. mul_add 58 256 byte ds) (carry_digits 58 v) data
     = carry_digits 58 (v * 256 ^ length data + undigits 256 data)"
proof (induction data arbitrary: v)
  case (Cons x xs)
  have "mul_add 58 256 x (carry_digits 58 v) = carry_digits 58 (x + 256 * v)"
    by (rule mul_add_carry_digits) simp_all
  with Cons.IH [of "x + 256 * v"] show ?case
    by (simp add: undigits_Cons algebra_simps)
qed simp

lemma base58_encode_eq:
  "base58_encode data = (let z = length (takeWhile (\<lambda>b. b = 0) data) in
     replicate z CHR ''1'' @ map (\<lambda>d. ALPHABET ! d) (rev (carry_digits 58 (undigits 256 (drop z data)))))"
  using encode_digits [of 0] by (simp add: base58_encode_def Let_def carry_digits.simps [of 58 0])

lemma vector_pass_carry:
  assumes "2 \<le> b" "used \<le> i" "length (carry_digits b c) \<le> k"
  shows "vector_pass b m c i used (replicate k 0) = (0, i + length (carry_digits b c),
    carry_digits b c @ replicate (k - length (carry_digits b c)) 0)"
  using assms(2,3)
proof (induction c arbitrary: i k rule: less_induct)
  case (less c)
  show ?case
  proof (cases "c = 0")
    case True
    then show ?thesis using less.prems by (cases k) (simp_all add: carry_digits.simps)
  next
    case False
    have cd: "carry_digits b c = c mod b # carry_digits b (c div b)"
      using False assms(1) by (simp add: carry_digits.simps [of b c])
    then obtain k' where k: "k = Suc k'" using less.prems by (cases k) auto
    have "c div b < c" using False assms(1) by simp
    from less.IH [OF this, of "Suc i" k'] less.prems show ?thesis
      using False by (simp add: cd k)
  qed
qed

lemma vector_pass_mul_add:
  assumes "2 \<le> b" "i + length xs = used" "length (mul_add b m c xs) \<le> length xs + k"
  shows "vector_pass b m c i used (xs @ replicate k 0) = (0, i + length (mul_add b m c xs),
    mul_add b m c xs @ replicate (length xs + k - length (mul_add b m c xs)) 0)"
  using assms(2,3)
proof (induction xs arbitrary: c i)
  case Nil
  then show ?case using vector_pass_carry [OF assms(1), of used i c k] by simp
next
  case (Cons x xs)
  then show ?case using Cons.IH [of "Suc i" "(c + x * m) div b"] by (simp add: mult.commute)
qed

lemma length_carry_digits: "v < b ^ n \<Longrightarrow> length (carry_digits b v) \<le> n"
proof (induction n arbitrary: v)
  case (Suc n)
  show ?case
  proof (cases "b < 2 \<or> v = 0")
    case False
    then have "v div b < b ^ n" using Suc.prems by (simp add: less_mult_imp_div_less mult.commute)
    then have "length (carry_digits b (v div b)) \<le> n" by (rule Suc.IH)
    with False show ?thesis by (simp add: carry_digits.simps [of b v])
  qed (auto simp: carry_digits.simps [of b v])
qed (simp add: carry_digits.simps)

lemma length_carry_digits_mono: "v \<le> w \<Longrightarrow> length (carry_digits b v) \<le> length (carry_digits b w)"
proof (induction w arbitrary: v rule: less_induct)
  case (less w)
  show ?case
  proof (cases "b < 2 \<or> v = 0")
    case False
    then have w: "w \<noteq> 0" "w div b < w" "v div b \<le> w div b" using less.prems by (auto intro: div_le_mono)
    show ?thesis
      using less.IH [OF w(2,3)] False w(1) by (simp add: carry_digits.simps [of b v] carry_digits.simps [of b w])
  qed (auto simp: carry_digits.simps [of b v])
qed

text \<open>The vector of used digits holds the value read so far.\<close>

abbreviation holds :: "nat \<Rightarrow> nat \<Rightarrow> nat \<Rightarrow> nat list" where
  "holds b sz v \<equiv> carry_digits b v @ replicate (sz - length (carry_digits b v)) 0"

lemma vector_pass_holds:
  assumes "2 \<le> b" "0 < m" "m * v + c < b ^ sz"
  shows "vector_pass b m c 0 (length (carry_digits b v)) (holds b sz v)
    = (0, length (carry_digits b (m * v + c)), holds b sz (m * v + c))"
proof -
  let ?cd = "carry_digits b"
  have m: "mul_add b m c (?cd v) = ?cd (m * v + c)"
    using mul_add_carry_digits [OF assms(1,2), of c v] by (simp add: add.commute)
  have "v \<le> m * v" using assms(2) by simp
  then have "v < b ^ sz" using assms(3) by linarith
  then have l: "length (?cd v) \<le> sz" "length (?cd (m * v + c)) \<le> sz"
    using length_carry_digits assms(3) by blast+
  show ?thesis
    using vector_pass_mul_add [OF assms(1), of 0 "?cd v" "length (?cd v)" m c "sz - length (?cd v)"] l
    by (simp add: m)
qed

lemma mapBase58_range: "mapBase58 ch = Some d \<Longrightarrow> d < 58"
proof -
  have "index_of ch xs = Some d \<Longrightarrow> d < length xs" for xs
    by (induction xs arbitrary: d) (auto split: if_splits)
  moreover have "length ALPHABET = 58" by (simp add: ALPHABET_def)
  ultimately show "mapBase58 ch = Some d \<Longrightarrow> d < 58" by (metis mapBase58_def)
qed

lemma scale_le: "x \<le> x * 58 ^ n" for x n :: nat
  using mult_le_mono2 [of 1 "58 ^ n" x] by simp

lemma scale_leD: "x * 58 ^ n \<le> y \<Longrightarrow> x \<le> y" for x n y :: nat
  using scale_le le_trans by blast

lemma decode_chars_not_aborted:
  assumes "(v + 1) * 58 ^ length cs \<le> 256 ^ sz"
  shows "decode_chars zeroes max_ret cs (length (carry_digits 256 v)) (holds 256 sz v) \<noteq> Aborted"
  using assms
proof (induction cs arbitrary: v)
  case (Cons ch cs)
  show ?case
  proof (cases "mapBase58 ch")
    case (Some d)
    have d: "d < 58" by (rule mapBase58_range [OF Some])
    have "(58 * v + d + 1) * 58 ^ length cs \<le> (v + 1) * 58 * 58 ^ length cs"
      using d by (intro mult_le_mono1) simp
    also have "\<dots> = (v + 1) * 58 ^ length (ch # cs)" by (simp add: algebra_simps)
    also have "\<dots> \<le> 256 ^ sz" by (rule Cons.prems)
    finally have le: "(58 * v + d + 1) * 58 ^ length cs \<le> 256 ^ sz" .
    then have "58 * v + d + 1 \<le> 256 ^ sz" by (rule scale_leD)
    then have "vector_pass 256 58 d 0 (length (carry_digits 256 v)) (holds 256 sz v)
        = (0, length (carry_digits 256 (58 * v + d)), holds 256 sz (58 * v + d))"
      by (intro vector_pass_holds) simp_all
    with Some Cons.IH [OF le] show ?thesis by simp
  qed simp
qed simp

lemma size_suffices: "58 ^ n \<le> (256 :: nat) ^ (n * 733 div 1000 + 1)"
proof -
  let ?k = "n * 733 div 1000"
  have base: "(58 :: nat) ^ 71 \<le> 256 ^ 52" by simp
  have "n * 733 < (?k + 1) * 1000" using dividend_less_div_times [of 1000 "n * 733"] by simp
  then have exp: "52 * n \<le> (?k + 1) * 71" by linarith
  have "(58 ^ n) ^ 71 = ((58 :: nat) ^ 71) ^ n" by (simp only: power_mult [symmetric] mult.commute)
  also have "\<dots> \<le> (256 ^ 52) ^ n" by (rule power_mono [OF base]) simp
  also have "\<dots> = 256 ^ (52 * n)" by (simp only: power_mult)
  also have "\<dots> \<le> 256 ^ ((?k + 1) * 71)" by (rule power_increasing [OF exp]) simp
  also have "\<dots> = (256 ^ (?k + 1)) ^ 71" by (simp only: power_mult)
  finally have "((58 :: nat) ^ n) ^ 71 \<le> (256 ^ (?k + 1)) ^ 71" .
  then show ?thesis by (subst (asm) power_mono_iff) (simp_all only: zero_le zero_less_numeral)
qed


lemma DecodeBase58_total: "DecodeBase58 str max_ret \<noteq> Aborted"
proof -
  have nil: "carry_digits 256 0 = []" by (simp add: carry_digits.simps)
  have "decode_chars z max_ret rest 0 (replicate (length rest * 733 div 1000 + 1) 0) \<noteq> Aborted" for z rest
    using decode_chars_not_aborted [of 0 rest "length rest * 733 div 1000 + 1" z max_ret] size_suffices [of "length rest"]
    by (simp add: nil)
  then show ?thesis
    unfolding DecodeBase58_def Let_def by (simp split: checked.splits prod.splits del: length_drop replicate_Suc Suc_eq_plus1 add_Suc_right)
qed

text \<open>The digits of the alphabet read back.\<close>

lemma alphabet_tables:
  "list_all (\<lambda>d. mapBase58 (ALPHABET ! d) = Some d \<and> \<not> IsSpace (ALPHABET ! d) \<and> ALPHABET ! d \<noteq> CHR 0x00) [0..<58]"
  by code_simp

lemma mapBase58_alphabet:
  assumes "d < 58"
  shows "mapBase58 (ALPHABET ! d) = Some d" "\<not> IsSpace (ALPHABET ! d)" "ALPHABET ! d \<noteq> CHR 0x00"
  using alphabet_tables assms by (simp_all add: list_all_iff)

lemma alphabet_one: "d < 58 \<Longrightarrow> ALPHABET ! d = CHR ''1'' \<longleftrightarrow> d = 0"
proof -
  have "ALPHABET ! 0 = CHR ''1''" by (simp add: ALPHABET_def)
  then show "d < 58 \<Longrightarrow> ALPHABET ! d = CHR ''1'' \<longleftrightarrow> d = 0"
    using mapBase58_alphabet(1) [of d] mapBase58_alphabet(1) [of 0] by auto
qed

lemma carry_digits_less: "2 \<le> b \<Longrightarrow> list_all (\<lambda>d. d < b) (carry_digits b v)"
proof (induction v rule: less_induct)
  case (less v)
  then show ?case by (cases "v = 0") (simp_all add: carry_digits.simps [of b v] carry_digits.simps [of b 0])
qed

lemma undigits_carry_digits: "2 \<le> b \<Longrightarrow> undigits b (rev (carry_digits b v)) = v"
proof (induction v rule: less_induct)
  case (less v)
  then show ?case
    by (cases "v = 0") (simp_all add: carry_digits.simps [of b v] carry_digits.simps [of b 0])
qed

text \<open>A digit list without a leading zero is the shortest one of its value.\<close>

lemma carry_digits_undigits:
  assumes "2 \<le> b" "list_all (\<lambda>d. d < b) xs" "xs \<noteq> [] \<Longrightarrow> hd xs \<noteq> 0"
  shows "rev (carry_digits b (undigits b xs)) = xs"
  using assms(2,3)
proof (induction xs rule: rev_induct)
  case (snoc x xs)
  have x: "x < b" using snoc.prems by simp
  have "undigits b (xs @ [x]) \<noteq> 0"
  proof (cases xs)
    case Nil
    then show ?thesis using snoc.prems by simp
  next
    case (Cons y ys)
    then have "undigits b xs \<noteq> 0" using snoc.prems assms(1) by (simp add: undigits_Cons)
    then show ?thesis using assms(1) by simp
  qed
  then have "carry_digits b (undigits b (xs @ [x])) = x # carry_digits b (undigits b xs)"
    using x assms(1) by (simp add: carry_digits.simps [of b "undigits b xs * b + x"])
  moreover have "rev (carry_digits b (undigits b xs)) = xs"
    using snoc by (cases xs) (auto simp: carry_digits.simps [of b 0])
  ultimately show ?case by simp
qed (simp add: carry_digits.simps [of b 0])

lemma last_carry_digits: "2 \<le> b \<Longrightarrow> v \<noteq> 0 \<Longrightarrow> carry_digits b v \<noteq> [] \<and> last (carry_digits b v) \<noteq> 0"
proof (induction v rule: less_induct)
  case (less v)
  have cd: "carry_digits b v = v mod b # carry_digits b (v div b)"
    using less.prems by (simp add: carry_digits.simps [of b v])
  show ?case
  proof (cases "v div b = 0")
    case True
    then have "v < b" using less.prems by (simp add: div_eq_0_iff)
    then show ?thesis using less.prems True by (simp add: cd carry_digits.simps [of b 0])
  next
    case False
    then show ?thesis using less.IH [of "v div b"] less.prems by (simp add: cd)
  qed
qed

lemma decode_chars_digits:
  assumes "list_all (\<lambda>d. d < 58) ds" "(v + 1) * 58 ^ length ds \<le> 256 ^ sz"
    and "length (carry_digits 256 (v * 58 ^ length ds + undigits 58 ds)) + z \<le> max_ret"
  shows "decode_chars z max_ret (map (\<lambda>d. ALPHABET ! d) ds) (length (carry_digits 256 v)) (holds 256 sz v)
    = Done (length (carry_digits 256 (v * 58 ^ length ds + undigits 58 ds)),
        holds 256 sz (v * 58 ^ length ds + undigits 58 ds), [])"
  using assms
proof (induction ds arbitrary: v)
  case (Cons d ds)
  let ?v = "58 * v + d" and ?n = "length ds"
  have d: "d < 58" using Cons.prems by simp
  have "(?v + 1) * 58 ^ ?n \<le> (v + 1) * 58 * 58 ^ ?n" using d by (intro mult_le_mono1) simp
  also have "\<dots> = (v + 1) * 58 ^ length (d # ds)" by (simp add: algebra_simps)
  also have "\<dots> \<le> 256 ^ sz" by (rule Cons.prems)
  finally have le: "(?v + 1) * 58 ^ ?n \<le> 256 ^ sz" .
  then have "?v + 1 \<le> 256 ^ sz" by (rule scale_leD)
  then have pass: "vector_pass 256 58 d 0 (length (carry_digits 256 v)) (holds 256 sz v)
      = (0, length (carry_digits 256 ?v), holds 256 sz ?v)"
    by (intro vector_pass_holds) simp_all
  have w: "v * 58 ^ length (d # ds) + undigits 58 (d # ds) = ?v * 58 ^ ?n + undigits 58 ds"
    by (simp add: undigits_Cons algebra_simps)
  have fits: "length (carry_digits 256 (?v * 58 ^ ?n + undigits 58 ds)) + z \<le> max_ret"
    using Cons.prems(3) unfolding w .
  have "?v \<le> ?v * 58 ^ ?n + undigits 58 ds" by (rule trans_le_add1 [OF scale_le])
  then have "length (carry_digits 256 ?v) + z \<le> max_ret"
    using length_carry_digits_mono [of ?v "?v * 58 ^ ?n + undigits 58 ds" 256] fits by linarith
  moreover have "list_all (\<lambda>d. d < 58) ds" using Cons.prems(1) by simp
  note Cons.IH [OF this le fits]
  ultimately show ?case
    unfolding w using pass mapBase58_alphabet [OF d] by simp
qed simp

lemma leading_zeros_split:
  fixes data :: "nat list"
  defines "z \<equiv> length (takeWhile (\<lambda>b. b = 0) data)"
  shows "data = replicate z 0 @ drop z data" "drop z data \<noteq> [] \<Longrightarrow> hd (drop z data) \<noteq> 0"
proof -
  have rep: "takeWhile (\<lambda>b. b = 0) data = replicate z 0"
    unfolding z_def by (rule replicate_eqI) (auto dest: set_takeWhileD)
  have dw: "dropWhile (\<lambda>b. b = 0) data = drop z data" unfolding z_def by (rule dropWhile_eq_drop)
  show "data = replicate z 0 @ drop z data"
    using takeWhile_dropWhile_id [of "\<lambda>b. b = 0" data] unfolding rep dw by (rule sym)
  show "drop z data \<noteq> [] \<Longrightarrow> hd (drop z data) \<noteq> 0"
    using hd_dropWhile [of "\<lambda>b. b = 0" data] unfolding dw .
qed

lemma decode_digits:
  assumes ds: "list_all (\<lambda>d. d < 58) ds" "ds \<noteq> [] \<Longrightarrow> hd ds \<noteq> 0"
    and fits: "z + length (carry_digits 256 (undigits 58 ds)) \<le> max_ret"
  shows "DecodeBase58 (replicate z CHR ''1'' @ map (\<lambda>d. ALPHABET ! d) ds) max_ret
    = Done (replicate z 0 @ rev (carry_digits 256 (undigits 58 ds)))"
proof -
  let ?s = "replicate z CHR ''1'' @ map (\<lambda>d. ALPHABET ! d) ds"
  let ?n = "length ds * 733 div 1000 + 1" and ?V = "undigits 58 ds"
  have nil: "carry_digits 256 0 = []" by (simp add: carry_digits.simps)
  have plain: "\<not> IsSpace c \<and> c \<noteq> CHR 0x00" if "c \<in> set ?s" for c
    using that ds(1) mapBase58_alphabet(2,3) by (auto simp: list_all_iff IsSpace_def)
  have space: "dropWhile IsSpace ?s = ?s"
    using plain by (cases ?s) (auto simp del: replicate_Suc)
  have nul: "CHR 0x00 \<notin> set ?s" using plain by blast
  have ones: "takeWhile (\<lambda>c. c = CHR ''1'') ?s = replicate z CHR ''1''"
  proof (cases ds)
    case (Cons d ds')
    then have "ALPHABET ! d \<noteq> CHR ''1''" using ds alphabet_one [of d] by simp
    then show ?thesis using Cons by (simp add: takeWhile_append)
  qed (simp add: takeWhile_append)
  have run: "decode_chars z max_ret (map (\<lambda>d. ALPHABET ! d) ds) 0 (replicate ?n 0)
      = Done (length (carry_digits 256 ?V), holds 256 ?n ?V, [])"
    using decode_chars_digits [OF ds(1), of 0 ?n z max_ret] size_suffices [of "length ds"] fits
    by (simp add: nil add.commute)
  have "DecodeBase58 ?s max_ret = (case decode_chars z max_ret (map (\<lambda>d. ALPHABET ! d) ds) 0 (replicate ?n 0) of
      Rejected \<Rightarrow> Rejected | Aborted \<Rightarrow> Aborted
    | Done (used, b256, tail) \<Rightarrow> if dropWhile IsSpace tail \<noteq> [] then Rejected
        else Done (replicate z 0 @ rev (take used b256)))"
    unfolding DecodeBase58_def Let_def space ones length_replicate using nul fits
    by (simp del: replicate_Suc Suc_eq_plus1 add_Suc_right)
  then show ?thesis unfolding run by simp
qed

lemma DecodeBase58_encode:
  assumes "list_all (\<lambda>b. b < 256) data" "length data \<le> max_ret"
  shows "DecodeBase58 (base58_encode data) max_ret = Done data"
proof -
  define z where "z = length (takeWhile (\<lambda>b. b = 0) data)"
  define body where "body = drop z data"
  note b = z_def body_def leading_zeros_split [of data, folded z_def, folded body_def]
  let ?V = "undigits 256 body"
  let ?ds = "rev (carry_digits 58 ?V)"
  have enc: "base58_encode data = replicate z CHR ''1'' @ map (\<lambda>d. ALPHABET ! d) ?ds"
    unfolding base58_encode_eq Let_def b(1) [symmetric] b(2) [symmetric] ..
  have "list_all (\<lambda>b. b < 256) body" using assms(1) b(3) by (metis list_all_append)
  then have body: "rev (carry_digits 256 ?V) = body" by (intro carry_digits_undigits b(4)) simp_all
  then have len: "z + length (carry_digits 256 ?V) \<le> max_ret"
    using assms(2) b(3) by (metis length_append length_replicate length_rev)
  have V: "undigits 58 ?ds = ?V" by (rule undigits_carry_digits) simp
  have ds: "list_all (\<lambda>d. d < 58) ?ds" using carry_digits_less [of 58 ?V] by (simp add: list_all_iff)
  have hd: "hd ?ds \<noteq> 0" if "?ds \<noteq> []"
    using that last_carry_digits [of 58 ?V] by (cases "?V = 0") (auto simp: hd_rev carry_digits.simps [of 58 0])
  show ?thesis
    using decode_digits [OF ds hd, of z max_ret] len unfolding V enc body b(3) [symmetric] by simp
qed

section \<open>Properties\<close>

text \<open>
  C5: the node reads what the wallet writes: decoding the Base58 text of any byte list, leading
  zero bytes included, returns that byte list, as long as it has at most \<open>max_ret\<close> bytes.
\<close>

theorem base58_round_trip:
  assumes "list_all (\<lambda>b. b < 256) data" "length data \<le> max_ret"
  shows "DecodeBase58 (base58_encode data) max_ret = Done data"
  using assms by (rule DecodeBase58_encode)

theorem base58_round_trip_witness: "DecodeBase58 (base58_encode [0, 0, 35, 255, 7]) 21 = Done [0, 0, 35, 255, 7]"
  by (rule base58_round_trip) simp_all

text \<open>
  The digit vector of the encoder is positional notation: after the leading ones, the
  text has the digits in base 58 of the number that the bytes denote in base 256, without leading
  zeros.
\<close>

theorem base58_encode_positional:
  "\<exists>ds. base58_encode data = replicate (length (takeWhile (\<lambda>b. b = 0) data)) CHR ''1'' @ map (\<lambda>d. ALPHABET ! d) ds \<and>
     list_all (\<lambda>d. d < 58) ds \<and> undigits 58 ds = undigits 256 data \<and> (ds \<noteq> [] \<longrightarrow> hd ds \<noteq> 0)"
proof -
  define z where "z = length (takeWhile (\<lambda>b. b = 0) data)"
  let ?ds = "rev (carry_digits 58 (undigits 256 (drop z data)))"
  have "undigits 256 (replicate k 0 @ xs) = undigits 256 xs" for k xs
    by (induction k) (simp_all add: undigits_def)
  then have v: "undigits 256 data = undigits 256 (drop z data)"
    using leading_zeros_split(1) [of data, folded z_def] by metis
  have "hd ?ds \<noteq> 0" if "?ds \<noteq> []"
    using that last_carry_digits [of 58 "undigits 256 (drop z data)"]
    by (cases "undigits 256 (drop z data) = 0") (auto simp: hd_rev carry_digits.simps [of 58 0])
  moreover have "list_all (\<lambda>d. d < 58) ?ds" using carry_digits_less [of 58] by (simp add: list_all_iff)
  ultimately show ?thesis
    unfolding base58_encode_eq Let_def z_def [symmetric]
    by (intro exI [of _ ?ds]) (simp add: v undigits_carry_digits)
qed

theorem base58_encode_positional_witness:
  "\<exists>ds. base58_encode [0, 35] = replicate (length (takeWhile (\<lambda>b. b = 0) [0, 35 :: nat])) CHR ''1'' @ map (\<lambda>d. ALPHABET ! d) ds \<and>
     undigits 58 ds = undigits 256 [0, 35] \<and> ds \<noteq> []"
proof -
  have "base58_encode [0, 35] = ''1c''" by code_simp
  with base58_encode_positional [of "[0, 35]"] show ?thesis by fastforce
qed

end
