(* ===== verification/Codec.thy ===== *)
theory Codec
  imports Http
begin

text \<open>
  Text encodings of bytes, as an interface: a decoder that inverts an encoder on the valid
  values. The hexadecimal functions of the wallet's Rust core (\<open>hex_encode\<close>, \<open>hex_decode\<close> of
  \<open>Wallet/src/lib/crypto.rs\<close>) and of its script (\<open>hexToBytes\<close> of \<open>Wallet/src/scripts/run.ts\<close>)
  and the Base64 pair of \<open>Http\<close> provide it.
\<close>

section \<open>The interface\<close>

locale codec =
  fixes encode :: "'a \<Rightarrow> string" and decode :: "string \<Rightarrow> 'a option" and valid :: "'a \<Rightarrow> bool"
  assumes decode_encode: "valid x \<Longrightarrow> decode (encode x) = Some x"
begin

lemma encode_inj: "valid x \<Longrightarrow> valid y \<Longrightarrow> encode x = encode y \<longleftrightarrow> x = y"
  by (metis decode_encode option.inject)

lemma encode_inj_on: "inj_on encode {x. valid x}"
  by (rule inj_onI) (simp add: encode_inj)

end

abbreviation bytes :: "byte list \<Rightarrow> bool" where
  "bytes bs \<equiv> list_all (\<lambda>b. b < 256) bs"

interpretation b64: codec base64 DecodeBase64 bytes
  by unfold_locales (rule DecodeBase64_base64)

section \<open>Hexadecimal in the Rust core\<close>

text \<open>A Rust computation returns a result, an error, or panics.\<close>

datatype 'a rust = ROk 'a | RErr string | RPanic string

definition bind_rust :: "'a rust \<Rightarrow> ('a \<Rightarrow> 'b rust) \<Rightarrow> 'b rust" where
  "bind_rust m k = (case m of ROk x \<Rightarrow> k x | RErr e \<Rightarrow> RErr e | RPanic p \<Rightarrow> RPanic p)"

lemma bind_rust_simps [simp]:
  "bind_rust (ROk x) k = k x" "bind_rust (RErr e) k = RErr e" "bind_rust (RPanic p) k = RPanic p"
  by (simp_all add: bind_rust_def)

definition hex_encode :: "byte list \<Rightarrow> string" where
  "hex_encode data = concat (map (\<lambda>b. [digit_char (b div 16), digit_char (b mod 16)]) data)"

definition hex_val :: "byte \<Rightarrow> nat option" where
  "hex_val b = (if b < 128 then (case char_digit (char_of b) of
     Some d \<Rightarrow> if d < 16 then Some d else None | None \<Rightarrow> None) else None)"

text \<open>
  \<open>u8::from_str_radix\<close> on two bytes of text: a leading plus sign is accepted, a minus sign is
  not, for an unsigned type.
\<close>

definition from_str_radix2 :: "byte \<Rightarrow> byte \<Rightarrow> byte option" where
  "from_str_radix2 a b = (if a = 43 then hex_val b
     else (case (hex_val a, hex_val b) of (Some x, Some y) \<Rightarrow> Some (x * 16 + y) | _ \<Rightarrow> None))"

definition continuation :: "byte \<Rightarrow> bool" where
  "continuation b = (128 \<le> b \<and> b < 192)"

text \<open>\<open>&s[i..i + 2]\<close> panics when an end of the slice is inside a character.\<close>

fun hex_pairs :: "byte list \<Rightarrow> byte list rust" where
  "hex_pairs (a # b # rest) =
     (if continuation a \<or> (rest \<noteq> [] \<and> continuation (hd rest)) then RPanic ''byte index is not a char boundary''
      else (case from_str_radix2 a b of
        None \<Rightarrow> RErr ''Invalid hex character''
      | Some x \<Rightarrow> bind_rust (hex_pairs rest) (\<lambda>xs. ROk (x # xs))))"
| "hex_pairs _ = ROk []"

definition hex_decode :: "string \<Rightarrow> byte list rust" where
  "hex_decode s = (if length (utf8 s) mod 2 \<noteq> 0 then RErr ''Hex string must have even length''
     else hex_pairs (utf8 s))"

section \<open>Hexadecimal in the script\<close>

text \<open>
  \<open>hexToBytes\<close>: the typed array has \<open>hex.length / 2\<close> elements, and a length that is not an
  integer is a \<open>RangeError\<close>. A pair that \<open>parseInt\<close> does not understand gives \<open>NaN\<close>, which the
  array stores as 0; what it does understand, it stores modulo 256.
\<close>

definition to_uint8 :: "number \<Rightarrow> byte" where
  "to_uint8 a = (case val a of None \<Rightarrow> 0 | Some r \<Rightarrow> nat ((if 0 \<le> r then \<lfloor>r\<rfloor> else \<lceil>r\<rceil>) mod 256))"

fun pairs_to_bytes :: "string \<Rightarrow> byte list" where
  "pairs_to_bytes (a # b # rest) = to_uint8 (parse_int 16 [a, b]) # pairs_to_bytes rest"
| "pairs_to_bytes _ = []"

definition hexToBytes :: "string \<Rightarrow> byte list outcome" where
  "hexToBytes hex = (if length hex mod 2 \<noteq> 0
     then Throw (RangeError (''Invalid typed array length: '' @ num_to_string (js_div (Num (of_nat (length hex))) (Num 2))))
     else Ok (pairs_to_bytes hex))"

section \<open>Both invert the encoder\<close>

lemma hex_val_digit: "d < 16 \<Longrightarrow> hex_val (of_char (digit_char d)) = Some d"
proof -
  assume "d < 16"
  moreover from this have "of_char (digit_char d) < (128 :: nat)" by (simp add: digit_char_def)
  ultimately show ?thesis by (simp add: hex_val_def)
qed

lemma digit_char_ascii:
  assumes "d < 16"
  shows "of_char (digit_char d) < (128 :: nat)" "of_char (digit_char d) \<noteq> (43 :: nat)"
  using assms by (simp_all add: digit_char_def)

lemma utf8_hex: "bytes bs \<Longrightarrow> utf8 (hex_encode bs) = concat (map (\<lambda>b. [of_char (digit_char (b div 16)), of_char (digit_char (b mod 16))]) bs)"
proof (induction bs)
  case (Cons b bs)
  then have "b div 16 < 16" "b mod 16 < 16" by (simp_all add: less_mult_imp_div_less)
  with Cons digit_char_ascii show ?case by (simp add: hex_encode_def utf8_def Let_def)
qed (simp add: hex_encode_def utf8_def)

lemma hex_decode_encode: "bytes bs \<Longrightarrow> hex_decode (hex_encode bs) = ROk bs"
proof -
  assume bs: "bytes bs"
  have len: "length (concat (map (\<lambda>b. [f b, g b]) xs)) = 2 * length xs" for f g :: "nat \<Rightarrow> nat" and xs
    by (induction xs) simp_all
  have pairs: "hex_pairs (concat (map (\<lambda>b. [of_char (digit_char (b div 16)), of_char (digit_char (b mod 16))]) bs)) = ROk bs"
    using bs
  proof (induction bs)
    case (Cons b bs)
    let ?t = "\<lambda>bs. concat (map (\<lambda>b. [of_char (digit_char (b div 16)), of_char (digit_char (b mod 16))]) bs) :: nat list"
    have b: "b div 16 < 16" "b mod 16 < 16" using Cons.prems by (simp_all add: less_mult_imp_div_less)
    have next_ok: "\<not> (?t bs \<noteq> [] \<and> continuation (hd (?t bs)))"
    proof (cases bs)
      case (Cons c cs)
      with Cons.prems have "c div 16 < 16" by (simp add: less_mult_imp_div_less)
      with Cons digit_char_ascii(1) [of "c div 16"] show ?thesis by (simp add: continuation_def)
    qed simp
    have "from_str_radix2 (of_char (digit_char (b div 16))) (of_char (digit_char (b mod 16))) = Some b"
      using b digit_char_ascii(2) [OF b(1)] by (simp add: from_str_radix2_def hex_val_digit)
    moreover have "\<not> continuation (of_char (digit_char (b div 16)))"
      using digit_char_ascii(1) [OF b(1)] by (simp add: continuation_def)
    ultimately show ?case using Cons next_ok by simp
  qed simp
  show ?thesis
    using pairs len [of _ _ bs] by (simp add: hex_decode_def utf8_hex [OF bs])
qed

lemma digit_char_plain:
  assumes "d < 16"
  shows "\<not> is_space (digit_char d)" "digit_char d \<notin> {CHR ''-'', CHR ''+'', CHR ''x'', CHR ''X''}"
proof -
  show "\<not> is_space (digit_char d)" using assms by (simp add: is_space_def digit_char_def)
  have "char_digit CHR ''-'' = None" "char_digit CHR ''+'' = None" "char_digit CHR ''x'' = Some 33"
    "char_digit CHR ''X'' = Some 33"
    by (simp_all add: char_digit_def)
  then show "digit_char d \<notin> {CHR ''-'', CHR ''+'', CHR ''x'', CHR ''X''}"
    using char_digit_digit_char [of d] assms by (auto simp del: char_digit_digit_char)
qed

lemma parse_int_pair:
  assumes "a < 16" "b < 16"
  shows "parse_int 16 [digit_char a, digit_char b] = Num (of_nat (a * 16 + b))"
proof -
  note pa = digit_char_plain [OF assms(1)] and pb = digit_char_plain [OF assms(2)]
  have rp: "radix_prefix 16 [digit_char a, digit_char b] = [a, b]"
    using radix_prefix_digits [of 16 "[a, b]"] assms by simp
  have "undigits 16 [a, b] = a * 16 + b" by (simp add: undigits_def)
  moreover have "a * 16 + b \<le> 2 ^ 53" using assms by simp
  ultimately show ?thesis
    using pa pb fl_nat [of "a * 16 + b"]
    by (auto simp: parse_int_def strip_sign_def rp simp del: of_nat_add of_nat_mult radix_prefix.simps)
qed

lemma pairs_to_bytes_encode: "bytes bs \<Longrightarrow> pairs_to_bytes (hex_encode bs) = bs"
proof (induction bs)
  case (Cons b bs)
  then have b: "b div 16 < 16" "b mod 16 < 16" "b < 256" by (simp_all add: less_mult_imp_div_less)
  have "to_uint8 (Num (of_nat n)) = n" if "n < 256" for n
    using that by (simp add: to_uint8_def nat_mod_distrib)
  with Cons b parse_int_pair [OF b(1,2)] show ?case
    by (simp add: hex_encode_def del: of_nat_add of_nat_mult)
qed (simp add: hex_encode_def)

lemma length_hex_encode: "length (hex_encode bs) = 2 * length bs"
  by (induction bs) (simp_all add: hex_encode_def)

lemma hexToBytes_encode: "bytes bs \<Longrightarrow> hexToBytes (hex_encode bs) = Ok bs"
  by (simp add: hexToBytes_def length_hex_encode pairs_to_bytes_encode)

interpretation rust_hex: codec hex_encode "\<lambda>s. case hex_decode s of ROk bs \<Rightarrow> Some bs | _ \<Rightarrow> None" bytes
  by unfold_locales (simp add: hex_decode_encode)

interpretation script_hex: codec hex_encode "\<lambda>s. case hexToBytes s of Ok bs \<Rightarrow> Some bs | _ \<Rightarrow> None" bytes
  by unfold_locales (simp add: hexToBytes_encode)


section \<open>Properties\<close>

text \<open>
  C23: the wallet's two hexadecimal decoders both invert its encoder: every list of bytes
  survives \<open>hex_encode\<close> followed by \<open>hex_decode\<close> in the core or \<open>hexToBytes\<close> in the script.
\<close>

theorem hex_round_trip:
  assumes "bytes bs"
  shows "hex_decode (hex_encode bs) = ROk bs \<and> hexToBytes (hex_encode bs) = Ok bs"
  using assms by (simp add: hex_decode_encode hexToBytes_encode)

theorem hex_round_trip_witness: "hex_decode (hex_encode [0, 15, 171, 255]) = ROk [0, 15, 171, 255]"
  using hex_round_trip [of "[0, 15, 171, 255]"] by simp

text \<open>
  The decoders differ outside the image of the encoder. The core accepts a sign before a
  single digit, so two texts denote the same key, and panics on some text that is not ASCII; the script
  reads text that is not hexadecimal as zeros.
\<close>

theorem hex_decoders_lenient:
  "hex_decode ''+f'' = ROk [15] \<and> hex_decode ''0f'' = ROk [15] \<and>
   hex_decode ''zz'' = RErr ''Invalid hex character'' \<and> hexToBytes ''zz'' = Ok [0] \<and>
   hex_decode [CHR ''a'', CHR 0xE9, CHR ''b''] = RPanic ''byte index is not a char boundary''"
  by (intro conjI; code_simp)

end
