(* ===== verification/Address.thy ===== *)
theory Address
  imports Base58 Codec
begin

text \<open>
  Addresses on the node: Base58 with a checksum (\<open>EncodeBase58\<close>, \<open>EncodeBase58Check\<close>,
  \<open>DecodeBase58Check\<close> of \<open>src/base58.cpp\<close>) and the Base58 part of \<open>DecodeDestination\<close> and
  \<open>DestinationEncoder\<close> (\<open>src/key_io.cpp\<close>). The double SHA-256 \<open>Hash\<close> is a parameter, as is
  what \<open>DecodeDestination\<close> does with text that has the Bech32 prefix.
\<close>

section \<open>The encoder of the node\<close>

fun encode_bytes :: "byte list \<Rightarrow> nat \<Rightarrow> nat list \<Rightarrow> (nat \<times> nat list) checked" where
  "encode_bytes [] used b58 = Done (used, b58)"
| "encode_bytes (x # xs) used b58 =
     (case vector_pass 58 256 x 0 used b58 of (c, i, b) \<Rightarrow>
        if c \<noteq> 0 then Aborted else encode_bytes xs i b)"

definition EncodeBase58 :: "byte list \<Rightarrow> string checked" where
  "EncodeBase58 input =
     (let zeroes = length (takeWhile (\<lambda>b. b = 0) input);
          rest = drop zeroes input;
          size = length rest * 138 div 100 + 1
      in case encode_bytes rest 0 (replicate size 0) of
           Done (used, b58) \<Rightarrow> Done (replicate zeroes CHR ''1'' @
             map (\<lambda>d. ALPHABET ! d) (dropWhile (\<lambda>d. d = 0) (rev (take used b58))))
         | Rejected \<Rightarrow> Rejected | Aborted \<Rightarrow> Aborted)"

definition EncodeBase58Check :: "(byte list \<Rightarrow> byte list) \<Rightarrow> byte list \<Rightarrow> string checked" where
  "EncodeBase58Check Hash input = EncodeBase58 (input @ take 4 (Hash input))"

definition DecodeBase58Check :: "(byte list \<Rightarrow> byte list) \<Rightarrow> string \<Rightarrow> nat \<Rightarrow> byte list checked" where
  "DecodeBase58Check Hash str max_ret =
     (case DecodeBase58 str (if 2147483643 < max_ret then 2147483647 else max_ret + 4) of
        Done vch \<Rightarrow>
          if length vch < 4 then Rejected
          else (let body = take (length vch - 4) vch in
            if take 4 (Hash body) \<noteq> drop (length vch - 4) vch then Rejected else Done body)
      | Rejected \<Rightarrow> Rejected | Aborted \<Rightarrow> Aborted)"

section \<open>Destinations\<close>

datatype destination = PKHash "byte list" | ScriptHash "byte list" | OtherDestination string
  | CNoDestination string

record address_params =
  pubkey_prefix :: "byte list"
  script_prefix :: "byte list"
  bech32_hrp :: string

definition mainAddressParams :: address_params where
  "mainAddressParams = \<lparr>pubkey_prefix = [35], script_prefix = [85], bech32_hrp = ''ret''\<rparr>"

definition has_prefix :: "'a list \<Rightarrow> 'a list \<Rightarrow> bool" where
  "has_prefix p xs = (take (length p) xs = p)"

definition base58_destination :: "address_params \<Rightarrow> byte list \<Rightarrow> destination" where
  "base58_destination params data =
     (if length data = 20 + length (pubkey_prefix params) \<and> has_prefix (pubkey_prefix params) data
      then PKHash (drop (length (pubkey_prefix params)) data)
      else if length data = 20 + length (script_prefix params) \<and> has_prefix (script_prefix params) data
      then ScriptHash (drop (length (script_prefix params)) data)
      else if has_prefix (script_prefix params) data \<or> has_prefix (pubkey_prefix params) data
      then CNoDestination ''Invalid length for Base58 address (P2PKH or P2SH)''
      else CNoDestination ''Invalid or unsupported Base58-encoded address.'')"

definition lower :: "string \<Rightarrow> string" where
  "lower = map (\<lambda>ch. let k = of_char ch in if 65 \<le> k \<and> k \<le> (90 :: nat) then char_of (k + 32) else ch)"

definition DecodeDestination ::
  "(byte list \<Rightarrow> byte list) \<Rightarrow> (string \<Rightarrow> destination) \<Rightarrow> address_params \<Rightarrow> string \<Rightarrow> destination checked" where
  "DecodeDestination Hash bech32 params str =
     (if lower (take (length (bech32_hrp params)) str) = bech32_hrp params then Done (bech32 str)
      else (case DecodeBase58Check Hash str 21 of
        Done data \<Rightarrow> Done (base58_destination params data)
      | Aborted \<Rightarrow> Aborted
      | Rejected \<Rightarrow> (case DecodeBase58 str 100 of
          Rejected \<Rightarrow> Done (CNoDestination ''Invalid or unsupported Segwit (Bech32) or Base58 encoding.'')
        | Done _ \<Rightarrow> Done (CNoDestination ''Invalid checksum or length of Base58 address (P2PKH or P2SH)'')
        | Aborted \<Rightarrow> Aborted)))"

text \<open>\<open>DestinationEncoder\<close> on the two kinds of destination that Base58 writes.\<close>

fun EncodeDestination :: "(byte list \<Rightarrow> byte list) \<Rightarrow> (destination \<Rightarrow> string) \<Rightarrow> address_params \<Rightarrow> destination \<Rightarrow> string checked" where
  "EncodeDestination Hash bech32 params (PKHash h) = EncodeBase58Check Hash (pubkey_prefix params @ h)"
| "EncodeDestination Hash bech32 params (ScriptHash h) = EncodeBase58Check Hash (script_prefix params @ h)"
| "EncodeDestination Hash bech32 params (CNoDestination e) = Done []"
| "EncodeDestination Hash bech32 params d = Done (bech32 d)"

section \<open>The two encoders agree\<close>

lemma encode_size_suffices: "256 ^ n \<le> (58 :: nat) ^ (n * 138 div 100 + 1)"
proof -
  let ?k = "n * 138 div 100"
  have base: "(256 :: nat) ^ 100 \<le> 58 ^ 137" by simp
  have "n * 138 < (?k + 1) * 100" using dividend_less_div_times [of 100 "n * 138"] by simp
  then have exp: "137 * n \<le> (?k + 1) * 100" by linarith
  have "(256 ^ n) ^ 100 = ((256 :: nat) ^ 100) ^ n" by (simp only: power_mult [symmetric] mult.commute)
  also have "\<dots> \<le> (58 ^ 137) ^ n" by (rule power_mono [OF base]) simp
  also have "\<dots> = 58 ^ (137 * n)" by (simp only: power_mult)
  also have "\<dots> \<le> 58 ^ ((?k + 1) * 100)" by (rule power_increasing [OF exp]) simp
  also have "\<dots> = (58 ^ (?k + 1)) ^ 100" by (simp only: power_mult)
  finally have "((256 :: nat) ^ n) ^ 100 \<le> (58 ^ (?k + 1)) ^ 100" .
  then show ?thesis by (subst (asm) power_mono_iff) (simp_all only: zero_le zero_less_numeral)
qed

lemma encode_bytes_holds:
  assumes "bytes xs" "(v + 1) * 256 ^ length xs \<le> 58 ^ sz"
  shows "encode_bytes xs (length (carry_digits 58 v)) (holds 58 sz v)
    = Done (length (carry_digits 58 (v * 256 ^ length xs + undigits 256 xs)), holds 58 sz (v * 256 ^ length xs + undigits 256 xs))"
  using assms
proof (induction xs arbitrary: v)
  case (Cons x xs)
  let ?v = "256 * v + x"
  have "(?v + 1) * 256 ^ length xs \<le> (v + 1) * 256 * 256 ^ length xs"
    using Cons.prems(1) by (intro mult_le_mono1) simp
  also have "\<dots> = (v + 1) * 256 ^ length (x # xs)" by (simp add: algebra_simps)
  also have "\<dots> \<le> 58 ^ sz" by (rule Cons.prems)
  finally have le: "(?v + 1) * 256 ^ length xs \<le> 58 ^ sz" .
  have "?v + 1 \<le> (?v + 1) * 256 ^ length xs" using mult_le_mono2 [of 1 "256 ^ length xs" "?v + 1"] by simp
  then have "?v < 58 ^ sz" using le by linarith
  then have pass: "vector_pass 58 256 x 0 (length (carry_digits 58 v)) (holds 58 sz v)
      = (0, length (carry_digits 58 ?v), holds 58 sz ?v)"
    by (intro vector_pass_holds) simp_all
  have w: "v * 256 ^ length (x # xs) + undigits 256 (x # xs) = ?v * 256 ^ length xs + undigits 256 xs"
    by (simp add: undigits_Cons algebra_simps)
  show ?case unfolding w using Cons.IH [OF _ le] Cons.prems(1) pass by simp
qed simp

lemma EncodeBase58_eq: "bytes data \<Longrightarrow> EncodeBase58 data = Done (base58_encode data)"
proof -
  assume data: "bytes data"
  define z where "z = length (takeWhile (\<lambda>b. b = 0) data)"
  let ?r = "drop z data" and ?n = "length (drop z data) * 138 div 100 + 1"
  let ?V = "undigits 256 ?r"
  have r: "bytes ?r" using data by (auto simp: list_all_iff dest: in_set_dropD)
  have nil: "carry_digits 58 0 = []" by (simp add: carry_digits.simps)
  have run: "encode_bytes ?r 0 (replicate ?n 0) = Done (length (carry_digits 58 ?V), holds 58 ?n ?V)"
    using encode_bytes_holds [OF r, of 0 ?n] encode_size_suffices [of "length ?r"] by (simp add: nil del: length_drop)
  have "dropWhile (\<lambda>d. d = 0) (rev (carry_digits 58 ?V)) = rev (carry_digits 58 ?V)"
  proof (cases "?V = 0")
    case False
    then have "carry_digits 58 ?V \<noteq> []" "hd (rev (carry_digits 58 ?V)) \<noteq> 0"
      using last_carry_digits [of 58 ?V] by (auto simp: hd_rev)
    then show ?thesis by (cases "rev (carry_digits 58 ?V)") auto
  qed (simp add: nil)
  then show ?thesis
    unfolding EncodeBase58_def base58_encode_eq Let_def z_def [symmetric] run by simp
qed

section \<open>The leading character\<close>

lemma leading_digit:
  assumes "2 \<le> b" "0 < d" "d < b" "d * b ^ n \<le> v" "v < (d + 1) * b ^ n"
  shows "length (carry_digits b v) = Suc n \<and> last (carry_digits b v) = d"
  using assms(4,5)
proof (induction n arbitrary: v)
  case 0
  then have "v = d" by simp
  with assms show ?case by (simp add: carry_digits.simps [of b d] carry_digits.simps [of b 0])
next
  case (Suc n)
  have "d * b ^ n \<le> v div b" using Suc.prems(1) assms(1) by (subst less_eq_div_iff_mult_less_eq) (simp_all add: ac_simps)
  moreover have "v div b < (d + 1) * b ^ n"
    using Suc.prems(2) assms(1) by (subst div_less_iff_less_mult) (simp_all add: algebra_simps)
  ultimately have IH: "length (carry_digits b (v div b)) = Suc n \<and> last (carry_digits b (v div b)) = d" by (rule Suc.IH)
  have "0 < d * b ^ Suc n" using assms by simp
  then have "v \<noteq> 0" using Suc.prems(1) by linarith
  then have "carry_digits b v = v mod b # carry_digits b (v div b)" using assms(1) by (simp add: carry_digits.simps [of b v])
  with IH show ?case by auto
qed

lemma base58_leading:
  assumes "bytes rest" "length rest = k" "0 < x" "0 < d" "d < 58"
    and "d * 58 ^ n \<le> x * 256 ^ k" "(x + 1) * 256 ^ k \<le> (d + 1) * 58 ^ n"
  shows "length (base58_encode (x # rest)) = Suc n" "hd (base58_encode (x # rest)) = ALPHABET ! d"
proof -
  let ?V = "undigits 256 (x # rest)"
  have "undigits 256 rest < 256 ^ k" using undigits_less [OF assms(1)] assms(2) by simp
  then have "x * 256 ^ k \<le> ?V" "?V < (x + 1) * 256 ^ k" by (simp_all add: undigits_Cons assms(2))
  then have "length (carry_digits 58 ?V) = Suc n \<and> last (carry_digits 58 ?V) = d"
    using assms(4-) by (intro leading_digit) linarith+
  moreover have "base58_encode (x # rest) = map (\<lambda>d. ALPHABET ! d) (rev (carry_digits 58 ?V))"
    using assms(3) by (simp add: base58_encode_eq)
  ultimately show "length (base58_encode (x # rest)) = Suc n" "hd (base58_encode (x # rest)) = ALPHABET ! d"
    by (simp_all add: hd_map hd_rev flip: length_greater_0_conv)
qed

lemma pubkey_address_F:
  assumes "bytes rest" "length rest = 24"
  shows "length (base58_encode (35 # rest)) = 34" "hd (base58_encode (35 # rest)) = CHR ''F''"
  using base58_leading [OF assms, of 35 14 33] by (simp_all add: ALPHABET_def)

lemma script_address_b:
  assumes "bytes rest" "length rest = 24"
  shows "length (base58_encode (85 # rest)) = 34" "hd (base58_encode (85 # rest)) = CHR ''b''"
  using base58_leading [OF assms, of 85 34 33] by (simp_all add: ALPHABET_def)

section \<open>Checksums and destinations\<close>

text \<open>What the node relies on in its hash: at least four bytes, each a byte.\<close>

definition hash_ok :: "(byte list \<Rightarrow> byte list) \<Rightarrow> bool" where
  "hash_ok H = (\<forall>xs. bytes (H xs) \<and> length (H xs) = 32)"

lemma checksum_ok:
  assumes "hash_ok H"
  shows "bytes (take 4 (H xs))" "length (take 4 (H xs)) = 4"
  using assms by (auto simp: hash_ok_def list_all_iff dest: in_set_takeD)

interpretation b58: codec base58_encode "\<lambda>s. case DecodeBase58 s 25 of Done bs \<Rightarrow> Some bs | _ \<Rightarrow> None"
  "\<lambda>bs. bytes bs \<and> length bs \<le> 25"
  by unfold_locales (simp add: DecodeBase58_encode)

lemma DecodeBase58Check_encode:
  assumes "bytes body" "hash_ok H" "length body \<le> max_ret" "max_ret \<le> 2147483643"
  shows "DecodeBase58Check H (base58_encode (body @ take 4 (H body))) max_ret = Done body"
proof -
  have "DecodeBase58 (base58_encode (body @ take 4 (H body))) (max_ret + 4) = Done (body @ take 4 (H body))"
    using assms checksum_ok [OF assms(2), of body] by (intro DecodeBase58_encode) simp_all
  with assms checksum_ok [OF assms(2), of body] show ?thesis by (simp add: DecodeBase58Check_def)
qed

lemma not_bech32:
  assumes "s \<noteq> []" "hd s \<in> {CHR ''F'', CHR ''b''}"
  shows "lower (take (length (bech32_hrp mainAddressParams)) s) \<noteq> bech32_hrp mainAddressParams"
proof -
  have "char_of (102 :: nat) = CHR ''f''" by code_simp
  then show ?thesis using assms by (cases s) (auto simp: mainAddressParams_def lower_def)
qed

lemma base58_destination_main:
  assumes "bytes h" "length h = 20" "hash_ok H" "x = 35 \<or> x = 85"
  shows "DecodeDestination H bech32 mainAddressParams (base58_encode (x # h @ take 4 (H (x # h))))
    = Done (if x = 35 then PKHash h else ScriptHash h)"
proof -
  let ?s = "base58_encode (x # h @ take 4 (H (x # h)))"
  have rest: "bytes (h @ take 4 (H (x # h)))" "length (h @ take 4 (H (x # h))) = 24"
    using assms checksum_ok [OF assms(3), of "x # h"] by simp_all
  have "length ?s = 34" "hd ?s \<in> {CHR ''F'', CHR ''b''}"
    using pubkey_address_F [OF rest] script_address_b [OF rest] assms(4) by auto
  then have nb: "lower (take (length (bech32_hrp mainAddressParams)) ?s) \<noteq> bech32_hrp mainAddressParams"
    by (intro not_bech32) auto
  have "DecodeBase58Check H ?s 21 = Done (x # h)"
    using DecodeBase58Check_encode [of "x # h" H 21] assms by auto
  then show ?thesis
    using nb assms(2,4) by (auto simp: DecodeDestination_def base58_destination_def mainAddressParams_def has_prefix_def)
qed

section \<open>Properties\<close>

text \<open>
  C18: the two Base58 encoders of the repository are the same function: the node's, which works
  in a vector of \<open>138 / 100\<close> digits for each byte, never fails its assertion and writes exactly
  what the wallet's, which grows its vector, writes. Nor does the assertion of the decoder ever fail: its vector of
  \<open>733 / 1000\<close> bytes for each character is large enough for every text.
\<close>

theorem encoders_agree:
  assumes "bytes data"
  shows "EncodeBase58 data = Done (base58_encode data) \<and> DecodeBase58 str max_ret \<noteq> Aborted"
  using EncodeBase58_eq [OF assms] DecodeBase58_total by blast

theorem encoders_agree_witness:
  "EncodeBase58 [0, 35, 255] = Done (base58_encode [0, 35, 255]) \<and> DecodeBase58 ''zzz'' 2 \<noteq> Aborted"
  by (rule encoders_agree) simp

text \<open>
  C19: an address that the node writes reads back as the same destination on the main network:
  a key hash gives 34 characters that begin with F, a script hash 34 that begin with b,
  neither is taken for a Bech32 address, and the checksum is accepted. These are the version bytes 35 and 85 of
  \<open>kernel/chainparams.cpp\<close>; the comments in \<open>key_io.cpp\<close> still name Bitcoin's versions 0 and 5, and the vectors for the main network in
  \<open>test/data/key_io_valid.json\<close>, which begin with 1 and 3, do not decode with these parameters.
\<close>

theorem destination_round_trip:
  assumes "bytes h" "length h = 20" "hash_ok H" "d = PKHash h \<or> d = ScriptHash h"
  shows "\<exists>s. EncodeDestination H enc mainAddressParams d = Done s \<and> length s = 34 \<and>
    hd s = (if d = PKHash h then CHR ''F'' else CHR ''b'') \<and>
    DecodeDestination H bech32 mainAddressParams s = Done d"
proof -
  obtain x where x: "x = 35 \<or> x = 85" "x = (if d = PKHash h then 35 else 85 :: nat)" by (metis (full_types))
  let ?t = "h @ take 4 (H (x # h))"
  have t: "bytes ?t" "length ?t = 24" using assms checksum_ok [OF assms(3), of "x # h"] by simp_all
  have "bytes (x # ?t)" using t x by auto
  then have "EncodeBase58 (x # ?t) = Done (base58_encode (x # ?t))" by (rule EncodeBase58_eq)
  then have "EncodeDestination H enc mainAddressParams d = Done (base58_encode (x # ?t))"
    using assms(4) x by (auto simp: mainAddressParams_def EncodeBase58Check_def)
  then show ?thesis
    using pubkey_address_F [OF t] script_address_b [OF t] base58_destination_main [OF assms(1-3) x(1), of bech32] assms(4) x(2)
    by (auto split: if_splits)
qed

theorem destination_round_trip_witness:
  "\<exists>s. EncodeDestination (\<lambda>_. replicate 32 7) (\<lambda>_. []) mainAddressParams (PKHash (replicate 20 9)) = Done s \<and>
    DecodeDestination (\<lambda>_. replicate 32 7) (\<lambda>_. CNoDestination []) mainAddressParams s = Done (PKHash (replicate 20 9))"
  using destination_round_trip [of "replicate 20 9" "\<lambda>_. replicate 32 7" "PKHash (replicate 20 9)" "\<lambda>_. []" "\<lambda>_. CNoDestination []"]
  by (auto simp: hash_ok_def list_all_iff)

end
