(* ===== verification/Wallet_Core.thy ===== *)
theory Wallet_Core
  imports Address
begin

text \<open>
  The wallet's Rust core (\<open>Wallet/src/lib/crypto.rs\<close>): \<open>WalletInner\<close> with its three
  constructors, the derived texts, and the exported signing functions. The crates it calls
  (bip39, bip32, k256, sha2, ripemd) are the fields of a record that every operation takes;
  \<open>crypto_ok\<close> collects what their documentation promises. Randomness is an argument of
  \<open>generate_in\<close>. An \<open>unwrap\<close> or \<open>expect\<close> that fails is a panic.
\<close>

section \<open>The crates\<close>

record ('m, 'x, 's, 'p, 'g) crypto =
  generate_in :: "byte list \<Rightarrow> nat \<Rightarrow> 'm rust"
  parse_mnemonic :: "string \<Rightarrow> 'm rust"
  mnemonic_text :: "'m \<Rightarrow> string"
  to_seed :: "'m \<Rightarrow> string \<Rightarrow> byte list"
  xprv_new :: "byte list \<Rightarrow> 'x rust"
  derive_child :: "'x \<Rightarrow> nat \<times> bool \<Rightarrow> 'x rust"
  xprv_bytes :: "'x \<Rightarrow> byte list"
  secret_from_slice :: "byte list \<Rightarrow> 's option"
  secret_bytes :: "'s \<Rightarrow> byte list"
  public_of :: "'s \<Rightarrow> 'p"
  encoded_point :: "'p \<Rightarrow> bool \<Rightarrow> byte list"
  sha256 :: "byte list \<Rightarrow> byte list"
  ripemd160 :: "byte list \<Rightarrow> byte list"
  sign_with :: "'s \<Rightarrow> byte list \<Rightarrow> 'g"
  signature_bytes :: "'g \<Rightarrow> byte list"
  signature_try_from :: "byte list \<Rightarrow> 'g option"
  verify_with :: "'p \<Rightarrow> byte list \<Rightarrow> 'g \<Rightarrow> bool"

text \<open>
  What the crates document: a generated phrase parses as the same mnemonic; a secret key is
  its 32 bytes; the digests have their sizes; a serialized signature reads back, and a
  signature verifies under the key that made it.
\<close>

definition crypto_ok :: "('m, 'x, 's, 'p, 'g) crypto \<Rightarrow> bool" where
  "crypto_ok c =
     ((\<forall>r n m. generate_in c r n = ROk m \<longrightarrow> parse_mnemonic c (mnemonic_text c m) = ROk m) \<and>
      (\<forall>s. secret_from_slice c (secret_bytes c s) = Some s \<and> bytes (secret_bytes c s) \<and> length (secret_bytes c s) = 32) \<and>
      (\<forall>xs. bytes (sha256 c xs) \<and> length (sha256 c xs) = 32) \<and>
      (\<forall>xs. bytes (ripemd160 c xs) \<and> length (ripemd160 c xs) = 20) \<and>
      (\<forall>g. signature_try_from c (signature_bytes c g) = Some g \<and> bytes (signature_bytes c g)) \<and>
      (\<forall>s h. verify_with c (public_of c s) h (sign_with c s h)))"

lemma crypto_okD:
  assumes "crypto_ok c"
  shows "generate_in c r n = ROk m \<Longrightarrow> parse_mnemonic c (mnemonic_text c m) = ROk m"
    "secret_from_slice c (secret_bytes c s) = Some s" "bytes (secret_bytes c s)" "length (secret_bytes c s) = 32"
    "bytes (sha256 c xs)" "length (sha256 c xs) = 32"
    "bytes (ripemd160 c xs)" "length (ripemd160 c xs) = 20"
    "signature_try_from c (signature_bytes c g) = Some g" "bytes (signature_bytes c g)"
    "verify_with c (public_of c s) h (sign_with c s h)"
  using assms by (auto simp: crypto_ok_def)

section \<open>Wallets\<close>

record ('s, 'p) WalletInner =
  secret :: 's
  public_key :: 'p
  phrase_of :: "string option"

definition expect :: "string \<Rightarrow> 'a rust \<Rightarrow> 'a rust" where
  "expect msg r = (case r of ROk x \<Rightarrow> ROk x | RErr e \<Rightarrow> RPanic msg | RPanic p \<Rightarrow> RPanic p)"

definition map_err :: "(string \<Rightarrow> string) \<Rightarrow> 'a rust \<Rightarrow> 'a rust" where
  "map_err f r = (case r of RErr e \<Rightarrow> RErr (f e) | _ \<Rightarrow> r)"

definition unwrap :: "'a rust \<Rightarrow> 'a rust" where
  "unwrap r = expect ''called `Result::unwrap()` on an `Err` value'' r"

text \<open>The path m/44'/0'/0'/0/0; the flag marks a hardened index.\<close>

definition child_path :: "(nat \<times> bool) list" where
  "child_path = [(44, True), (0, True), (0, True), (0, False), (0, False)]"

definition derive_path :: "('m, 'x, 's, 'p, 'g) crypto \<Rightarrow> 'x \<Rightarrow> 'x rust" where
  "derive_path c xprv = foldl (\<lambda>r i. bind_rust r (\<lambda>x. unwrap (derive_child c x i))) (ROk xprv) child_path"

definition ok_or :: "string \<Rightarrow> 'a option \<Rightarrow> 'a rust" where
  "ok_or e v = (case v of Some x \<Rightarrow> ROk x | None \<Rightarrow> RErr e)"

definition new_random :: "('m, 'x, 's, 'p, 'g) crypto \<Rightarrow> byte list \<Rightarrow> string option \<Rightarrow> ('s, 'p) WalletInner rust" where
  "new_random c rnd passphrase =
     bind_rust (expect ''Failed to generate mnemonic'' (generate_in c rnd 24)) (\<lambda>mnemonic.
     let pass = (case passphrase of Some p \<Rightarrow> p | None \<Rightarrow> []); seed = to_seed c mnemonic pass in
     bind_rust (expect ''Failed to create XPrv'' (xprv_new c seed)) (\<lambda>xprv.
     bind_rust (derive_path c xprv) (\<lambda>child_xprv.
     bind_rust (expect ''32 bytes key'' (ok_or [] (secret_from_slice c (xprv_bytes c child_xprv)))) (\<lambda>secret.
     ROk \<lparr>secret = secret, public_key = public_of c secret, phrase_of = Some (mnemonic_text c mnemonic)\<rparr>))))"

definition from_mnemonic :: "('m, 'x, 's, 'p, 'g) crypto \<Rightarrow> string \<Rightarrow> string option \<Rightarrow> ('s, 'p) WalletInner rust" where
  "from_mnemonic c phrase passphrase =
     bind_rust (map_err (\<lambda>e. ''Invalid mnemonic: '' @ e) (parse_mnemonic c phrase)) (\<lambda>mnemonic.
     let pass = (case passphrase of Some p \<Rightarrow> p | None \<Rightarrow> []); seed = to_seed c mnemonic pass in
     bind_rust (map_err (\<lambda>_. ''Failed to create XPrv from seed'') (xprv_new c seed)) (\<lambda>xprv.
     bind_rust (derive_path c xprv) (\<lambda>child_xprv.
     bind_rust (expect ''32 bytes key'' (ok_or [] (secret_from_slice c (xprv_bytes c child_xprv)))) (\<lambda>secret.
     ROk \<lparr>secret = secret, public_key = public_of c secret, phrase_of = Some phrase\<rparr>))))"

definition from_private_key :: "('m, 'x, 's, 'p, 'g) crypto \<Rightarrow> string \<Rightarrow> ('s, 'p) WalletInner rust" where
  "from_private_key c hex =
     bind_rust (hex_decode hex) (\<lambda>bs.
     bind_rust (ok_or ''Invalid private key bytes'' (secret_from_slice c bs)) (\<lambda>secret.
     ROk \<lparr>secret = secret, public_key = public_of c secret, phrase_of = None\<rparr>))"

definition double_sha :: "('m, 'x, 's, 'p, 'g) crypto \<Rightarrow> byte list \<Rightarrow> byte list" where
  "double_sha c xs = sha256 c (sha256 c xs)"

definition address :: "('m, 'x, 's, 'p, 'g) crypto \<Rightarrow> ('s, 'p) WalletInner \<Rightarrow> string" where
  "address c w =
     (let pk_serialized = encoded_point c (public_key w) True;
          ripemd160_hash = ripemd160 c (sha256 c pk_serialized);
          versioned = 35 # ripemd160_hash;
          checksum = take 4 (double_sha c versioned)
      in base58_encode (versioned @ checksum))"

definition public_key_hex :: "('m, 'x, 's, 'p, 'g) crypto \<Rightarrow> ('s, 'p) WalletInner \<Rightarrow> string" where
  "public_key_hex c w = hex_encode (encoded_point c (public_key w) True)"

definition private_key_hex :: "('m, 'x, 's, 'p, 'g) crypto \<Rightarrow> ('s, 'p) WalletInner \<Rightarrow> string" where
  "private_key_hex c w = hex_encode (secret_bytes c (secret w))"

definition wallet_mnemonic :: "('s, 'p) WalletInner \<Rightarrow> string" where
  "wallet_mnemonic w = (case phrase_of w of Some p \<Rightarrow> p | None \<Rightarrow> ''N/A (Imported from Private Key)'')"

definition sign_message :: "('m, 'x, 's, 'p, 'g) crypto \<Rightarrow> ('s, 'p) WalletInner \<Rightarrow> byte list \<Rightarrow> string rust" where
  "sign_message c w message_hash =
     (if length message_hash \<noteq> 32 then RErr ''Message hash must be 32 bytes''
      else ROk (hex_encode (signature_bytes c (sign_with c (secret w) message_hash))))"

definition verify_signature :: "('m, 'x, 's, 'p, 'g) crypto \<Rightarrow> ('s, 'p) WalletInner \<Rightarrow> byte list \<Rightarrow> string \<Rightarrow> bool rust" where
  "verify_signature c w message_hash signature_hex =
     (if length message_hash \<noteq> 32 then ROk False
      else (case hex_decode signature_hex of
        RErr _ \<Rightarrow> ROk False
      | RPanic p \<Rightarrow> RPanic p
      | ROk sig_bytes \<Rightarrow> (case signature_try_from c sig_bytes of
          None \<Rightarrow> ROk False
        | Some signature \<Rightarrow> ROk (verify_with c (public_key w) message_hash signature))))"

definition hash_message :: "('m, 'x, 's, 'p, 'g) crypto \<Rightarrow> string \<Rightarrow> string" where
  "hash_message c message = hex_encode (sha256 c (utf8 message))"

text \<open>The hash of the public key that an address stands for.\<close>

definition key_hash :: "('m, 'x, 's, 'p, 'g) crypto \<Rightarrow> ('s, 'p) WalletInner \<Rightarrow> byte list" where
  "key_hash c w = ripemd160 c (sha256 c (encoded_point c (public_key w) True))"

section \<open>The invariant of a wallet\<close>

definition wallet_ok :: "('m, 'x, 's, 'p, 'g) crypto \<Rightarrow> ('s, 'p) WalletInner \<Rightarrow> bool" where
  "wallet_ok c w = (public_key w = public_of c (secret w))"

lemma bind_rust_ROk_iff: "bind_rust m k = ROk y \<longleftrightarrow> (\<exists>x. m = ROk x \<and> k x = ROk y)"
  by (cases m) simp_all

lemma expect_ROk_iff [simp]: "expect msg r = ROk x \<longleftrightarrow> r = ROk x"
  by (cases r) (simp_all add: expect_def)

lemma map_err_ROk_iff [simp]: "map_err f r = ROk x \<longleftrightarrow> r = ROk x"
  by (cases r) (simp_all add: map_err_def)

lemmas rust_cases = bind_rust_ROk_iff Let_def

lemma new_random_ok: "new_random c rnd p = ROk w \<Longrightarrow> wallet_ok c w"
  and from_mnemonic_ok: "from_mnemonic c phrase p = ROk w \<Longrightarrow> wallet_ok c w"
  and from_private_key_ok: "from_private_key c hex = ROk w \<Longrightarrow> wallet_ok c w"
  by (auto simp: new_random_def from_mnemonic_def from_private_key_def rust_cases wallet_ok_def)

lemma from_mnemonic_phrase: "from_mnemonic c phrase p = ROk w \<Longrightarrow> wallet_mnemonic w = phrase"
  by (auto simp: from_mnemonic_def rust_cases wallet_mnemonic_def)

lemma recover:
  assumes "crypto_ok c" "new_random c rnd p = ROk w"
  shows "from_mnemonic c (wallet_mnemonic w) p = ROk w"
  using assms(2) crypto_okD(1) [OF assms(1)]
  by (fastforce simp: new_random_def from_mnemonic_def rust_cases wallet_mnemonic_def)

lemma import_key:
  assumes "crypto_ok c" "wallet_ok c w"
  shows "from_private_key c (private_key_hex c w) = ROk (w\<lparr>phrase_of := None\<rparr>)"
  using assms
  by (simp add: from_private_key_def private_key_hex_def hex_decode_encode crypto_okD ok_or_def wallet_ok_def)

lemma address_phrase [simp]: "address c (w\<lparr>phrase_of := p\<rparr>) = address c w"
  by (simp add: address_def)

lemma sign_verify:
  assumes "crypto_ok c" "wallet_ok c w" "length h = 32"
  shows "\<exists>sg. sign_message c w h = ROk sg \<and> verify_signature c w h sg = ROk True"
  using assms by (simp add: sign_message_def verify_signature_def hex_decode_encode crypto_okD wallet_ok_def)

lemma address_at_node:
  assumes "crypto_ok c"
  shows "length (address c w) = 34 \<and> hd (address c w) = CHR ''F'' \<and>
    EncodeDestination (double_sha c) enc mainAddressParams (PKHash (key_hash c w)) = Done (address c w) \<and>
    DecodeDestination (double_sha c) bech32 mainAddressParams (address c w) = Done (PKHash (key_hash c w))"
proof -
  let ?H = "double_sha c"
  have H: "hash_ok ?H" using assms(1) by (simp add: hash_ok_def double_sha_def crypto_okD)
  have k: "bytes (key_hash c w)" "length (key_hash c w) = 20" using assms by (simp_all add: crypto_okD key_hash_def)
  have a: "address c w = base58_encode (35 # key_hash c w @ take 4 (?H (35 # key_hash c w)))"
    by (simp add: address_def key_hash_def Let_def)
  have t: "bytes (key_hash c w @ take 4 (?H (35 # key_hash c w)))" "length (key_hash c w @ take 4 (?H (35 # key_hash c w))) = 24"
    using k checksum_ok [OF H, of "35 # key_hash c w"] by simp_all
  have "EncodeBase58 (35 # key_hash c w @ take 4 (?H (35 # key_hash c w))) = Done (address c w)"
    unfolding a by (rule EncodeBase58_eq) (use t in simp)
  then have e: "EncodeDestination ?H enc mainAddressParams (PKHash (key_hash c w)) = Done (address c w)"
    by (simp add: mainAddressParams_def EncodeBase58Check_def)
  have d: "DecodeDestination ?H bech32 mainAddressParams (address c w) = Done (PKHash (key_hash c w))"
    unfolding a using base58_destination_main [OF k H, of 35 bech32] by simp
  have "length (address c w) = 34" "hd (address c w) = CHR ''F''"
    unfolding a by (rule pubkey_address_F [OF t])+
  with e d show ?thesis by blast
qed

section \<open>Text from outside\<close>

lemma hex_pairs_ascii: "list_all (\<lambda>b. b < 128) bs \<Longrightarrow> hex_pairs bs \<noteq> RPanic p"
proof (induction bs rule: hex_pairs.induct)
  case (1 a b rest)
  then have "\<not> continuation a" "rest \<noteq> [] \<Longrightarrow> \<not> continuation (hd rest)"
    by (cases rest; simp add: continuation_def)+
  moreover have "hex_pairs rest \<noteq> RPanic p" if "from_str_radix2 a b = Some x" for x
    using 1 that calculation by (cases "hex_pairs rest") auto
  ultimately show ?case by (auto simp: bind_rust_def split: option.splits rust.splits)
qed simp_all

lemma hex_decode_ascii: "list_all (\<lambda>ch. of_char ch < (128 :: nat)) s \<Longrightarrow> hex_decode s \<noteq> RPanic p"
proof -
  assume s: "list_all (\<lambda>ch. of_char ch < (128 :: nat)) s"
  then have "utf8 s = map of_char s" by (induction s) (simp_all add: utf8_def Let_def)
  with s show ?thesis by (simp add: hex_decode_def hex_pairs_ascii list_all_iff)
qed

section \<open>Crates for examples\<close>

definition demo_crypto :: "(string, byte list, char, char, char) crypto" where
  "demo_crypto = \<lparr>
     generate_in = (\<lambda>r n. if r = [] then RErr ''no entropy'' else ROk (map char_of r)),
     parse_mnemonic = (\<lambda>s. if s = [] then RErr ''bad word count'' else ROk s),
     mnemonic_text = (\<lambda>m. m),
     to_seed = (\<lambda>m p. map of_char (p @ m)),
     xprv_new = (\<lambda>s. if s = [] then RErr ''seed'' else ROk s),
     derive_child = (\<lambda>x i. ROk x),
     xprv_bytes = (\<lambda>x. replicate 31 0 @ [hd x]),
     secret_from_slice = (\<lambda>bs. if length bs = 32 then Some (char_of (last bs)) else None),
     secret_bytes = (\<lambda>s. replicate 31 0 @ [of_char s]),
     public_of = (\<lambda>s. s),
     encoded_point = (\<lambda>p compressed. [2, of_char p]),
     sha256 = (\<lambda>xs. replicate 31 1 @ [sum_list xs mod 256]),
     ripemd160 = (\<lambda>xs. replicate 19 3 @ [sum_list xs mod 256]),
     sign_with = (\<lambda>s h. s),
     signature_bytes = (\<lambda>g. [of_char g]),
     signature_try_from = (\<lambda>bs. case bs of [b] \<Rightarrow> Some (char_of b) | _ \<Rightarrow> None),
     verify_with = (\<lambda>p h g. g = p)\<rparr>"

lemma demo_crypto_ok: "crypto_ok demo_crypto"
  by (auto simp: crypto_ok_def demo_crypto_def list_all_iff split: if_splits)

section \<open>Properties\<close>

text \<open>
  C6: nothing is lost by keeping only the recovery phrase, or only the private key. A wallet made
  with a passphrase comes back exactly, keys and phrase, from its phrase and the same
  passphrase; from the hexadecimal text of its private key it comes back with the same keys
  and the same address, and no phrase.
\<close>

theorem wallet_recovery:
  assumes "crypto_ok c" "new_random c rnd p = ROk w"
  shows "from_mnemonic c (wallet_mnemonic w) p = ROk w \<and>
    (\<exists>w'. from_private_key c (private_key_hex c w) = ROk w' \<and> secret w' = secret w \<and>
       address c w' = address c w \<and> wallet_mnemonic w' = ''N/A (Imported from Private Key)'')"
  using recover [OF assms] import_key [OF assms(1) new_random_ok [OF assms(2)]]
  by (simp add: wallet_mnemonic_def)

theorem wallet_recovery_witness:
  "\<exists>w. new_random demo_crypto [65, 66] (Some ''pw'') = ROk w \<and> from_mnemonic demo_crypto (wallet_mnemonic w) (Some ''pw'') = ROk w"
proof -
  have "\<exists>w. new_random demo_crypto [65, 66] (Some ''pw'') = ROk w"
    by (simp add: new_random_def demo_crypto_def rust_cases derive_path_def child_path_def unwrap_def expect_def ok_or_def)
  then show ?thesis using wallet_recovery [OF demo_crypto_ok, of "[65, 66]" "Some ''pw''"] by blast
qed

text \<open>
  C3: the address of every wallet is one the node understands. It has 34 characters, begins
  with F, is the text that the node itself writes for the hash of the public key, and reads
  back there as that key hash on the main network, for the node's own double SHA-256.
\<close>

theorem address_accepted_by_node:
  assumes "crypto_ok c"
  shows "length (address c w) = 34 \<and> hd (address c w) = CHR ''F'' \<and>
    EncodeDestination (double_sha c) enc mainAddressParams (PKHash (key_hash c w)) = Done (address c w) \<and>
    DecodeDestination (double_sha c) bech32 mainAddressParams (address c w) = Done (PKHash (key_hash c w))"
  using assms by (rule address_at_node)

theorem address_accepted_by_node_witness:
  "hd (address demo_crypto \<lparr>secret = CHR ''s'', public_key = CHR ''s'', phrase_of = None\<rparr>) = CHR ''F''"
  using address_accepted_by_node [OF demo_crypto_ok] by blast

text \<open>
  C14: signing and verifying agree, for a wallet whose public key is that of its secret, as every
  constructor leaves it. Of a hash of 32 bytes the wallet makes a signature that it accepts;
  of anything else it makes none, with the error of the code, and accepts none.
\<close>

theorem signatures_verify:
  assumes "crypto_ok c"
    and "new_random c rnd p = ROk w \<or> from_mnemonic c phrase p = ROk w \<or> from_private_key c hex = ROk w"
  shows "if length h = 32
    then \<exists>sg. sign_message c w h = ROk sg \<and> verify_signature c w h sg = ROk True
    else sign_message c w h = RErr ''Message hash must be 32 bytes'' \<and> verify_signature c w h sg = ROk False"
proof -
  have "wallet_ok c w" using assms(2) new_random_ok from_mnemonic_ok from_private_key_ok by blast
  then show ?thesis using sign_verify [OF assms(1), of w h] by (simp add: sign_message_def verify_signature_def)
qed

theorem signatures_verify_witness:
  "\<exists>w sg. from_mnemonic demo_crypto ''seed'' None = ROk w \<and> sign_message demo_crypto w (replicate 32 5) = ROk sg \<and>
     verify_signature demo_crypto w (replicate 32 5) sg = ROk True"
proof -
  have "\<exists>w. from_mnemonic demo_crypto ''seed'' None = ROk w"
    by (simp add: from_mnemonic_def demo_crypto_def rust_cases derive_path_def child_path_def unwrap_def expect_def ok_or_def)
  then obtain w where w: "from_mnemonic demo_crypto ''seed'' None = ROk w" ..
  with signatures_verify [OF demo_crypto_ok, of "[]" None w "''seed''" "[]" "replicate 32 5"] show ?thesis by auto
qed

text \<open>The crates return their errors; \<open>derivable\<close>: every child key along the path exists and is a key.\<close>

definition crates_return :: "('m, 'x, 's, 'p, 'g) crypto \<Rightarrow> bool" where
  "crates_return c = ((\<forall>t msg. parse_mnemonic c t \<noteq> RPanic msg) \<and> (\<forall>seed msg. xprv_new c seed \<noteq> RPanic msg))"

definition derivable :: "('m, 'x, 's, 'p, 'g) crypto \<Rightarrow> 'x \<Rightarrow> bool" where
  "derivable c x = (\<exists>y k. derive_path c x = ROk y \<and> secret_from_slice c (xprv_bytes c y) = Some k)"

lemma derive_path_no_error: "derive_path c x \<noteq> RErr e"
proof -
  have "foldl (\<lambda>r i. bind_rust r (\<lambda>x. unwrap (derive_child c x i))) r ps \<noteq> RErr e" if "\<forall>e. r \<noteq> RErr e" for r ps
    using that
  proof (induction ps arbitrary: r)
    case (Cons i ps)
    have "bind_rust r (\<lambda>x. unwrap (derive_child c x i)) \<noteq> RErr e'" for e'
      using Cons.prems by (cases r) (auto simp: unwrap_def expect_def split: rust.splits)
    then show ?case using Cons.IH by simp
  qed simp
  then show ?thesis by (simp add: derive_path_def)
qed

text \<open>
  C31: text from outside stops the core in one way only. Importing a private key from ASCII text returns a wallet or
  an error, and checking a signature in ASCII text always returns a verdict, whatever the text. Restoring from a phrase,
  of any characters, panics exactly if the phrase is a valid mnemonic whose seed gives a master key from
  which one of the five child keys of the path, or the key itself, cannot be derived (the case that BIP32 leaves to the
  caller, which the code unwraps); an invalid phrase is an error.
\<close>

theorem outside_text_panics_only_underivable:
  assumes "crates_return c" "list_all (\<lambda>ch. of_char ch < (128 :: nat)) s"
  shows "(\<forall>msg. from_private_key c s \<noteq> RPanic msg) \<and> (\<exists>b. verify_signature c w h s = ROk b) \<and>
    ((\<exists>msg. from_mnemonic c phrase p = RPanic msg) \<longleftrightarrow>
      (\<exists>m x. parse_mnemonic c phrase = ROk m \<and>
        xprv_new c (to_seed c m (case p of Some t \<Rightarrow> t | None \<Rightarrow> [])) = ROk x \<and> \<not> derivable c x))"
proof (intro conjI)
  have hex: "hex_decode s \<noteq> RPanic q" for q by (rule hex_decode_ascii [OF assms(2)])
  then show "\<forall>msg. from_private_key c s \<noteq> RPanic msg"
    by (cases "hex_decode s") (auto simp: from_private_key_def ok_or_def split: option.splits)
  show "\<exists>b. verify_signature c w h s = ROk b"
    using hex by (cases "hex_decode s") (auto simp: verify_signature_def split: option.splits)
  let ?seed = "\<lambda>m. to_seed c m (case p of Some t \<Rightarrow> t | None \<Rightarrow> [])"
  show "(\<exists>msg. from_mnemonic c phrase p = RPanic msg) \<longleftrightarrow>
      (\<exists>m x. parse_mnemonic c phrase = ROk m \<and> xprv_new c (?seed m) = ROk x \<and> \<not> derivable c x)"
  proof (cases "parse_mnemonic c phrase")
    case m: (ROk m)
    show ?thesis
    proof (cases "xprv_new c (?seed m)")
      case x: (ROk x)
      show ?thesis
        using m x derive_path_no_error [of c x]
        by (cases "derive_path c x")
          (auto simp: from_mnemonic_def map_err_def derivable_def expect_def ok_or_def split: option.splits)
    qed (use m assms(1) in \<open>auto simp: from_mnemonic_def map_err_def crates_return_def\<close>)
  qed (use assms(1) in \<open>auto simp: from_mnemonic_def map_err_def crates_return_def\<close>)
qed

theorem outside_text_panics_only_underivable_witness:
  "(\<exists>b. verify_signature demo_crypto \<lparr>secret = CHR ''s'', public_key = CHR ''s'', phrase_of = None\<rparr> [] ''not hex'' = ROk b) \<and>
   (\<forall>msg. from_mnemonic demo_crypto ''seed'' None \<noteq> RPanic msg)"
proof -
  have c: "crates_return demo_crypto" by (simp add: crates_return_def demo_crypto_def)
  have d: "derivable demo_crypto x" for x
    by (simp add: derivable_def demo_crypto_def derive_path_def child_path_def unwrap_def expect_def)
  show ?thesis
    using outside_text_panics_only_underivable [OF c, of "''not hex''"
        "\<lparr>secret = CHR ''s'', public_key = CHR ''s'', phrase_of = None\<rparr>" "[]" "''seed''" None] d by auto
qed

end
