(* ===== verification/Wallet_Js.thy ===== *)
theory Wallet_Js
  imports Wallet_Core
begin

text \<open>
  The class \<open>Wallet\<close> that \<open>Wallet/pkg/retardio_wallet.js\<close> exports to JavaScript. A JavaScript
  wallet is an object that holds an address in the memory of a WebAssembly instance; the
  instance that a method talks to is whatever the module variable \<open>wasm\<close> holds at the time of
  the call. The core runs behind the exports: an error becomes a thrown string and a panic a
  \<open>RuntimeError\<close>. The allocator of the instance and what the core makes of memory that
  holds no wallet are parameters.
\<close>

section \<open>Instances\<close>

type_synonym ('s, 'p) heap = "(nat \<times> ('s, 'p) WalletInner) list"

record ('s, 'p) runtime =
  alloc :: "('s, 'p) heap \<Rightarrow> nat"
  wild :: "nat \<Rightarrow> ('s, 'p) WalletInner rust"

text \<open>The allocator never gives out the null address or the address of a live object.\<close>

definition runtime_ok :: "('s, 'p) runtime \<Rightarrow> bool" where
  "runtime_ok rt = (\<forall>h. alloc rt h \<noteq> 0 \<and> map_of h (alloc rt h) = None)"

record ('s, 'p) engine =
  wasm :: "nat option"
  instances :: "('s, 'p) heap list"
  entropy :: "byte list list"

definition heap_of :: "('s, 'p) engine \<Rightarrow> ('s, 'p) heap" where
  "heap_of g = (case wasm g of Some i \<Rightarrow> if i < length (instances g) then instances g ! i else [] | None \<Rightarrow> [])"

definition boxes :: "('s, 'p) engine \<Rightarrow> nat \<Rightarrow> ('s, 'p) WalletInner option" where
  "boxes g = map_of (heap_of g)"

definition set_heap :: "('s, 'p) heap \<Rightarrow> ('s, 'p) engine \<Rightarrow> ('s, 'p) engine" where
  "set_heap h g = (case wasm g of Some i \<Rightarrow> g\<lparr>instances := (instances g)[i := h]\<rparr> | None \<Rightarrow> g)"

text \<open>\<open>wasm.f\<close> while \<open>wasm\<close> is undefined.\<close>

definition export_call :: "string \<Rightarrow> ('s, 'p) engine \<Rightarrow> 'a outcome \<Rightarrow> 'a outcome" where
  "export_call f g r = (if wasm g = None then Throw (cannot_read ''undefined'' f) else r)"

definition from_rust :: "'a rust \<Rightarrow> 'a outcome" where
  "from_rust r = (case r of ROk x \<Rightarrow> Ok x | RErr e \<Rightarrow> Throw (ThrownStr e)
     | RPanic p \<Rightarrow> Throw (RuntimeError ''unreachable''))"

text \<open>\<open>Wallet.__wrap\<close> of a new object in the current instance.\<close>

definition store_box :: "('s, 'p) runtime \<Rightarrow> ('s, 'p) WalletInner \<Rightarrow> ('s, 'p) engine \<Rightarrow> nat \<times> ('s, 'p) engine" where
  "store_box rt w g = (let p = alloc rt (heap_of g) in (p, set_heap ((p, w) # heap_of g) g))"

definition make_wallet ::
  "('s, 'p) runtime \<Rightarrow> string \<Rightarrow> ('s, 'p) WalletInner rust \<Rightarrow> ('s, 'p) engine \<Rightarrow> nat outcome \<times> ('s, 'p) engine" where
  "make_wallet rt f r g = (case export_call f g (from_rust r) of
     Throw e \<Rightarrow> (Throw e, g)
   | Ok w \<Rightarrow> (case store_box rt w g of (p, g') \<Rightarrow> (Ok p, g')))"

section \<open>The class\<close>

text \<open>
  \<open>new Wallet(passphrase)\<close> draws its randomness from the environment; \<open>undefined\<close> and \<open>null\<close>
  are no passphrase.
\<close>

definition js_new ::
  "('m, 'x, 's, 'p, 'g) crypto \<Rightarrow> ('s, 'p) runtime \<Rightarrow> string option \<Rightarrow> ('s, 'p) engine \<Rightarrow> nat outcome \<times> ('s, 'p) engine" where
  "js_new c rt passphrase g = (let rnd = (case entropy g of r # _ \<Rightarrow> r | [] \<Rightarrow> []) in
     make_wallet rt ''wallet_new'' (new_random c rnd passphrase) (g\<lparr>entropy := tl (entropy g)\<rparr>))"

definition js_fromMnemonic ::
  "('m, 'x, 's, 'p, 'g) crypto \<Rightarrow> ('s, 'p) runtime \<Rightarrow> string \<Rightarrow> string option \<Rightarrow> ('s, 'p) engine \<Rightarrow> nat outcome \<times> ('s, 'p) engine" where
  "js_fromMnemonic c rt phrase passphrase = make_wallet rt ''wallet_fromMnemonic'' (from_mnemonic c phrase passphrase)"

definition js_fromPrivateKey ::
  "('m, 'x, 's, 'p, 'g) crypto \<Rightarrow> ('s, 'p) runtime \<Rightarrow> string \<Rightarrow> ('s, 'p) engine \<Rightarrow> nat outcome \<times> ('s, 'p) engine" where
  "js_fromPrivateKey c rt hex = make_wallet rt ''wallet_fromPrivateKey'' (from_private_key c hex)"

text \<open>A method reads the object at the address; the core rejects the null address.\<close>

definition call_method ::
  "('s, 'p) runtime \<Rightarrow> string \<Rightarrow> (('s, 'p) WalletInner \<Rightarrow> 'a rust) \<Rightarrow> nat \<Rightarrow> ('s, 'p) engine \<Rightarrow> 'a outcome" where
  "call_method rt f k p g = export_call f g
     (if p = 0 then Throw (ErrorObj ''null pointer passed to rust'')
      else from_rust (bind_rust (case boxes g p of Some w \<Rightarrow> ROk w | None \<Rightarrow> wild rt p) k))"

definition js_address :: "('m, 'x, 's, 'p, 'g) crypto \<Rightarrow> ('s, 'p) runtime \<Rightarrow> nat \<Rightarrow> ('s, 'p) engine \<Rightarrow> string outcome" where
  "js_address c rt = call_method rt ''wallet_address'' (\<lambda>w. ROk (address c w))"

definition js_publicKey :: "('m, 'x, 's, 'p, 'g) crypto \<Rightarrow> ('s, 'p) runtime \<Rightarrow> nat \<Rightarrow> ('s, 'p) engine \<Rightarrow> string outcome" where
  "js_publicKey c rt = call_method rt ''wallet_publicKey'' (\<lambda>w. ROk (public_key_hex c w))"

definition js_privateKey :: "('m, 'x, 's, 'p, 'g) crypto \<Rightarrow> ('s, 'p) runtime \<Rightarrow> nat \<Rightarrow> ('s, 'p) engine \<Rightarrow> string outcome" where
  "js_privateKey c rt = call_method rt ''wallet_privateKey'' (\<lambda>w. ROk (private_key_hex c w))"

definition js_mnemonic :: "('s, 'p) runtime \<Rightarrow> nat \<Rightarrow> ('s, 'p) engine \<Rightarrow> string outcome" where
  "js_mnemonic rt = call_method rt ''wallet_mnemonic'' (\<lambda>w. ROk (wallet_mnemonic w))"

definition js_signMessage ::
  "('m, 'x, 's, 'p, 'g) crypto \<Rightarrow> ('s, 'p) runtime \<Rightarrow> nat \<Rightarrow> byte list \<Rightarrow> ('s, 'p) engine \<Rightarrow> string outcome" where
  "js_signMessage c rt p h = call_method rt ''wallet_signMessage'' (\<lambda>w. sign_message c w h) p"

definition js_verifySignature ::
  "('m, 'x, 's, 'p, 'g) crypto \<Rightarrow> ('s, 'p) runtime \<Rightarrow> nat \<Rightarrow> byte list \<Rightarrow> string \<Rightarrow> ('s, 'p) engine \<Rightarrow> bool outcome" where
  "js_verifySignature c rt p h sg = call_method rt ''wallet_verifySignature'' (\<lambda>w. verify_signature c w h sg) p"

definition js_hashMessage :: "('m, 'x, 's, 'p, 'g) crypto \<Rightarrow> string \<Rightarrow> ('s, 'p) engine \<Rightarrow> string outcome" where
  "js_hashMessage c message g = export_call ''wallet_hashMessage'' g (Ok (hash_message c message))"

text \<open>\<open>free()\<close> sets the address of the object to null, then frees the memory.\<close>

definition js_free :: "nat \<Rightarrow> ('s, 'p) engine \<Rightarrow> unit outcome \<times> nat \<times> ('s, 'p) engine" where
  "js_free p g = (case wasm g of
     None \<Rightarrow> (Throw (cannot_read ''undefined'' ''__wbg_wallet_free''), 0, g)
   | Some i \<Rightarrow> if p = 0 then (Throw (ErrorObj ''null pointer passed to rust''), 0, g)
       else (Ok (), 0, set_heap (filter (\<lambda>(q, w). q \<noteq> p) (heap_of g)) g))"

section \<open>Loading an instance\<close>

text \<open>The new instance becomes the current one.\<close>

definition new_instance :: "('s, 'p) engine \<Rightarrow> ('s, 'p) engine" where
  "new_instance g = g\<lparr>wasm := Some (length (instances g)), instances := instances g @ [[]]\<rparr>"

text \<open>
  \<open>__wbg_finalize_init\<close> assigns the module variable and then calls the start function of the instance,
  which may trap or throw (\<open>start\<close>): the variable keeps the new instance then.
\<close>

definition finalize_init :: "thrown option \<Rightarrow> ('s, 'p) engine \<Rightarrow> unit outcome \<times> ('s, 'p) engine" where
  "finalize_init start g = (case start of None \<Rightarrow> Ok () | Some e \<Rightarrow> Throw e, new_instance g)"

text \<open>
  \<open>__wbg_init\<close> without interleaving: nothing happens when there is an instance; otherwise the
  module is fetched and instantiated and its start function is called, each of which may fail.
\<close>

datatype load_error = BeforeStart thrown | AtStart thrown

definition js_init :: "load_error option \<Rightarrow> ('s, 'p) engine \<Rightarrow> unit outcome \<times> ('s, 'p) engine" where
  "js_init failure g =
     (if wasm g \<noteq> None then (Ok (), g)
      else (case failure of
          Some (BeforeStart e) \<Rightarrow> (Throw e, g)
        | Some (AtStart e) \<Rightarrow> finalize_init (Some e) g
        | None \<Rightarrow> finalize_init None g))"

lemma finalize_init_simps [simp]:
  "finalize_init None g = (Ok (), new_instance g)" "finalize_init (Some e) g = (Throw e, new_instance g)"
  by (simp_all add: finalize_init_def)

section \<open>Objects live in the current instance\<close>

definition engine_ok :: "('s, 'p) engine \<Rightarrow> bool" where
  "engine_ok g = (case wasm g of Some i \<Rightarrow> i < length (instances g) | None \<Rightarrow> True)"

lemma heap_of_entropy [simp]: "heap_of (g\<lparr>entropy := e\<rparr>) = heap_of g"
  by (cases "wasm g") (simp_all add: heap_of_def)

lemma boxes_entropy [simp]: "boxes (g\<lparr>entropy := e\<rparr>) = boxes g"
  by (simp add: boxes_def)

lemma engine_ok_entropy [simp]: "engine_ok (g\<lparr>entropy := e\<rparr>) = engine_ok g"
  by (cases "wasm g") (simp_all add: engine_ok_def)

lemma heap_of_set_heap: "engine_ok g \<Longrightarrow> wasm g \<noteq> None \<Longrightarrow> heap_of (set_heap h g) = h"
  by (auto simp: heap_of_def set_heap_def engine_ok_def)

lemma set_heap_simps [simp]:
  "wasm (set_heap h g) = wasm g" "length (instances (set_heap h g)) = length (instances g)"
  "engine_ok (set_heap h g) = engine_ok g"
  by (auto simp: set_heap_def engine_ok_def split: option.splits)

lemma make_wallet_cases:
  assumes "runtime_ok rt" "engine_ok g" "wasm g \<noteq> None"
  obtains (made) w p g' where "r = ROk w" "make_wallet rt f r g = (Ok p, g')" "p \<noteq> 0"
      "boxes g p = None" "boxes g' = (boxes g)(p \<mapsto> w)" "wasm g' = wasm g" "engine_ok g'"
  | (failed) e where "r = RErr e" "make_wallet rt f r g = (Throw (ThrownStr e), g)"
  | (panicked) q where "r = RPanic q" "make_wallet rt f r g = (Throw (RuntimeError ''unreachable''), g)"
proof (cases r)
  case (ROk w)
  let ?p = "alloc rt (heap_of g)"
  let ?g = "set_heap ((?p, w) # heap_of g) g"
  have p: "?p \<noteq> 0" "boxes g ?p = None" using assms(1) by (simp_all add: runtime_ok_def boxes_def)
  have "make_wallet rt f r g = (Ok ?p, ?g)"
    using assms(3) ROk by (auto simp: make_wallet_def export_call_def from_rust_def store_box_def Let_def)
  moreover have "boxes ?g = (boxes g)(?p \<mapsto> w)" using assms(2,3) by (simp add: boxes_def heap_of_set_heap)
  ultimately show thesis using ROk p assms(2) by (intro made [of w ?p ?g]) simp_all
next
  case (RErr e)
  then show thesis using assms(3) by (intro failed) (auto simp: make_wallet_def export_call_def from_rust_def)
next
  case (RPanic q)
  then show thesis using assms(3) by (intro panicked) (auto simp: make_wallet_def export_call_def from_rust_def)
qed

lemma method_box:
  "wasm g \<noteq> None \<Longrightarrow> p \<noteq> 0 \<Longrightarrow> boxes g p = Some w \<Longrightarrow> call_method rt f k p g = from_rust (k w)"
  by (auto simp: call_method_def export_call_def)

lemma from_rust_ROk [simp]: "from_rust (ROk x) = Ok x"
  by (simp add: from_rust_def)

lemmas js_methods = js_address_def js_publicKey_def js_privateKey_def js_mnemonic_def js_signMessage_def
  js_verifySignature_def

text \<open>An allocator for examples: the address after the largest one in use.\<close>

definition demo_runtime :: "('s, 'p) runtime" where
  "demo_runtime = \<lparr>alloc = (\<lambda>h. Suc (foldr (\<lambda>(p, w). max p) h 0)), wild = (\<lambda>p. RPanic ''not a wallet'')\<rparr>"

lemma demo_runtime_ok: "runtime_ok (demo_runtime :: ('s, 'p) runtime)"
proof -
  have "map_of h q = None" if "foldr (\<lambda>(p :: nat, w). max p) h 0 < q" for h :: "('s, 'p) heap" and q
    using that by (induction h) auto
  then have "map_of h (Suc (foldr (\<lambda>(p, w). max p) h 0)) = None" for h :: "('s, 'p) heap" by blast
  then show ?thesis by (simp add: runtime_ok_def demo_runtime_def)
qed

end
