(* ===== verification/Wallet_Ts.thy ===== *)
theory Wallet_Ts
  imports Wallet_Js
begin

text \<open>
  The TypeScript face of the wallet (\<open>Wallet/src/lib/wallet.ts\<close>) and the demonstration script
  (\<open>Wallet/src/scripts/run.ts\<close>). First one caller at a time, as computations on a session; then
  \<open>initWallet\<close> as the step relation of any number of callers that interleave at each \<open>await\<close>.
  The emoji of the script are kept as the bytes of their UTF-8 encoding.
\<close>

section \<open>One caller\<close>

record ('s, 'p) session =
  eng :: "('s, 'p) engine"
  initialized :: bool
  load_failure :: "load_error option"

definition on_engine :: "(('s, 'p) engine \<Rightarrow> 'a outcome \<times> ('s, 'p) engine) \<Rightarrow> (('s, 'p) session, 'a) io" where
  "on_engine f = world_call (\<lambda>w. case f (eng w) of (r, g) \<Rightarrow> (r, w\<lparr>eng := g\<rparr>))"

definition ask_engine :: "(('s, 'p) engine \<Rightarrow> 'a outcome) \<Rightarrow> (('s, 'p) session, 'a) io" where
  "ask_engine f = on_engine (\<lambda>g. (f g, g))"

definition set_initialized :: "(('s, 'p) session, unit) io" where
  "set_initialized = world_call (\<lambda>w. (Ok (), w\<lparr>initialized := True\<rparr>))"

definition initWallet :: "(('s, 'p) session, unit) io" where
  "initWallet m =
     (if \<not> initialized (world m)
      then await (on_engine (js_init (load_failure (world m)))) (\<lambda>_. set_initialized) m
      else (Ok (), m))"

definition Wallet_create ::
  "('m, 'x, 's, 'p, 'g) crypto \<Rightarrow> ('s, 'p) runtime \<Rightarrow> string option \<Rightarrow> (('s, 'p) session, nat) io" where
  "Wallet_create c rt passphrase = await initWallet (\<lambda>_. on_engine (js_new c rt passphrase))"

definition Wallet_fromMnemonic ::
  "('m, 'x, 's, 'p, 'g) crypto \<Rightarrow> ('s, 'p) runtime \<Rightarrow> string \<Rightarrow> string option \<Rightarrow> (('s, 'p) session, nat) io" where
  "Wallet_fromMnemonic c rt phrase passphrase = await initWallet (\<lambda>_.
     try_catch (on_engine (js_fromMnemonic c rt phrase passphrase))
       (\<lambda>e. throw (ErrorObj (''Failed to restore wallet: '' @ thrown_text e))))"

definition Wallet_address :: "('m, 'x, 's, 'p, 'g) crypto \<Rightarrow> ('s, 'p) runtime \<Rightarrow> nat \<Rightarrow> (('s, 'p) session, string) io" where
  "Wallet_address c rt inner = ask_engine (js_address c rt inner)"

definition Wallet_publicKey :: "('m, 'x, 's, 'p, 'g) crypto \<Rightarrow> ('s, 'p) runtime \<Rightarrow> nat \<Rightarrow> (('s, 'p) session, string) io" where
  "Wallet_publicKey c rt inner = ask_engine (js_publicKey c rt inner)"

definition Wallet_privateKey :: "('m, 'x, 's, 'p, 'g) crypto \<Rightarrow> ('s, 'p) runtime \<Rightarrow> nat \<Rightarrow> (('s, 'p) session, string) io" where
  "Wallet_privateKey c rt inner = ask_engine (js_privateKey c rt inner)"

definition Wallet_mnemonic :: "('s, 'p) runtime \<Rightarrow> nat \<Rightarrow> (('s, 'p) session, string) io" where
  "Wallet_mnemonic rt inner = ask_engine (js_mnemonic rt inner)"

definition Wallet_signMessage ::
  "('m, 'x, 's, 'p, 'g) crypto \<Rightarrow> ('s, 'p) runtime \<Rightarrow> nat \<Rightarrow> byte list \<Rightarrow> (('s, 'p) session, string) io" where
  "Wallet_signMessage c rt inner message = ask_engine (js_signMessage c rt inner message)"

definition Wallet_verifySignature ::
  "('m, 'x, 's, 'p, 'g) crypto \<Rightarrow> ('s, 'p) runtime \<Rightarrow> nat \<Rightarrow> byte list \<Rightarrow> string \<Rightarrow> (('s, 'p) session, bool) io" where
  "Wallet_verifySignature c rt inner message signatureHex = ask_engine (js_verifySignature c rt inner message signatureHex)"

definition Wallet_hashMessage :: "('m, 'x, 's, 'p, 'g) crypto \<Rightarrow> string \<Rightarrow> (('s, 'p) session, string) io" where
  "Wallet_hashMessage c message = ask_engine (js_hashMessage c message)"

section \<open>The script\<close>

definition rocket :: string where "rocket = [CHR 0xF0, CHR 0x9F, CHR 0x9A, CHR 0x80]"
definition check_mark :: string where "check_mark = [CHR 0xE2, CHR 0x9C, CHR 0x85]"
definition cross_mark :: string where "cross_mark = [CHR 0xE2, CHR 0x9D, CHR 0x8C]"
definition round_pin :: string where "round_pin = [CHR 0xF0, CHR 0x9F, CHR 0x93, CHR 0x8D]"
definition memo :: string where "memo = [CHR 0xF0, CHR 0x9F, CHR 0x93, CHR 0x9D]"
definition lock_pen :: string where "lock_pen = [CHR 0xF0, CHR 0x9F, CHR 0x94, CHR 0x8F]"
definition magnifier :: string where "magnifier = [CHR 0xF0, CHR 0x9F, CHR 0x94, CHR 0x8D]"
definition sparkles :: string where "sparkles = [CHR 0xE2, CHR 0x9C, CHR 0xA8]"
definition shield :: string where "shield = [CHR 0xF0, CHR 0x9F, CHR 0x9B, CHR 0xA1, CHR 0xEF, CHR 0xB8, CHR 0x8F]"
definition bar_chart :: string where "bar_chart = [CHR 0xF0, CHR 0x9F, CHR 0x93, CHR 0x8A]"

abbreviation console_log :: "string list \<Rightarrow> ('w, unit) io" where
  "console_log args \<equiv> console_write LogLevel (map LText args)"

definition main :: "('m, 'x, 's, 'p, 'g) crypto \<Rightarrow> ('s, 'p) runtime \<Rightarrow> (('s, 'p) session, unit) io" where
  "main c rt =
     await (console_log [rocket @ '' Initializing Retardio Wallet (Deno Edition) with RIP-0...'' @ [CHR 0x0A]]) (\<lambda>_.
     await (Wallet_create c rt None) (\<lambda>wallet.
     await (console_log [check_mark @ '' Wallet Created!'']) (\<lambda>_.
     await (Wallet_address c rt wallet) (\<lambda>addr.
     await (console_log [round_pin @ '' Address:'', addr]) (\<lambda>_.
     await (Wallet_mnemonic rt wallet) (\<lambda>phrase.
     await (console_log [memo @ '' RIP-0 Phrase:'', phrase]) (\<lambda>_.
     let message = ''Hello Retardio World!'' in
     await (console_log [CHR 0x0A # memo @ '' Signing message:'', message]) (\<lambda>_.
     await (Wallet_hashMessage c message) (\<lambda>hashHex.
     await (lift_outcome (hexToBytes hashHex)) (\<lambda>hashBytes.
     await (Wallet_signMessage c rt wallet hashBytes) (\<lambda>signature.
     await (console_log [lock_pen @ '' Signature (Hex):'', signature]) (\<lambda>_.
     await (console_log [CHR 0x0A # magnifier @ '' Verifying signature...'']) (\<lambda>_.
     await (Wallet_verifySignature c rt wallet hashBytes signature) (\<lambda>isValid.
     await (console_log [sparkles @ '' Is Valid?'', if isValid then ''YES '' @ check_mark else ''NO '' @ cross_mark]) (\<lambda>_.
     await (console_log [CHR 0x0A # shield @ '' Tamper Check...'']) (\<lambda>_.
     await (Wallet_hashMessage c ''Liquidate the shorts'') (\<lambda>otherHex.
     await (lift_outcome (hexToBytes otherHex)) (\<lambda>temperedHash.
     await (Wallet_verifySignature c rt wallet temperedHash signature) (\<lambda>isTemperedValid.
     console_log [bar_chart @ '' Result:'', if isTemperedValid then ''INVALID '' @ cross_mark
       else ''OK (Tamper Detected) '' @ check_mark])))))))))))))))))))"

text \<open>\<open>main().catch(console.error)\<close>\<close>

definition run_script :: "('m, 'x, 's, 'p, 'g) crypto \<Rightarrow> ('s, 'p) runtime \<Rightarrow> (('s, 'p) session, unit) io" where
  "run_script c rt = try_catch (main c rt) (\<lambda>e. console_write ErrorLevel [LThrown e])"

section \<open>A session that is ready\<close>

definition session_ok :: "('s, 'p) session \<Rightarrow> bool" where
  "session_ok w = (engine_ok (eng w) \<and> (initialized w \<longrightarrow> wasm (eng w) \<noteq> None))"

lemma engine_ok_init: "engine_ok g \<Longrightarrow> engine_ok (new_instance g)"
  by (simp add: engine_ok_def new_instance_def)

lemma initWallet_cases:
  assumes "session_ok (world m)"
  obtains (ready) m' where "initWallet m = (Ok (), m')" "session_ok (world m')" "initialized (world m')"
      "entropy (eng (world m')) = entropy (eng (world m))" "console m' = console m"
  | (failed) e where "load_failure (world m) = Some (BeforeStart e)" "initWallet m = (Throw e, m)" "\<not> initialized (world m)"
  | (stopped) e where "load_failure (world m) = Some (AtStart e)" "\<not> initialized (world m)"
      "initWallet m = (Throw e, m\<lparr>world := (world m)\<lparr>eng := new_instance (eng (world m))\<rparr>\<rparr>)"
proof (cases "initialized (world m)")
  case True
  then show thesis using assms by (intro ready [of m]) (simp_all add: initWallet_def)
next
  case False
  note defs = initWallet_def await_def on_engine_def world_call_def js_init_def set_initialized_def session_ok_def
  show thesis
  proof (cases "wasm (eng (world m))")
    case None
    show thesis
    proof (cases "load_failure (world m)")
      case (Some x)
      then show thesis
        using None False failed stopped by (cases x) (simp_all add: defs)
    next
      case no: None
      let ?m = "m\<lparr>world := (world m)\<lparr>eng := new_instance (eng (world m)), initialized := True\<rparr>\<rparr>"
      have "engine_ok (new_instance (eng (world m)))" using assms by (simp add: session_ok_def engine_ok_init)
      then show thesis using None False no by (intro ready [of ?m]) (simp_all add: defs new_instance_def)
    qed
  next
    case (Some i)
    let ?m = "m\<lparr>world := (world m)\<lparr>initialized := True\<rparr>\<rparr>"
    show thesis using Some False assms by (intro ready [of ?m]) (simp_all add: defs)
  qed
qed

lemma ask_engine [io_simps]: "ask_engine f m = (f (eng (world m)), m)"
  by (simp add: ask_engine_def on_engine_def world_call_def)

text \<open>The wallet \<open>w\<close> is the object at \<open>p\<close> of the session.\<close>

definition holds_wallet :: "('s, 'p) session \<Rightarrow> nat \<Rightarrow> ('s, 'p) WalletInner \<Rightarrow> bool" where
  "holds_wallet s p w = (session_ok s \<and> initialized s \<and> p \<noteq> 0 \<and> boxes (eng s) p = Some w)"

lemma holds_wallet_methods:
  assumes "holds_wallet (world m) p w"
  shows "Wallet_address c rt p m = (Ok (address c w), m)"
    "Wallet_publicKey c rt p m = (Ok (public_key_hex c w), m)"
    "Wallet_privateKey c rt p m = (Ok (private_key_hex c w), m)"
    "Wallet_mnemonic rt p m = (Ok (wallet_mnemonic w), m)"
    "Wallet_signMessage c rt p h m = (from_rust (sign_message c w h), m)"
    "Wallet_verifySignature c rt p h sg m = (from_rust (verify_signature c w h sg), m)"
    "Wallet_hashMessage c t m = (Ok (hash_message c t), m)"
proof -
  have e: "wasm (eng (world m)) \<noteq> None" "p \<noteq> 0" "boxes (eng (world m)) p = Some w"
    using assms by (auto simp: holds_wallet_def session_ok_def)
  note defs = ask_engine js_methods method_box [OF e] Wallet_address_def Wallet_publicKey_def Wallet_privateKey_def
    Wallet_mnemonic_def Wallet_signMessage_def Wallet_verifySignature_def
  show "Wallet_address c rt p m = (Ok (address c w), m)"
    "Wallet_publicKey c rt p m = (Ok (public_key_hex c w), m)"
    "Wallet_privateKey c rt p m = (Ok (private_key_hex c w), m)"
    "Wallet_mnemonic rt p m = (Ok (wallet_mnemonic w), m)"
    "Wallet_signMessage c rt p h m = (from_rust (sign_message c w h), m)"
    "Wallet_verifySignature c rt p h sg m = (from_rust (verify_signature c w h sg), m)"
    by (simp_all add: defs)
  show "Wallet_hashMessage c t m = (Ok (hash_message c t), m)"
    using e(1) by (auto simp: Wallet_hashMessage_def ask_engine js_hashMessage_def export_call_def)
qed

text \<open>Making a wallet keeps the ones that are there.\<close>

definition keeps_wallets :: "('s, 'p) session \<Rightarrow> ('s, 'p) session \<Rightarrow> bool" where
  "keeps_wallets s t = (\<forall>q v. holds_wallet s q v \<longrightarrow> holds_wallet t q v)"

lemma make_holds:
  assumes "runtime_ok rt" "session_ok (world m)" "initialized (world m)" "r = ROk w"
    and "g = eng (world m) \<or> g = (eng (world m))\<lparr>entropy := e\<rparr>"
  shows "\<exists>p g'. make_wallet rt f r g = (Ok p, g') \<and> holds_wallet ((world m)\<lparr>eng := g'\<rparr>) p w \<and>
    keeps_wallets (world m) ((world m)\<lparr>eng := g'\<rparr>)"
proof -
  have b: "boxes g = boxes (eng (world m))" "engine_ok g" "wasm g = wasm (eng (world m))" "wasm g \<noteq> None"
    using assms(2,3,5) by (auto simp: session_ok_def engine_ok_def)
  show ?thesis
    using assms(1) b(2,4)
  proof (cases rule: make_wallet_cases [where r = r and f = f])
    case (made w' p g')
    then show ?thesis
      using b assms(2-4) by (auto simp: holds_wallet_def session_ok_def keeps_wallets_def)
  qed (use assms(4) in simp_all)
qed

lemma create_holds:
  assumes "runtime_ok rt" "session_ok (world m)" "load_failure (world m) = None"
    and "entropy (eng (world m)) = rnd # rest" "new_random c rnd p = ROk w"
  shows "\<exists>q m'. Wallet_create c rt p m = (Ok q, m') \<and> holds_wallet (world m') q w \<and> console m' = console m"
  using assms(2)
proof (cases rule: initWallet_cases)
  case (ready m1)
  let ?g = "eng (world m1)"
  obtain q g' where "make_wallet rt ''wallet_new'' (new_random c rnd p) (?g\<lparr>entropy := rest\<rparr>) = (Ok q, g')"
    "holds_wallet ((world m1)\<lparr>eng := g'\<rparr>) q w"
    using make_holds [OF assms(1) ready(2,3) assms(5)] by blast
  then show ?thesis
    using ready assms(4) by (simp add: Wallet_create_def await_def on_engine_def world_call_def js_new_def Let_def)
qed (use assms(3) in simp_all)

lemma restore_holds:
  assumes "runtime_ok rt" "session_ok (world m)" "initialized (world m)" "from_mnemonic c phrase p = ROk w"
  shows "\<exists>q m'. Wallet_fromMnemonic c rt phrase p m = (Ok q, m') \<and> holds_wallet (world m') q w \<and>
    console m' = console m \<and> keeps_wallets (world m) (world m')"
proof -
  obtain q g' where "make_wallet rt ''wallet_fromMnemonic'' (from_mnemonic c phrase p) (eng (world m)) = (Ok q, g')"
    "holds_wallet ((world m)\<lparr>eng := g'\<rparr>) q w" "keeps_wallets (world m) ((world m)\<lparr>eng := g'\<rparr>)"
    using make_holds [OF assms] by blast
  then show ?thesis
    using assms(3) by (simp add: Wallet_fromMnemonic_def await_def initWallet_def try_catch_def on_engine_def world_call_def js_fromMnemonic_def)
qed

text \<open>What the script writes for a wallet, a signature and the verdict of the tamper check.\<close>

definition script_lines :: "('m, 'x, 's, 'p, 'g) crypto \<Rightarrow> ('s, 'p) WalletInner \<Rightarrow> string \<Rightarrow> bool \<Rightarrow> log_entry list" where
  "script_lines c w signature tampered = map (\<lambda>args. (LogLevel, map LText args))
     [[rocket @ '' Initializing Retardio Wallet (Deno Edition) with RIP-0...'' @ [CHR 0x0A]],
      [check_mark @ '' Wallet Created!''],
      [round_pin @ '' Address:'', address c w],
      [memo @ '' RIP-0 Phrase:'', wallet_mnemonic w],
      [CHR 0x0A # memo @ '' Signing message:'', ''Hello Retardio World!''],
      [lock_pen @ '' Signature (Hex):'', signature],
      [CHR 0x0A # magnifier @ '' Verifying signature...''],
      [sparkles @ '' Is Valid?'', ''YES '' @ check_mark],
      [CHR 0x0A # shield @ '' Tamper Check...''],
      [bar_chart @ '' Result:'', if tampered then ''INVALID '' @ cross_mark else ''OK (Tamper Detected) '' @ check_mark]]"

lemma hashed_bytes: "crypto_ok c \<Longrightarrow> hexToBytes (hash_message c t) = Ok (sha256 c (utf8 t))"
  by (simp add: hash_message_def hexToBytes_encode crypto_okD)

definition demo_session :: "(char, char) session machine" where
  "demo_session = \<lparr>console = [], world = \<lparr>eng = \<lparr>wasm = None, instances = [], entropy = [[65, 66]]\<rparr>,
     initialized = False, load_failure = None\<rparr>\<rparr>"

lemma demo_session_ok:
  "session_ok (world demo_session)" "load_failure (world demo_session) = None"
  "entropy (eng (world demo_session)) = [[65, 66]]"
  by (simp_all add: demo_session_def session_ok_def engine_ok_def)

lemma demo_wallet: "new_random demo_crypto [65, 66] None = ROk \<lparr>secret = CHR ''A'', public_key = CHR ''A'', phrase_of = Some ''AB''\<rparr>"
  by code_simp

section \<open>Properties\<close>

text \<open>
  C24: the demonstration script runs to its end. When the module loads and a wallet can be made from
  the randomness at hand, it throws nothing, signs the hash of its message, reports
  the signature as valid, and its last line tells whether the same signature would also pass
  for the hash of the other message.
\<close>

theorem script_reports_valid:
  assumes "crypto_ok c" "runtime_ok rt" "session_ok (world m)" "load_failure (world m) = None"
    and "entropy (eng (world m)) = rnd # rest" "new_random c rnd None = ROk w"
  shows "\<exists>m' signature. run_script c rt m = (Ok (), m') \<and>
    sign_message c w (sha256 c (utf8 ''Hello Retardio World!'')) = ROk signature \<and>
    console m' = console m @ script_lines c w signature
      (verify_with c (public_key w) (sha256 c (utf8 ''Liquidate the shorts''))
        (sign_with c (secret w) (sha256 c (utf8 ''Hello Retardio World!''))))"
proof -
  let ?h = "sha256 c (utf8 ''Hello Retardio World!'')" and ?t = "sha256 c (utf8 ''Liquidate the shorts'')"
  let ?m0 = "m\<lparr>console := console m @ [(LogLevel, map LText
    [rocket @ '' Initializing Retardio Wallet (Deno Edition) with RIP-0...'' @ [CHR 0x0A]])]\<rparr>"
  obtain q m1 where create: "Wallet_create c rt None ?m0 = (Ok q, m1)" "holds_wallet (world m1) q w" "console m1 = console ?m0"
    using create_holds [of rt ?m0 rnd rest c None w] assms by auto
  note methods = holds_wallet_methods [where p = q and w = w]
  obtain sg where sg: "sign_message c w ?h = ROk sg" "verify_signature c w ?h sg = ROk True"
    using sign_verify [OF assms(1) new_random_ok [OF assms(6)], of ?h] assms(1) by (auto simp: crypto_okD)
  have tv: "verify_signature c w ?t sg = ROk (verify_with c (public_key w) ?t (sign_with c (secret w) ?h))"
    using sg(1) assms(1) by (auto simp: sign_message_def verify_signature_def crypto_okD hex_decode_encode)
  have "\<exists>m'. main c rt m = (Ok (), m') \<and> console m' = console m @ script_lines c w sg
      (verify_with c (public_key w) ?t (sign_with c (secret w) ?h))"
    using create assms(1) sg tv
    by (simp add: main_def await_def console_write_def lift_outcome_def methods hashed_bytes script_lines_def Let_def)
  then show ?thesis using sg(1) by (auto simp: run_script_def try_catch_def)
qed

theorem script_reports_valid_witness:
  "\<exists>m' signature. run_script demo_crypto demo_runtime demo_session = (Ok (), m') \<and>
    console m' = script_lines demo_crypto \<lparr>secret = CHR ''A'', public_key = CHR ''A'', phrase_of = Some ''AB''\<rparr> signature True"
proof -
  have "verify_with demo_crypto p h (sign_with demo_crypto p h')" for p h h' by (simp add: demo_crypto_def)
  moreover have "console demo_session = []" by (simp add: demo_session_def)
  ultimately show ?thesis
    using script_reports_valid [OF demo_crypto_ok demo_runtime_ok demo_session_ok demo_wallet] by fastforce
qed

text \<open>
  A wallet made through the TypeScript face is recovered through it: in one session, with one
  passphrase, restoring the phrase of a new wallet gives a second object with the same address,
  public key, private key and phrase, and the first object still answers as before.
\<close>

theorem create_then_restore:
  assumes "crypto_ok c" "runtime_ok rt" "session_ok (world m)" "load_failure (world m) = None"
    and "entropy (eng (world m)) = rnd # rest" "new_random c rnd p = ROk w"
  shows "\<exists>q r m1 m2. Wallet_create c rt p m = (Ok q, m1) \<and>
    Wallet_fromMnemonic c rt (wallet_mnemonic w) p m1 = (Ok r, m2) \<and>
    Wallet_address c rt r m2 = Wallet_address c rt q m2 \<and> Wallet_publicKey c rt r m2 = Wallet_publicKey c rt q m2 \<and>
    Wallet_privateKey c rt r m2 = Wallet_privateKey c rt q m2 \<and> Wallet_mnemonic rt r m2 = Wallet_mnemonic rt q m2 \<and>
    Wallet_address c rt q m2 = (Ok (address c w), m2)"
proof -
  obtain q m1 where q: "Wallet_create c rt p m = (Ok q, m1)" "holds_wallet (world m1) q w"
    using create_holds [OF assms(2-6)] by blast
  have "session_ok (world m1)" "initialized (world m1)" using q(2) by (simp_all add: holds_wallet_def)
  then obtain r m2 where r: "Wallet_fromMnemonic c rt (wallet_mnemonic w) p m1 = (Ok r, m2)" "holds_wallet (world m2) r w"
    "keeps_wallets (world m1) (world m2)"
    using restore_holds [OF assms(2) _ _ recover [OF assms(1,6)], of m1] by blast
  then have "holds_wallet (world m2) q w" using q(2) by (simp add: keeps_wallets_def)
  with q r show ?thesis by (auto simp: holds_wallet_methods)
qed

theorem create_then_restore_witness:
  "\<exists>q m1 r m2. Wallet_create demo_crypto demo_runtime None demo_session = (Ok q, m1) \<and>
    Wallet_fromMnemonic demo_crypto demo_runtime ''AB'' None m1 = (Ok r, m2)"
  using create_then_restore [OF demo_crypto_ok demo_runtime_ok demo_session_ok demo_wallet]
  by (fastforce simp: wallet_mnemonic_def)

text \<open>
  A phrase that the mnemonic crate rejects leaves everything as it was: \<open>fromMnemonic\<close> throws
  the error of the crate behind the two prefixes of the code, and the session, its
  wallets included, is unchanged once the module is loaded.
\<close>

theorem bad_phrase_throws:
  assumes "session_ok (world m)" "initialized (world m)" "parse_mnemonic c phrase = RErr e"
  shows "Wallet_fromMnemonic c rt phrase p m =
    (Throw (ErrorObj (''Failed to restore wallet: Invalid mnemonic: '' @ e)), m)"
proof -
  have "wasm (eng (world m)) \<noteq> None" using assms by (simp add: session_ok_def)
  moreover have "from_mnemonic c phrase p = RErr (''Invalid mnemonic: '' @ e)"
    using assms(3) by (simp add: from_mnemonic_def map_err_def)
  ultimately show ?thesis
    using assms(2)
    by (auto simp: Wallet_fromMnemonic_def await_def initWallet_def try_catch_def throw_def on_engine_def world_call_def
        js_fromMnemonic_def make_wallet_def export_call_def from_rust_def)
qed

theorem bad_phrase_throws_witness:
  "Wallet_fromMnemonic demo_crypto demo_runtime [] None
     \<lparr>console = [], world = \<lparr>eng = \<lparr>wasm = Some 0, instances = [[]], entropy = []\<rparr>, initialized = True, load_failure = None\<rparr>\<rparr>
   = (Throw (ErrorObj ''Failed to restore wallet: Invalid mnemonic: bad word count''),
     \<lparr>console = [], world = \<lparr>eng = \<lparr>wasm = Some 0, instances = [[]], entropy = []\<rparr>, initialized = True, load_failure = None\<rparr>\<rparr>)"
  using bad_phrase_throws [of "\<lparr>console = [], world = \<lparr>eng = \<lparr>wasm = Some 0, instances = [[]], entropy = []\<rparr>, initialized = True, load_failure = None\<rparr>\<rparr>"
      demo_crypto "[]" "''bad word count''" demo_runtime None]
  by (simp add: session_ok_def engine_ok_def demo_crypto_def)

end
