(* ===== verification/Wallet_Init.thy ===== *)
theory Wallet_Init
  imports Wallet_Ts
begin

text \<open>
  Callers of the TypeScript face that run at the same time. JavaScript runs one of them at a
  time and switches only at an \<open>await\<close>: \<open>initWallet\<close> (\<open>Wallet/src/lib/wallet.ts\<close>) tests its flag,
  waits for the loader and sets the flag; the loader (\<open>__wbg_init\<close> of
  \<open>Wallet/pkg/retardio_wallet.js\<close>) tests the module variable, waits for the instance and sets
  the variable. A step of the relation is what one caller does between two waits.
\<close>

section \<open>Steps\<close>

datatype caller = Start | Loading | Resuming | Ready | Has nat | Failed thrown

record ('s, 'p) shared =
  sh_eng :: "('s, 'p) engine"
  sh_init :: bool
  callers :: "caller list"

definition set_caller :: "nat \<Rightarrow> caller \<Rightarrow> ('s, 'p) shared \<Rightarrow> ('s, 'p) shared" where
  "set_caller i pc s = s\<lparr>callers := (callers s)[i := pc]\<rparr>"

definition is_at :: "('s, 'p) shared \<Rightarrow> nat \<Rightarrow> caller \<Rightarrow> bool" where
  "is_at s i pc = (i < length (callers s) \<and> callers s ! i = pc)"

text \<open>
  \<open>call\<close> is the test of both variables up to the first wait, \<open>load\<close> and \<open>load_fail\<close> the end of
  the loading, with an instance whose start function returns or throws or without one, \<open>resume\<close> the assignment after it, and the rest what \<open>create\<close> and \<open>fromMnemonic\<close> do
  then.
\<close>

inductive init_step ::
  "('m, 'x, 's, 'p, 'g) crypto \<Rightarrow> ('s, 'p) runtime \<Rightarrow> ('s, 'p) shared \<Rightarrow> ('s, 'p) shared \<Rightarrow> bool"
  for c :: "('m, 'x, 's, 'p, 'g) crypto" and rt :: "('s, 'p) runtime" where
  call: "is_at s i Start \<Longrightarrow>
    init_step c rt s (set_caller i (if sh_init s then Ready else if wasm (sh_eng s) \<noteq> None then Resuming else Loading) s)"
| load: "is_at s i Loading \<Longrightarrow> finalize_init start (sh_eng s) = (r, g) \<Longrightarrow>
    init_step c rt s (set_caller i (case r of Ok _ \<Rightarrow> Resuming | Throw e \<Rightarrow> Failed e) (s\<lparr>sh_eng := g\<rparr>))"
| load_fail: "is_at s i Loading \<Longrightarrow> init_step c rt s (set_caller i (Failed e) s)"
| resume: "is_at s i Resuming \<Longrightarrow> init_step c rt s (set_caller i Ready (s\<lparr>sh_init := True\<rparr>))"
| create: "is_at s i Ready \<Longrightarrow> js_new c rt p (sh_eng s) = (r, g) \<Longrightarrow>
    init_step c rt s (set_caller i (case r of Ok q \<Rightarrow> Has q | Throw e \<Rightarrow> Failed e) (s\<lparr>sh_eng := g\<rparr>))"
| restore: "is_at s i Ready \<Longrightarrow> js_fromMnemonic c rt phrase p (sh_eng s) = (r, g) \<Longrightarrow>
    init_step c rt s (set_caller i (case r of Ok q \<Rightarrow> Has q
      | Throw e \<Rightarrow> Failed (ErrorObj (''Failed to restore wallet: '' @ thrown_text e))) (s\<lparr>sh_eng := g\<rparr>))"

inductive_cases init_stepE: "init_step c rt s t"

definition fresh :: "nat \<Rightarrow> byte list list \<Rightarrow> ('s, 'p) shared" where
  "fresh n rnds = \<lparr>sh_eng = \<lparr>wasm = None, instances = [], entropy = rnds\<rparr>, sh_init = False, callers = replicate n Start\<rparr>"

abbreviation reaches ::
  "('m, 'x, 's, 'p, 'g) crypto \<Rightarrow> ('s, 'p) runtime \<Rightarrow> ('s, 'p) shared \<Rightarrow> ('s, 'p) shared \<Rightarrow> bool" where
  "reaches c rt \<equiv> (init_step c rt)\<^sup>*\<^sup>*"

section \<open>The invariant\<close>

fun past_load :: "caller \<Rightarrow> bool" where
  "past_load Resuming = True" | "past_load Ready = True" | "past_load (Has q) = True" | "past_load _ = False"

fun past_flag :: "caller \<Rightarrow> bool" where
  "past_flag Ready = True" | "past_flag (Has q) = True" | "past_flag _ = False"

fun may_load :: "caller \<Rightarrow> bool" where
  "may_load Start = True" | "may_load Loading = True" | "may_load _ = False"

text \<open>
  Whoever waited for the loader finds the module; whoever went on finds the flag set; every
  instance was loaded by another caller; and as long as there is only one instance, every wallet that was
  handed out is in it.
\<close>

definition init_inv :: "nat \<Rightarrow> ('s, 'p) shared \<Rightarrow> bool" where
  "init_inv n s = (engine_ok (sh_eng s) \<and>
     (sh_init s \<longrightarrow> wasm (sh_eng s) \<noteq> None) \<and>
     (\<forall>pc \<in> set (callers s). past_load pc \<longrightarrow> wasm (sh_eng s) \<noteq> None) \<and>
     (\<forall>pc \<in> set (callers s). past_flag pc \<longrightarrow> sh_init s) \<and>
     length (instances (sh_eng s)) + length (filter may_load (callers s)) \<le> n \<and>
     (length (instances (sh_eng s)) \<le> 1 \<longrightarrow>
       (\<forall>q. Has q \<in> set (callers s) \<longrightarrow> q \<noteq> 0 \<and> boxes (sh_eng s) q \<noteq> None)))"

lemma fresh_inv: "init_inv n (fresh n rnds)"
  by (simp add: init_inv_def fresh_def engine_ok_def)

lemma init_invD:
  assumes "init_inv n s"
  shows "pc \<in> set (callers s) \<Longrightarrow> past_load pc \<Longrightarrow> wasm (sh_eng s) \<noteq> None"
    "pc \<in> set (callers s) \<Longrightarrow> past_flag pc \<Longrightarrow> sh_init s" "sh_init s \<Longrightarrow> wasm (sh_eng s) \<noteq> None"
    "engine_ok (sh_eng s)" "length (instances (sh_eng s)) + length (filter may_load (callers s)) \<le> n"
    "length (instances (sh_eng s)) \<le> 1 \<Longrightarrow> Has q \<in> set (callers s) \<Longrightarrow> q \<noteq> 0 \<and> boxes (sh_eng s) q \<noteq> None"
  using assms unfolding init_inv_def by blast+

text \<open>What making a wallet, by whichever constructor, does to the instances.\<close>

lemma make_keeps:
  assumes "runtime_ok rt" "engine_ok g" "wasm g \<noteq> None" "make_wallet rt f r g = (res, g')"
  shows "engine_ok g'" "wasm g' = wasm g" "length (instances g') = length (instances g)"
    "\<And>q. boxes g q \<noteq> None \<Longrightarrow> boxes g' q \<noteq> None" "\<And>q. res = Ok q \<Longrightarrow> q \<noteq> 0 \<and> boxes g' q \<noteq> None"
proof -
  have len: "length (instances g') = length (instances g)"
    using assms(4) by (auto simp: make_wallet_def store_box_def Let_def split: outcome.splits)
  have "engine_ok g' \<and> wasm g' = wasm g \<and> (\<forall>q. boxes g q \<noteq> None \<longrightarrow> boxes g' q \<noteq> None) \<and>
      (\<forall>q. res = Ok q \<longrightarrow> q \<noteq> 0 \<and> boxes g' q \<noteq> None)"
    using assms(1-3)
    by (cases rule: make_wallet_cases [where r = r and f = f]) (use assms in auto)
  with len show "engine_ok g'" "wasm g' = wasm g" "length (instances g') = length (instances g)"
    "\<And>q. boxes g q \<noteq> None \<Longrightarrow> boxes g' q \<noteq> None" "\<And>q. res = Ok q \<Longrightarrow> q \<noteq> 0 \<and> boxes g' q \<noteq> None"
    by blast+
qed

lemma filter_update_le:
  "i < length xs \<Longrightarrow> (P x \<longrightarrow> P (xs ! i)) \<Longrightarrow> length (filter P (xs[i := x])) \<le> length (filter P xs)"
  by (induction xs arbitrary: i) (auto split: nat.splits)

lemma filter_update_less:
  "i < length xs \<Longrightarrow> P (xs ! i) \<Longrightarrow> \<not> P x \<Longrightarrow> Suc (length (filter P (xs[i := x]))) = length (filter P xs)"
  by (induction xs arbitrary: i) (auto split: nat.splits)

lemma in_set_update: "pc \<in> set (xs[i := x]) \<Longrightarrow> pc = x \<or> pc \<in> set xs"
  using set_update_subset_insert by fastforce

text \<open>A caller that makes a wallet when it is ready.\<close>

lemma make_inv:
  assumes "runtime_ok rt" "init_inv n s" "is_at s i Ready" "make_wallet rt f r g = (res, g')"
    and "g = sh_eng s \<or> g = (sh_eng s)\<lparr>entropy := en\<rparr>"
    and "pc = (case res of Ok q \<Rightarrow> Has q | Throw e \<Rightarrow> Failed (E e))"
  shows "init_inv n (set_caller i pc (s\<lparr>sh_eng := g'\<rparr>))"
proof -
  have i: "i < length (callers s)" "callers s ! i = Ready" using assms(3) by (simp_all add: is_at_def)
  then have "Ready \<in> set (callers s)" by (metis nth_mem)
  then have ini: "sh_init s" "wasm (sh_eng s) \<noteq> None" using init_invD(1,2) [OF assms(2)] by simp_all
  have g: "engine_ok g" "wasm g = wasm (sh_eng s)" "boxes g = boxes (sh_eng s)" "instances g = instances (sh_eng s)"
    using init_invD(4) [OF assms(2)] assms(5) by auto
  note k = make_keeps [OF assms(1) g(1) _ assms(4)]
  have w: "wasm g \<noteq> None" using g ini by simp
  have "\<not> may_load pc" using assms(6) by (cases res) simp_all
  then have "length (filter may_load ((callers s)[i := pc])) \<le> length (filter may_load (callers s))"
    using i by (intro filter_update_le) simp_all
  moreover have "q \<noteq> 0 \<and> boxes g' q \<noteq> None" if "Has q \<in> set ((callers s)[i := pc])" "length (instances g') \<le> 1" for q
    using in_set_update [OF that(1)]
  proof
    assume "Has q = pc"
    then have "res = Ok q" using assms(6) by (cases res) simp_all
    then show ?thesis by (rule k(5) [OF w])
  next
    assume "Has q \<in> set (callers s)"
    then have "q \<noteq> 0 \<and> boxes g q \<noteq> None" using assms(2) that(2) k(3) [OF w] g by (auto simp: init_inv_def)
    then show ?thesis using k(4) [OF w] by blast
  qed
  ultimately show ?thesis
    using assms(2) k(1-3) [OF w] ini g(2,4) by (auto simp: init_inv_def set_caller_def)
qed

lemma init_step_inv:
  assumes "runtime_ok rt" "init_step c rt s t" "init_inv n s"
  shows "init_inv n t"
  using assms(2)
proof cases
  case (call i)
  let ?pc = "if sh_init s then Ready else if wasm (sh_eng s) \<noteq> None then Resuming else Loading"
  have i: "i < length (callers s)" "callers s ! i = Start" using call by (simp_all add: is_at_def)
  then have "length (filter may_load ((callers s)[i := ?pc])) \<le> length (filter may_load (callers s))"
    by (intro filter_update_le) simp_all
  then show ?thesis
    using assms(3) call(1) by (auto simp: init_inv_def set_caller_def dest!: in_set_update split: if_splits)
next
  case (load i start r g)
  let ?pc = "case r of Ok _ \<Rightarrow> Resuming | Throw e \<Rightarrow> Failed e"
  have g: "g = new_instance (sh_eng s)" using load(3) by (simp add: finalize_init_def)
  have i: "i < length (callers s)" "callers s ! i = Loading" using load by (simp_all add: is_at_def)
  then have "Suc (length (filter may_load ((callers s)[i := ?pc]))) = length (filter may_load (callers s))"
    by (intro filter_update_less) (simp_all split: outcome.splits)
  moreover have "Has q \<notin> set (callers s)" if "instances (sh_eng s) = []" for q
  proof
    assume "Has q \<in> set (callers s)"
    then have "wasm (sh_eng s) \<noteq> None" using init_invD(1) [OF assms(3)] by simp
    with that init_invD(4) [OF assms(3)] show False by (auto simp: engine_ok_def)
  qed
  ultimately show ?thesis
    using assms(3) load(1) g
    by (auto simp: init_inv_def set_caller_def new_instance_def engine_ok_def dest!: in_set_update split: outcome.splits)
next
  case (load_fail i e)
  have i: "i < length (callers s)" "callers s ! i = Loading" using load_fail by (simp_all add: is_at_def)
  then have "length (filter may_load ((callers s)[i := Failed e])) \<le> length (filter may_load (callers s))"
    by (intro filter_update_le) simp_all
  then show ?thesis
    using assms(3) load_fail(1) by (auto simp: init_inv_def set_caller_def dest!: in_set_update)
next
  case (resume i)
  have i: "i < length (callers s)" "callers s ! i = Resuming" using resume by (simp_all add: is_at_def)
  then have "Resuming \<in> set (callers s)" by (metis nth_mem)
  then have "wasm (sh_eng s) \<noteq> None" using init_invD(1) [OF assms(3)] by simp
  moreover have "length (filter may_load ((callers s)[i := Ready])) \<le> length (filter may_load (callers s))"
    using i by (intro filter_update_le) simp_all
  ultimately show ?thesis
    using assms(3) resume(1) by (auto simp: init_inv_def set_caller_def dest!: in_set_update)
next
  case (create i p r g)
  from create(3) obtain en f rr where "make_wallet rt f rr ((sh_eng s)\<lparr>entropy := en\<rparr>) = (r, g)"
    by (auto simp: js_new_def Let_def)
  from make_inv [OF assms(1,3) create(2) this disjI2 [OF refl] refl, of "\<lambda>e. e"] create(1) show ?thesis
    by simp
next
  case (restore i phrase p r g)
  from restore(3) have "make_wallet rt ''wallet_fromMnemonic'' (from_mnemonic c phrase p) (sh_eng s) = (r, g)"
    by (simp add: js_fromMnemonic_def)
  from make_inv [OF assms(1,3) restore(2) this disjI1 [OF refl] refl] restore(1) show ?thesis by simp
qed

interpretation init_run: transition_system "\<lambda>s. \<exists>rnds. s = fresh n rnds" "init_step c rt" "\<lambda>s. runtime_ok rt \<longrightarrow> init_inv n s"
  by unfold_locales (use fresh_inv init_step_inv in blast)+

lemma reaches_inv:
  assumes "runtime_ok rt" "reaches c rt (fresh n rnds) s"
  shows "init_inv n s"
  using init_run.reached_inv [OF _ assms(2)] assms(1) by blast

section \<open>Wallets that stay\<close>

lemma constructed:
  assumes "runtime_ok rt" "engine_ok g0" "wasm g0 \<noteq> None"
    and "entropy g0 = rnd # rest \<and> new_random c rnd p = ROk w \<and> js_new c rt p g0 = (Ok q, g) \<or>
      from_mnemonic c phrase p = ROk w \<and> js_fromMnemonic c rt phrase p g0 = (Ok q, g)"
  shows "boxes g q = Some w" "q \<noteq> 0"
proof -
  obtain f g1 where m: "make_wallet rt f (ROk w) g1 = (Ok q, g)" "engine_ok g1" "wasm g1 \<noteq> None"
    using assms(2-4) by (auto simp: js_new_def js_fromMnemonic_def Let_def)
  show "boxes g q = Some w" "q \<noteq> 0"
    using assms(1) m(2,3) by (cases rule: make_wallet_cases [where r = "ROk w" and f = f]; use m(1) in simp)+
qed

lemma boxes_loaded: "boxes g q = Some w \<Longrightarrow> wasm g \<noteq> None \<and> instances g \<noteq> []"
  by (auto simp: boxes_def heap_of_def split: option.splits if_splits)

text \<open>What one step does to the instances and to the wallets of the current one.\<close>

lemma step_instances:
  assumes "runtime_ok rt" "init_inv n s" "init_step c rt s t"
  obtains (same) "length (instances (sh_eng t)) = length (instances (sh_eng s))" "wasm (sh_eng t) = wasm (sh_eng s)"
      "\<And>q w. boxes (sh_eng s) q = Some w \<Longrightarrow> boxes (sh_eng t) q = Some w"
      "Loading \<in> set (callers t) \<Longrightarrow> Loading \<in> set (callers s) \<or> wasm (sh_eng s) = None"
  | (another) "length (instances (sh_eng t)) = Suc (length (instances (sh_eng s)))" "Loading \<in> set (callers s)"
proof -
  have ready: "wasm (sh_eng s) \<noteq> None" if "is_at s i Ready" for i
    using that init_invD(1) [OF assms(2)] nth_mem unfolding is_at_def by fastforce
  have keep: "length (instances g) = length (instances (sh_eng s)) \<and> wasm g = wasm (sh_eng s) \<and>
      (\<forall>q w. boxes (sh_eng s) q = Some w \<longrightarrow> boxes g q = Some w)"
    if m: "make_wallet rt f r g1 = (res, g)" and g1: "g1 = sh_eng s \<or> g1 = (sh_eng s)\<lparr>entropy := en\<rparr>"
      and "is_at s i Ready" for f r g1 res g en i
  proof -
    have e: "engine_ok g1" "wasm g1 \<noteq> None" "boxes g1 = boxes (sh_eng s)" "instances g1 = instances (sh_eng s)"
        "wasm g1 = wasm (sh_eng s)"
      using g1 init_invD(4) [OF assms(2)] ready [OF that(3)] by auto
    have "\<forall>q w. boxes g1 q = Some w \<longrightarrow> boxes g q = Some w"
      using assms(1) e(1,2) by (cases rule: make_wallet_cases [where r = r and f = f]) (use m in auto)
    then show ?thesis using make_keeps(2,3) [OF assms(1) e(1,2) m] e(3-5) by simp
  qed
  show thesis
    using assms(3)
  proof cases
    case (call i)
    then show thesis by (intro same) (auto simp: set_caller_def dest!: in_set_update split: if_splits)
  next
    case (load i start r g)
    then show thesis
      using nth_mem by (intro another) (fastforce simp: set_caller_def finalize_init_def new_instance_def is_at_def)+
  next
    case (load_fail i e)
    then show thesis by (intro same) (auto simp: set_caller_def dest!: in_set_update)
  next
    case (resume i)
    then show thesis by (intro same) (auto simp: set_caller_def dest!: in_set_update)
  next
    case (create i p r g)
    obtain en f rr where "make_wallet rt f rr ((sh_eng s)\<lparr>entropy := en\<rparr>) = (r, g)"
      using create(3) by (auto simp: js_new_def Let_def)
    from keep [OF this disjI2 [OF refl] create(2)] show thesis
      by (intro same) (auto simp: create(1) set_caller_def dest!: in_set_update split: outcome.splits)
  next
    case (restore i phrase p r g)
    have "make_wallet rt ''wallet_fromMnemonic'' (from_mnemonic c phrase p) (sh_eng s) = (r, g)"
      using restore(3) by (simp add: js_fromMnemonic_def)
    from keep [OF this disjI1 [OF refl] restore(2)] show thesis
      by (intro same) (auto simp: restore(1) set_caller_def dest!: in_set_update split: outcome.splits)
  qed
qed

lemma instances_pos: "init_inv n s \<Longrightarrow> wasm (sh_eng s) \<noteq> None \<Longrightarrow> 0 < length (instances (sh_eng s))"
  using init_invD(4) [of n s] by (auto simp: engine_ok_def)

definition kept :: "nat \<Rightarrow> nat \<Rightarrow> ('s, 'p) WalletInner \<Rightarrow> ('s, 'p) shared \<Rightarrow> bool" where
  "kept n q w t = (init_inv n t \<and> 0 < length (instances (sh_eng t)) \<and>
     (length (instances (sh_eng t)) = 1 \<longrightarrow> wasm (sh_eng t) \<noteq> None \<and> boxes (sh_eng t) q = Some w))"

lemma kept_step:
  assumes "runtime_ok rt" "init_step c rt t u" "kept n q w t"
  shows "kept n q w u"
proof -
  have inv: "init_inv n t" using assms(3) by (simp add: kept_def)
  show ?thesis
    using assms(1) inv assms(2)
    by (cases rule: step_instances) (use assms(3) init_step_inv [OF assms(1,2) inv] in \<open>auto simp: kept_def\<close>)
qed

lemma kept_answers:
  assumes "kept n q w t" "length (instances (sh_eng t)) = 1" "q \<noteq> 0"
  shows "js_address c rt q (sh_eng t) = Ok (address c w) \<and> js_privateKey c rt q (sh_eng t) = Ok (private_key_hex c w) \<and>
    js_mnemonic rt q (sh_eng t) = Ok (wallet_mnemonic w)"
  using assms by (auto simp: kept_def js_methods method_box)

definition settled :: "nat \<Rightarrow> ('s, 'p) shared \<Rightarrow> ('s, 'p) shared \<Rightarrow> bool" where
  "settled n s t = (init_inv n t \<and> Loading \<notin> set (callers t) \<and>
     length (instances (sh_eng t)) = length (instances (sh_eng s)) \<and> wasm (sh_eng t) = wasm (sh_eng s) \<and>
     wasm (sh_eng s) \<noteq> None \<and> (\<forall>q w. boxes (sh_eng s) q = Some w \<longrightarrow> boxes (sh_eng t) q = Some w))"

lemma settled_step:
  assumes "runtime_ok rt" "init_step c rt t u" "settled n s t"
  shows "settled n s u"
proof -
  have inv: "init_inv n t" using assms(3) by (simp add: settled_def)
  show ?thesis
    using assms(1) inv assms(2)
    by (cases rule: step_instances) (use assms(3) init_step_inv [OF assms(1,2) inv] in \<open>auto simp: settled_def\<close>)
qed

section \<open>Runs\<close>

text \<open>The state of callers around instances that were loaded one after the other.\<close>

abbreviation loaded :: "('s, 'p) heap list \<Rightarrow> byte list list \<Rightarrow> bool \<Rightarrow> caller list \<Rightarrow> ('s, 'p) shared" where
  "loaded hs en flag pcs \<equiv> \<lparr>sh_eng = \<lparr>wasm = (if hs = [] then None else Some (length hs - 1)), instances = hs, entropy = en\<rparr>,
     sh_init = flag, callers = pcs\<rparr>"

lemma run_call:
  "i < length pcs \<Longrightarrow> pcs ! i = Start \<Longrightarrow> init_step c rt (loaded [] en False pcs) (loaded [] en False (pcs[i := Loading]))"
  using init_step.call [of "loaded [] en False pcs" i c rt] by (simp add: is_at_def set_caller_def)

lemma run_load:
  "i < length pcs \<Longrightarrow> pcs ! i = Loading \<Longrightarrow> init_step c rt (loaded hs en flag pcs) (loaded (hs @ [[]]) en flag (pcs[i := Resuming]))"
  using init_step.load [of "loaded hs en flag pcs" i None "Ok ()" "new_instance (sh_eng (loaded hs en flag pcs))" c rt]
  by (simp add: is_at_def set_caller_def new_instance_def)

lemma run_resume:
  "i < length pcs \<Longrightarrow> pcs ! i = Resuming \<Longrightarrow> init_step c rt (loaded hs en flag pcs) (loaded hs en True (pcs[i := Ready]))"
  using init_step.resume [of "loaded hs en flag pcs" i c rt] by (simp add: is_at_def set_caller_def)

lemma run_create:
  assumes "i < length pcs" "pcs ! i = Ready" "new_random c r p = ROk w"
  shows "init_step c rt (loaded (hs @ [h]) (r # en) flag pcs)
    (loaded (hs @ [(alloc rt h, w) # h]) en flag (pcs[i := Has (alloc rt h)]))"
  using init_step.create [of "loaded (hs @ [h]) (r # en) flag pcs" i c rt p] assms
  by (simp add: is_at_def set_caller_def js_new_def make_wallet_def export_call_def from_rust_def store_box_def heap_of_def
      set_heap_def Let_def)

lemma reaches_step [trans]: "reaches c rt s t \<Longrightarrow> init_step c rt t u \<Longrightarrow> reaches c rt s u"
  by (rule rtranclp.rtrancl_into_rtrancl)

lemma fresh_loaded: "fresh n rnds = loaded [] rnds False (replicate n Start)"
  by (simp add: fresh_def)

lemma single_ready: "reaches c rt (fresh 1 rnds) (loaded [[]] rnds True [Ready])"
proof -
  have "reaches c rt (fresh 1 rnds) (loaded [] rnds False [Start])" by (simp add: fresh_loaded)
  also have "init_step c rt (loaded [] rnds False [Start]) (loaded [] rnds False [Loading])"
    using run_call [of 0 "[Start]"] by simp
  also have "init_step c rt (loaded [] rnds False [Loading]) (loaded [[]] rnds False [Resuming])"
    using run_load [of 0 "[Loading]" c rt "[]"] by simp
  also have "init_step c rt (loaded [[]] rnds False [Resuming]) (loaded [[]] rnds True [Ready])"
    using run_resume [of 0 "[Resuming]" c rt "[[]]"] by simp
  finally show ?thesis .
qed

section \<open>Properties\<close>

text \<open>
  C12: in every interleaving of any number of callers, a caller that got past \<open>initWallet\<close> finds
  the flag set and the module loaded, so no call of the core meets an undefined module; and no
  more instances are loaded than there are callers.
\<close>

theorem ready_means_loaded:
  assumes "runtime_ok rt" "reaches c rt (fresh n rnds) s" "i < length (callers s)" "past_flag (callers s ! i)"
  shows "sh_init s \<and> wasm (sh_eng s) \<noteq> None \<and> length (instances (sh_eng s)) \<le> n"
proof -
  note inv = init_invD [OF reaches_inv [OF assms(1,2)]]
  have "sh_init s" using inv(2) [OF nth_mem [OF assms(3)] assms(4)] .
  then show ?thesis using inv(3,5) by auto
qed

theorem ready_means_loaded_witness:
  "\<exists>s :: (char, char) shared. reaches demo_crypto demo_runtime (fresh 1 []) s \<and> callers s = [Ready] \<and> wasm (sh_eng s) \<noteq> None"
proof -
  let ?t = "loaded [[]] [] True [Ready] :: (char, char) shared"
  have "reaches demo_crypto demo_runtime (fresh 1 []) ?t" by (rule single_ready)
  from ready_means_loaded [OF demo_runtime_ok this, of 0] this show ?thesis by (intro exI [of _ ?t]) simp
qed

text \<open>
  C25: a caller that makes or restores a wallet \<open>w\<close> in an instance that is never replaced keeps it: whatever all callers do
  from then on, the address it was given answers with the address, the private key and the phrase of \<open>w\<close>, not of
  any wallet made before or after, in every later state in which the module was loaded once.
\<close>

theorem wallet_answers_in_one_instance:
  assumes "runtime_ok rt" "reaches c rt (fresh n rnds) s" "is_at s i Ready"
    and "entropy (sh_eng s) = rnd # rest \<and> new_random c rnd p = ROk w \<and> js_new c rt p (sh_eng s) = (Ok q, g) \<or>
      from_mnemonic c phrase p = ROk w \<and> js_fromMnemonic c rt phrase p (sh_eng s) = (Ok q, g)"
    and "reaches c rt (set_caller i (Has q) (s\<lparr>sh_eng := g\<rparr>)) t" "length (instances (sh_eng t)) = 1"
  shows "js_address c rt q (sh_eng t) = Ok (address c w) \<and> js_privateKey c rt q (sh_eng t) = Ok (private_key_hex c w) \<and>
    js_mnemonic rt q (sh_eng t) = Ok (wallet_mnemonic w)"
proof -
  let ?u = "set_caller i (Has q) (s\<lparr>sh_eng := g\<rparr>)"
  note inv = reaches_inv [OF assms(1,2)]
  have "Ready \<in> set (callers s)" using assms(3) unfolding is_at_def by (metis nth_mem)
  then have "wasm (sh_eng s) \<noteq> None" using init_invD(1) [OF inv] by simp
  with assms(4) init_invD(4) [OF inv] have made: "boxes g q = Some w" "q \<noteq> 0"
    using constructed [OF assms(1)] by blast+
  have step: "init_step c rt s ?u"
    using assms(3,4) init_step.create [of s i c rt p "Ok q" g] init_step.restore [of s i c rt phrase p "Ok q" g] by auto
  have "kept n q w t"
    using assms(5)
  proof induction
    case base
    then show ?case
      using made(1) boxes_loaded [OF made(1)] init_step_inv [OF assms(1) step inv] by (simp add: kept_def set_caller_def)
  qed (rule kept_step [OF assms(1)])
  then show ?thesis using kept_answers [OF _ assms(6)] made(2) by blast
qed

theorem wallet_answers_in_one_instance_witness:
  "\<exists>t q w. reaches demo_crypto demo_runtime (loaded [[]] [[65, 66]] True [Ready]) t \<and> callers t = [Has q] \<and>
     new_random demo_crypto [65, 66] None = ROk w \<and>
     js_address demo_crypto demo_runtime q (sh_eng t) = Ok (address demo_crypto w)"
proof -
  let ?q = "alloc (demo_runtime :: (char, char) runtime) []"
  let ?w = "\<lparr>secret = CHR ''A'', public_key = CHR ''A'', phrase_of = Some ''AB''\<rparr> :: (char, char) WalletInner"
  let ?s = "loaded [[]] [[65, 66]] True [Ready]"
  let ?t = "loaded [[(?q, ?w)]] [] True [Has ?q]"
  have s: "reaches demo_crypto demo_runtime (fresh 1 [[65, 66]]) ?s" by (rule single_ready)
  have new: "js_new demo_crypto demo_runtime None (sh_eng ?s) = (Ok ?q, sh_eng ?t)"
    using demo_wallet by (simp add: js_new_def make_wallet_def export_call_def from_rust_def store_box_def heap_of_def
      set_heap_def Let_def)
  have t: "set_caller 0 (Has ?q) (?s\<lparr>sh_eng := sh_eng ?t\<rparr>) = ?t" by (simp add: set_caller_def)
  have "js_address demo_crypto demo_runtime ?q (sh_eng ?t) = Ok (address demo_crypto ?w)"
    using wallet_answers_in_one_instance [OF demo_runtime_ok s, of 0 "[65, 66]" "[]" None ?w ?q "sh_eng ?t" undefined ?t]
      demo_wallet new t by (simp add: is_at_def)
  moreover have "reaches demo_crypto demo_runtime ?s ?t"
    using run_create [OF _ _ demo_wallet, of 0 "[Ready]" demo_runtime "[]" "[]" "[]" True] by auto
  ultimately show ?thesis using demo_wallet by (intro exI [of _ ?t] exI [of _ ?q] exI [of _ ?w]) simp
qed

text \<open>
  C26: one load that has ended while no other is under way is the last. From such a state on, whatever number of
  callers starts and whatever they do, none enters the loader again, the instance is never replaced, and every
  wallet in it goes on answering with its own address. So callers that wait for one \<open>initWallet\<close> before they
  start are safe from the confusion below.
\<close>

theorem no_load_after_the_first:
  assumes "runtime_ok rt" "reaches c rt (fresh n rnds) s" "wasm (sh_eng s) \<noteq> None" "Loading \<notin> set (callers s)"
    and "reaches c rt s t"
  shows "Loading \<notin> set (callers t) \<and> length (instances (sh_eng t)) = length (instances (sh_eng s)) \<and>
    wasm (sh_eng t) = wasm (sh_eng s) \<and>
    (\<forall>q w. q \<noteq> 0 \<and> boxes (sh_eng s) q = Some w \<longrightarrow> js_address c rt q (sh_eng t) = Ok (address c w))"
proof -
  have "settled n s t"
    using assms(5)
  proof induction
    case base
    then show ?case using reaches_inv [OF assms(1,2)] assms(3,4) by (simp add: settled_def)
  qed (rule settled_step [OF assms(1)])
  then show ?thesis using assms(3) by (auto simp: settled_def js_address_def method_box)
qed

theorem no_load_after_the_first_witness:
  "\<exists>t. reaches demo_crypto demo_runtime (loaded [[]] [[65, 66]] True [Ready]) t \<and> t \<noteq> loaded [[]] [[65, 66]] True [Ready] \<and>
     Loading \<notin> set (callers t) \<and> length (instances (sh_eng t)) = 1"
proof -
  let ?q = "alloc (demo_runtime :: (char, char) runtime) []"
  let ?w = "\<lparr>secret = CHR ''A'', public_key = CHR ''A'', phrase_of = Some ''AB''\<rparr> :: (char, char) WalletInner"
  let ?s = "loaded [[]] [[65, 66]] True [Ready]"
  let ?t = "loaded [[(?q, ?w)]] [] True [Has ?q]"
  have s: "reaches demo_crypto demo_runtime (fresh 1 [[65, 66]]) ?s" by (rule single_ready)
  have t: "reaches demo_crypto demo_runtime ?s ?t"
    using run_create [OF _ _ demo_wallet, of 0 "[Ready]" demo_runtime "[]" "[]" "[]" True] by auto
  from no_load_after_the_first [OF demo_runtime_ok s _ _ t] t show ?thesis by (intro exI [of _ ?t]) simp
qed

text \<open>
  C13: two callers that start together can end up with one wallet. The module is loaded twice, the
  second instance replaces the first under the caller that already holds a wallet, whose
  object is then no longer there; and once the second caller has made its own, both hold the
  same address, and the first caller is shown the address of the wallet of the second.
\<close>

theorem concurrent_wallets_confused:
  assumes "new_random c r1 p1 = ROk w1" "new_random c r2 p2 = ROk w2" "alloc rt [] \<noteq> 0"
  shows "\<exists>s t q. reaches c rt (fresh 2 [r1, r2]) s \<and> callers s ! 0 = Has q \<and> boxes (sh_eng s) q = None \<and>
    reaches c rt s t \<and> callers t = [Has q, Has q] \<and> js_address c rt q (sh_eng t) = Ok (address c w2)"
proof -
  let ?q = "alloc rt []"
  let ?s = "loaded [[(?q, w1)], []] [r2] True [Has ?q, Resuming]"
  let ?t = "loaded [[(?q, w1)], [(?q, w2)]] [] True [Has ?q, Has ?q]"
  have "reaches c rt (fresh 2 [r1, r2]) (loaded [] [r1, r2] False [Start, Start])" by (simp add: fresh_loaded numeral_2_eq_2)
  also have "init_step c rt (loaded [] [r1, r2] False [Start, Start]) (loaded [] [r1, r2] False [Loading, Start])"
    using run_call [of 0 "[Start, Start]" c rt "[r1, r2]"] by simp
  also have "init_step c rt (loaded [] [r1, r2] False [Loading, Start]) (loaded [] [r1, r2] False [Loading, Loading])"
    using run_call [of 1 "[Loading, Start]"] by simp
  also have "init_step c rt (loaded [] [r1, r2] False [Loading, Loading]) (loaded [[]] [r1, r2] False [Resuming, Loading])"
    using run_load [of 0 "[Loading, Loading]" c rt "[]"] by simp
  also have "init_step c rt (loaded [[]] [r1, r2] False [Resuming, Loading]) (loaded [[]] [r1, r2] True [Ready, Loading])"
    using run_resume [of 0 "[Resuming, Loading]" c rt "[[]]"] by simp
  also have "init_step c rt (loaded [[]] [r1, r2] True [Ready, Loading]) (loaded [[(?q, w1)]] [r2] True [Has ?q, Loading])"
    using run_create [of 0 "[Ready, Loading]" c r1 p1 w1 rt "[]" "[]"] assms(1) by simp
  also have "init_step c rt (loaded [[(?q, w1)]] [r2] True [Has ?q, Loading]) ?s"
    using run_load [of 1 "[Has ?q, Loading]" c rt "[[(?q, w1)]]"] by simp
  finally have s: "reaches c rt (fresh 2 [r1, r2]) ?s" .
  have "reaches c rt ?s ?s" by simp
  also have "init_step c rt ?s (loaded [[(?q, w1)], []] [r2] True [Has ?q, Ready])"
    using run_resume [of 1 "[Has ?q, Resuming]" c rt "[[(?q, w1)], []]"] by simp
  also have "init_step c rt (loaded [[(?q, w1)], []] [r2] True [Has ?q, Ready]) ?t"
    using run_create [of 1 "[Has ?q, Ready]" c r2 p2 w2 rt "[[(?q, w1)]]" "[]"] assms(2) by simp
  finally have t: "reaches c rt ?s ?t" .
  have "boxes (sh_eng ?s) ?q = None" by (simp add: boxes_def heap_of_def)
  moreover have "js_address c rt ?q (sh_eng ?t) = Ok (address c w2)"
    using assms(3) by (simp add: js_address_def call_method_def export_call_def boxes_def heap_of_def from_rust_def)
  ultimately show ?thesis using s t by (intro exI [of _ ?s] exI [of _ ?t] exI [of _ ?q]) simp
qed

theorem concurrent_wallets_confused_witness:
  "\<exists>s t q w2. reaches demo_crypto demo_runtime (fresh 2 [[65, 66], [67, 68]]) s \<and> callers s ! 0 = Has q \<and>
    boxes (sh_eng s) q = None \<and> reaches demo_crypto demo_runtime s t \<and> new_random demo_crypto [67, 68] None = ROk w2 \<and>
    js_address demo_crypto demo_runtime q (sh_eng t) = Ok (address demo_crypto w2)"
proof -
  have "new_random demo_crypto [67, 68] None = ROk \<lparr>secret = CHR ''C'', public_key = CHR ''C'', phrase_of = Some ''CD''\<rparr>"
    by code_simp
  moreover have "alloc (demo_runtime :: (char, char) runtime) [] \<noteq> 0" by (simp add: demo_runtime_def)
  ultimately show ?thesis using concurrent_wallets_confused [OF demo_wallet, of "[67, 68]" None _ demo_runtime] by blast
qed

end
