(* ===== verification/Wallet_Page.thy ===== *)
theory Wallet_Page
  imports Wallet_Js
begin

text \<open>
  The wallet's page \<open>Wallet/index.html\<close> as the script sees it: the elements that the script or the
  user touches, with their ids, their places and their classes, and the object \<open>UI\<close> of
  \<open>Wallet/main.js\<close>, whose members are references into the page that are null where it
  has no such element.
\<close>

section \<open>The page\<close>

datatype elem = SetupSection | PassphraseInput | GenerateBtn | RestoreBtn | RestoreArea | TabMnemonic | TabPrivKey
  | RestoreMnemonicContent | MnemonicInput | RestorePassInput | RestorePrivKeyContent | PrivKeyInput | ConfirmRestoreBtn
  | BackupSection | BackupMnemonicGrid | CopyMnemonicBtn | BackupConfirmBtn
  | WalletSection | DisplayAddress | CopyAddressBtn | TabKeys | TabDeploy | KeysTab | DisplayPub | DisplayPriv | RevealPrivBtn
  | DeployTab | DeployBtn | DeployResult | LogoutBtn | NotificationToast

definition all_elems :: "elem list" where
  "all_elems = [SetupSection, PassphraseInput, GenerateBtn, RestoreBtn, RestoreArea, TabMnemonic, TabPrivKey,
     RestoreMnemonicContent, MnemonicInput, RestorePassInput, RestorePrivKeyContent, PrivKeyInput, ConfirmRestoreBtn,
     BackupSection, BackupMnemonicGrid, CopyMnemonicBtn, BackupConfirmBtn, WalletSection, DisplayAddress, CopyAddressBtn,
     TabKeys, TabDeploy, KeysTab, DisplayPub, DisplayPriv, RevealPrivBtn, DeployTab, DeployBtn, DeployResult, LogoutBtn,
     NotificationToast]"

text \<open>The attribute \<open>id\<close>, the enclosing elements that can be hidden, \<open>data-tab\<close>, and the classes at the start.\<close>

fun elem_id :: "elem \<Rightarrow> string option" where
  "elem_id SetupSection = Some ''setup-section''"
| "elem_id PassphraseInput = Some ''passphrase-input''"
| "elem_id GenerateBtn = Some ''generate-btn''"
| "elem_id RestoreBtn = Some ''restore-btn''"
| "elem_id RestoreArea = Some ''restore-input-area''"
| "elem_id TabMnemonic = Some ''tab-mnemonic''"
| "elem_id TabPrivKey = Some ''tab-privkey''"
| "elem_id RestoreMnemonicContent = Some ''restore-mnemonic-content''"
| "elem_id MnemonicInput = Some ''mnemonic-input''"
| "elem_id RestorePassInput = Some ''restore-passphrase-input''"
| "elem_id RestorePrivKeyContent = Some ''restore-privkey-content''"
| "elem_id PrivKeyInput = Some ''privkey-input''"
| "elem_id ConfirmRestoreBtn = Some ''confirm-restore-btn''"
| "elem_id BackupSection = Some ''backup-section''"
| "elem_id BackupMnemonicGrid = Some ''backup-mnemonic-grid''"
| "elem_id CopyMnemonicBtn = Some ''copy-mnemonic-btn''"
| "elem_id BackupConfirmBtn = Some ''backup-confirm-btn''"
| "elem_id WalletSection = Some ''wallet-section''"
| "elem_id DisplayAddress = Some ''display-address''"
| "elem_id CopyAddressBtn = Some ''copy-address''"
| "elem_id TabKeys = None"
| "elem_id TabDeploy = None"
| "elem_id KeysTab = Some ''keys-tab''"
| "elem_id DisplayPub = Some ''display-pubkey''"
| "elem_id DisplayPriv = Some ''display-privkey''"
| "elem_id RevealPrivBtn = Some ''reveal-privBtn''"
| "elem_id DeployTab = Some ''deploy-tab''"
| "elem_id DeployBtn = Some ''deploy-btn''"
| "elem_id DeployResult = Some ''deploy-result''"
| "elem_id LogoutBtn = Some ''logout-btn''"
| "elem_id NotificationToast = Some ''notification-toast''"

definition data_tab :: "elem \<Rightarrow> string option" where
  "data_tab e = (if e = TabKeys then Some ''keys'' else if e = TabDeploy then Some ''deploy'' else None)"

definition enclosing :: "elem \<Rightarrow> elem list" where
  "enclosing e =
     (if e \<in> {PassphraseInput, GenerateBtn, RestoreBtn, RestoreArea} then [SetupSection]
      else if e \<in> {TabMnemonic, TabPrivKey, RestoreMnemonicContent, RestorePrivKeyContent, ConfirmRestoreBtn}
      then [RestoreArea, SetupSection]
      else if e \<in> {MnemonicInput, RestorePassInput} then [RestoreMnemonicContent, RestoreArea, SetupSection]
      else if e = PrivKeyInput then [RestorePrivKeyContent, RestoreArea, SetupSection]
      else if e \<in> {BackupMnemonicGrid, CopyMnemonicBtn, BackupConfirmBtn} then [BackupSection]
      else if e \<in> {DisplayAddress, CopyAddressBtn, TabKeys, TabDeploy, KeysTab, DeployTab, LogoutBtn} then [WalletSection]
      else if e \<in> {DisplayPub, DisplayPriv, RevealPrivBtn} then [KeysTab, WalletSection]
      else if e \<in> {DeployBtn, DeployResult} then [DeployTab, WalletSection]
      else [])"

definition html_classes :: "elem \<Rightarrow> string list" where
  "html_classes e =
     (if e = SetupSection then [''card'', ''fade-in'']
      else if e \<in> {GenerateBtn, BackupConfirmBtn} then [''btn'', ''primary'']
      else if e \<in> {RestoreBtn, CopyMnemonicBtn} then [''btn'', ''secondary'']
      else if e = RestoreArea then [''hidden'', ''slide-down'']
      else if e \<in> {TabMnemonic, TabKeys} then [''tab-btn'', ''active'']
      else if e \<in> {TabPrivKey, TabDeploy} then [''tab-btn'']
      else if e = RestorePrivKeyContent then [''hidden'']
      else if e = ConfirmRestoreBtn then [''btn'', ''accent'']
      else if e = BackupSection then [''card'', ''hidden'', ''fade-in'']
      else if e = BackupMnemonicGrid then [''mnemonic-grid'']
      else if e = WalletSection then [''card'', ''hidden'']
      else if e = DisplayAddress then [''mono'']
      else if e = CopyAddressBtn then [''copy-btn'']
      else if e = KeysTab then [''tab-content'']
      else if e = DeployTab then [''tab-content'', ''hidden'']
      else if e = DisplayPriv then [''blur'']
      else if e = RevealPrivBtn then [''small-btn'']
      else if e = DeployBtn then [''btn'', ''primary'', ''full'']
      else if e = DeployResult then [''hidden'', ''banner'']
      else if e = LogoutBtn then [''btn'', ''danger'', ''outline'']
      else [])"

definition html_text :: "elem \<Rightarrow> string" where
  "html_text e =
     (if e \<in> {DisplayAddress, DisplayPub, DisplayPriv} then ''...''
      else if e = RevealPrivBtn then ''REVEAL'' else [])"

definition getElementById :: "string \<Rightarrow> elem option" where
  "getElementById i = find (\<lambda>e. elem_id e = Some i) all_elems"

definition querySelectorAll :: "string \<Rightarrow> elem list" where
  "querySelectorAll cls = filter (\<lambda>e. cls \<in> set (html_classes e)) all_elems"

section \<open>The object UI\<close>

record ui_refs =
  setupSection :: "elem option"
  backupSection :: "elem option"
  walletSection :: "elem option"
  mainDashboard :: "elem option"
  generateBtn :: "elem option"
  restoreBtn :: "elem option"
  restoreArea :: "elem option"
  tabMnemonic :: "elem option"
  tabPrivKey :: "elem option"
  restoreMnemonicContent :: "elem option"
  restorePrivKeyContent :: "elem option"
  mnemonicInput :: "elem option"
  privKeyInput :: "elem option"
  passphraseInput :: "elem option"
  restorePassInput :: "elem option"
  confirmRestoreBtn :: "elem option"
  displayAddress :: "elem option"
  backupMnemonicGrid :: "elem option"
  copyMnemonicBtn :: "elem option"
  backupConfirmBtn :: "elem option"
  deployPrivKeyInput :: "elem option"
  deployMnemonicInput :: "elem option"
  deployBtn :: "elem option"
  deployResult :: "elem option"
  tabs :: "elem list"
  tabContents :: "elem list"
  displayPub :: "elem option"
  displayPriv :: "elem option"
  revealPrivBtn :: "elem option"
  logoutBtn :: "elem option"
  copyAddressBtn :: "elem option"
  toast :: "elem option"

definition UI :: ui_refs where
  "UI = \<lparr>setupSection = getElementById ''setup-section'',
     backupSection = getElementById ''backup-section'',
     walletSection = getElementById ''wallet-section'',
     mainDashboard = getElementById ''main-dashboard'',
     generateBtn = getElementById ''generate-btn'',
     restoreBtn = getElementById ''restore-btn'',
     restoreArea = getElementById ''restore-input-area'',
     tabMnemonic = getElementById ''tab-mnemonic'',
     tabPrivKey = getElementById ''tab-privkey'',
     restoreMnemonicContent = getElementById ''restore-mnemonic-content'',
     restorePrivKeyContent = getElementById ''restore-privkey-content'',
     mnemonicInput = getElementById ''mnemonic-input'',
     privKeyInput = getElementById ''privkey-input'',
     passphraseInput = getElementById ''passphrase-input'',
     restorePassInput = getElementById ''restore-passphrase-input'',
     confirmRestoreBtn = getElementById ''confirm-restore-btn'',
     displayAddress = getElementById ''display-address'',
     backupMnemonicGrid = getElementById ''backup-mnemonic-grid'',
     copyMnemonicBtn = getElementById ''copy-mnemonic-btn'',
     backupConfirmBtn = getElementById ''backup-confirm-btn'',
     deployPrivKeyInput = getElementById ''deploy-privkey-input'',
     deployMnemonicInput = getElementById ''deploy-mnemonic-input'',
     deployBtn = getElementById ''deploy-btn'',
     deployResult = getElementById ''deploy-result'',
     tabs = querySelectorAll ''tab-btn'',
     tabContents = querySelectorAll ''tab-content'',
     displayPub = getElementById ''display-pubkey'',
     displayPriv = getElementById ''display-privkey'',
     revealPrivBtn = getElementById ''reveal-privBtn'',
     logoutBtn = getElementById ''logout-btn'',
     copyAddressBtn = getElementById ''copy-address'',
     toast = getElementById ''notification-toast''\<rparr>"

lemma UI_value:
  "UI = \<lparr>setupSection = Some SetupSection, backupSection = Some BackupSection, walletSection = Some WalletSection,
     mainDashboard = None, generateBtn = Some GenerateBtn, restoreBtn = Some RestoreBtn, restoreArea = Some RestoreArea,
     tabMnemonic = Some TabMnemonic, tabPrivKey = Some TabPrivKey, restoreMnemonicContent = Some RestoreMnemonicContent,
     restorePrivKeyContent = Some RestorePrivKeyContent, mnemonicInput = Some MnemonicInput, privKeyInput = Some PrivKeyInput,
     passphraseInput = Some PassphraseInput, restorePassInput = Some RestorePassInput, confirmRestoreBtn = Some ConfirmRestoreBtn,
     displayAddress = Some DisplayAddress, backupMnemonicGrid = Some BackupMnemonicGrid, copyMnemonicBtn = Some CopyMnemonicBtn,
     backupConfirmBtn = Some BackupConfirmBtn, deployPrivKeyInput = None, deployMnemonicInput = None,
     deployBtn = Some DeployBtn, deployResult = Some DeployResult, tabs = [TabMnemonic, TabPrivKey, TabKeys, TabDeploy],
     tabContents = [KeysTab, DeployTab], displayPub = Some DisplayPub, displayPriv = Some DisplayPriv,
     revealPrivBtn = Some RevealPrivBtn, logoutBtn = Some LogoutBtn, copyAddressBtn = Some CopyAddressBtn,
     toast = Some NotificationToast\<rparr>"
  by code_simp

end
