(* ===== verification/Wallet_Ui.thy ===== *)
theory Wallet_Ui
  imports Wallet_Page
begin

text \<open>
  The browser face of the wallet (\<open>Wallet/main.js\<close>). A handler is a computation on the page;
  references that are null stay null, so that using one throws. The user, the timers and
  the end of the loading drive the page through a step relation in which only what is visible
  can be clicked. Whether the module loads, the answer to \<open>confirm\<close>, whether the clipboard can be written and the randomness of
  the wallet come from outside; the finalization of unreachable wallets is not modelled.
\<close>

section \<open>State\<close>

datatype timer = HideToast | EnterDashboard

text \<open>The functions that \<open>attachEvents\<close> registers.\<close>

datatype handler = CreateWallet | ToggleRestore | RestoreWallet | BackupConfirm | CopyMnemonic | SwitchRestoreTab string
  | TabClick elem | HandleDeploy | RevealPriv | CopyAddress | ConfirmLogout

text \<open>
  The clipboard of the host at the time of a click: \<open>navigator.clipboard\<close> is undefined (on a page without a secure
  context), its promise rejects, or the text is written.
\<close>

datatype clipboard_api = NoClipboard | Rejects thrown | Writes

record ('s, 'p) page =
  p_eng :: "('s, 'p) engine"
  wallet :: "nat option"
  classes :: "elem \<Rightarrow> string list"
  text_of :: "elem \<Rightarrow> string"
  value_of :: "elem \<Rightarrow> string"
  clipboard :: "string option"
  timers :: "timer list"
  listeners :: "(elem \<times> handler) list"
  answer :: bool
  clip :: clipboard_api
  starting :: bool
  reloading :: bool
  uncaught :: "thrown list"

definition has_class :: "('s, 'p) page \<Rightarrow> elem \<Rightarrow> string \<Rightarrow> bool" where
  "has_class p e cls = (cls \<in> set (classes p e))"

abbreviation hidden :: "('s, 'p) page \<Rightarrow> elem \<Rightarrow> bool" where
  "hidden p e \<equiv> has_class p e ''hidden''"

definition visible :: "('s, 'p) page \<Rightarrow> elem \<Rightarrow> bool" where
  "visible p e = list_all (\<lambda>a. \<not> hidden p a) (e # enclosing e)"

section \<open>The document\<close>

definition page_do :: "(('s, 'p) page \<Rightarrow> ('s, 'p) page) \<Rightarrow> (('s, 'p) page, unit) io" where
  "page_do f = world_call (\<lambda>p. (Ok (), f p))"

definition page_ask :: "(('s, 'p) page \<Rightarrow> 'a) \<Rightarrow> (('s, 'p) page, 'a) io" where
  "page_ask f = world_call (\<lambda>p. (Ok (f p), p))"

definition element :: "string \<Rightarrow> elem option \<Rightarrow> (('s, 'p) page, elem) io" where
  "element prop r = (case r of Some e \<Rightarrow> ret e | None \<Rightarrow> throw (cannot_read ''null'' prop))"

definition add_class :: "elem \<Rightarrow> string \<Rightarrow> ('s, 'p) page \<Rightarrow> ('s, 'p) page" where
  "add_class e cls p = p\<lparr>classes := (classes p)(e := (if has_class p e cls then classes p e else classes p e @ [cls]))\<rparr>"

definition remove_class :: "elem \<Rightarrow> string \<Rightarrow> ('s, 'p) page \<Rightarrow> ('s, 'p) page" where
  "remove_class e cls p = p\<lparr>classes := (classes p)(e := filter (\<lambda>c. c \<noteq> cls) (classes p e))\<rparr>"

definition toggle_class :: "elem \<Rightarrow> string \<Rightarrow> ('s, 'p) page \<Rightarrow> ('s, 'p) page" where
  "toggle_class e cls p = (if has_class p e cls then remove_class e cls p else add_class e cls p)"

definition classList_add :: "elem option \<Rightarrow> string \<Rightarrow> (('s, 'p) page, unit) io" where
  "classList_add r cls = await (element ''classList'' r) (\<lambda>e. page_do (add_class e cls))"

definition classList_remove :: "elem option \<Rightarrow> string \<Rightarrow> (('s, 'p) page, unit) io" where
  "classList_remove r cls = await (element ''classList'' r) (\<lambda>e. page_do (remove_class e cls))"

definition classList_toggle :: "elem option \<Rightarrow> string \<Rightarrow> (('s, 'p) page, unit) io" where
  "classList_toggle r cls = await (element ''classList'' r) (\<lambda>e. page_do (toggle_class e cls))"

definition classList_contains :: "elem option \<Rightarrow> string \<Rightarrow> (('s, 'p) page, bool) io" where
  "classList_contains r cls = await (element ''classList'' r) (\<lambda>e. page_ask (\<lambda>p. has_class p e cls))"

definition set_text :: "elem option \<Rightarrow> string \<Rightarrow> (('s, 'p) page, unit) io" where
  "set_text r t = (case r of
     Some e \<Rightarrow> page_do (\<lambda>p. p\<lparr>text_of := (text_of p)(e := t)\<rparr>)
   | None \<Rightarrow> throw (TypeError (''Cannot set properties of null (setting '' @ [CHR 0x27] @ ''textContent'' @ [CHR 0x27] @ '')'')))"

definition input_value :: "elem option \<Rightarrow> (('s, 'p) page, string) io" where
  "input_value r = await (element ''value'' r) (\<lambda>e. page_ask (\<lambda>p. value_of p e))"

definition set_timeout :: "timer \<Rightarrow> (('s, 'p) page, unit) io" where
  "set_timeout t = page_do (\<lambda>p. p\<lparr>timers := timers p @ [t]\<rparr>)"

text \<open>\<open>navigator.clipboard.writeText(t)\<close>, whose promise nobody handles.\<close>

definition clipboard_write :: "string \<Rightarrow> (('s, 'p) page, unit) io" where
  "clipboard_write t = await (page_ask clip) (\<lambda>k. case k of
     NoClipboard \<Rightarrow> throw (cannot_read ''undefined'' ''writeText'')
   | Rejects e \<Rightarrow> page_do (\<lambda>p. p\<lparr>uncaught := uncaught p @ [e]\<rparr>)
   | Writes \<Rightarrow> page_do (\<lambda>p. p\<lparr>clipboard := Some t\<rparr>))"

definition page_engine :: "(('s, 'p) engine \<Rightarrow> 'a outcome \<times> ('s, 'p) engine) \<Rightarrow> (('s, 'p) page, 'a) io" where
  "page_engine f = world_call (\<lambda>p. case f (p_eng p) of (r, g) \<Rightarrow> (r, p\<lparr>p_eng := g\<rparr>))"

text \<open>\<open>wallet.f()\<close>, with the module variable \<open>wallet\<close> possibly null.\<close>

definition wallet_call :: "string \<Rightarrow> (nat \<Rightarrow> ('s, 'p) engine \<Rightarrow> 'a outcome) \<Rightarrow> (('s, 'p) page, 'a) io" where
  "wallet_call f k = await (page_ask wallet) (\<lambda>w. case w of
     Some q \<Rightarrow> page_engine (\<lambda>g. (k q g, g)) | None \<Rightarrow> throw (cannot_read ''null'' f))"

section \<open>Handlers\<close>

definition showToast :: "string \<Rightarrow> (('s, 'p) page, unit) io" where
  "showToast msg =
     await (set_text (toast UI) msg) (\<lambda>_.
     await (classList_add (toast UI) ''show'') (\<lambda>_. set_timeout HideToast))"

definition renderWalletInfo :: "('m, 'x, 's, 'p, 'g) crypto \<Rightarrow> ('s, 'p) runtime \<Rightarrow> (('s, 'p) page, unit) io" where
  "renderWalletInfo c rt =
     await (wallet_call ''address'' (js_address c rt)) (\<lambda>a.
     await (set_text (displayAddress UI) a) (\<lambda>_.
     await (wallet_call ''publicKey'' (js_publicKey c rt)) (\<lambda>k.
     await (set_text (displayPub UI) k) (\<lambda>_.
     await (wallet_call ''privateKey'' (js_privateKey c rt)) (\<lambda>s.
     set_text (displayPriv UI) s)))))"

fun split_spaces :: "string \<Rightarrow> string list" where
  "split_spaces [] = [[]]"
| "split_spaces (ch # cs) = (case split_spaces cs of
     w # ws \<Rightarrow> if ch = CHR '' '' then [] # w # ws else (ch # w) # ws | [] \<Rightarrow> [])"

definition grid_html :: "string list \<Rightarrow> string" where
  "grid_html ws = concat (map (\<lambda>(i, w). ''<span>'' @ nat_to_string (i + 1) @ ''. '' @ w @ ''</span>'') (zip [0..<length ws] ws))"

definition createWallet :: "('m, 'x, 's, 'p, 'g) crypto \<Rightarrow> ('s, 'p) runtime \<Rightarrow> (('s, 'p) page, unit) io" where
  "createWallet c rt = try_catch
     (await (input_value (passphraseInput UI)) (\<lambda>v. let pass = trim v in
      if pass = [] then showToast ''Password is REQUIRED for security!''
      else if length pass < 8 then showToast ''Password must be at least 8 characters!''
      else
        await (page_engine (js_new c rt (Some pass))) (\<lambda>q.
        await (page_do (\<lambda>p. p\<lparr>wallet := Some q\<rparr>)) (\<lambda>_.
        await (classList_add (setupSection UI) ''hidden'') (\<lambda>_.
        await (classList_remove (backupSection UI) ''hidden'') (\<lambda>_.
        await (wallet_call ''mnemonic'' (js_mnemonic rt)) (\<lambda>phrase.
        let gridHtml = grid_html (split_spaces phrase) in
        await (if backupMnemonicGrid UI \<noteq> None then set_text (backupMnemonicGrid UI) gridHtml else ret ()) (\<lambda>_.
        renderWalletInfo c rt))))))))
     (\<lambda>e. showToast (''Generation failed: '' @ thrown_text e))"

definition restoreWallet :: "('m, 'x, 's, 'p, 'g) crypto \<Rightarrow> ('s, 'p) runtime \<Rightarrow> (('s, 'p) page, unit) io" where
  "restoreWallet c rt =
     (let shown = (\<lambda>q.
        await (page_do (\<lambda>p. p\<lparr>wallet := Some q\<rparr>)) (\<lambda>_.
        await (classList_add (setupSection UI) ''hidden'') (\<lambda>_.
        await (classList_remove (walletSection UI) ''hidden'') (\<lambda>_.
        await (renderWalletInfo c rt) (\<lambda>_. showToast ''Wallet Restored!'')))))
      in try_catch
       (await (classList_contains (tabMnemonic UI) ''active'') (\<lambda>by_phrase.
        if by_phrase then
          await (input_value (mnemonicInput UI)) (\<lambda>v. let phrase = trim v in
          await (input_value (restorePassInput UI)) (\<lambda>u. let pass = (if trim u = [] then None else Some (trim u)) in
          if phrase = [] then showToast ''Enter Mnemonic Phrase''
          else await (page_engine (js_fromMnemonic c rt phrase pass)) shown))
        else
          await (input_value (privKeyInput UI)) (\<lambda>v. let hex = trim v in
          if hex = [] then showToast ''Enter Private Key''
          else await (page_engine (js_fromPrivateKey c rt hex)) shown)))
       (\<lambda>e. showToast (''Restore Failed: '' @ thrown_text e)))"

definition switchRestoreTab :: "string \<Rightarrow> (('s, 'p) page, unit) io" where
  "switchRestoreTab mode =
     (if mode = ''mnemonic'' then
        await (classList_add (tabMnemonic UI) ''active'') (\<lambda>_.
        await (classList_remove (tabPrivKey UI) ''active'') (\<lambda>_.
        await (classList_remove (restoreMnemonicContent UI) ''hidden'') (\<lambda>_.
        classList_add (restorePrivKeyContent UI) ''hidden'')))
      else
        await (classList_remove (tabMnemonic UI) ''active'') (\<lambda>_.
        await (classList_add (tabPrivKey UI) ''active'') (\<lambda>_.
        await (classList_add (restoreMnemonicContent UI) ''hidden'') (\<lambda>_.
        classList_remove (restorePrivKeyContent UI) ''hidden''))))"

fun for_each :: "'a list \<Rightarrow> ('a \<Rightarrow> ('w, unit) io) \<Rightarrow> ('w, unit) io" where
  "for_each [] f = ret ()"
| "for_each (x # xs) f = await (f x) (\<lambda>_. for_each xs f)"

definition tab_click :: "elem \<Rightarrow> (('s, 'p) page, unit) io" where
  "tab_click tab =
     await (for_each (tabs UI) (\<lambda>t. classList_remove (Some t) ''active'')) (\<lambda>_.
     await (for_each (tabContents UI) (\<lambda>t. classList_add (Some t) ''hidden'')) (\<lambda>_.
     await (classList_add (Some tab) ''active'') (\<lambda>_.
     let name = (case data_tab tab of Some d \<Rightarrow> d | None \<Rightarrow> ''undefined'') in
     classList_remove (getElementById (name @ ''-tab'')) ''hidden'')))"

text \<open>The text of the banner begins with the check mark in UTF-8.\<close>

definition handleDeploy :: "(('s, 'p) page, unit) io" where
  "handleDeploy = try_catch
     (await (element ''className'' (deployResult UI)) (\<lambda>e.
      await (page_do (\<lambda>p. p\<lparr>classes := (classes p)(e := [''banner'', ''success''])\<rparr>)) (\<lambda>_.
      await (classList_remove (deployResult UI) ''hidden'') (\<lambda>_.
      await (set_text (deployResult UI) ([CHR 0xE2, CHR 0x9C, CHR 0x85] @
        '' <strong>KEYS CONFIRMED</strong><br>Entering Retardio Network...'')) (\<lambda>_.
      await (showToast ''Welcome to Retardio Network'') (\<lambda>_. set_timeout EnterDashboard))))))
     (\<lambda>e. showToast (''Deployment Error: '' @ thrown_text e))"

definition confirmLogout :: "(('s, 'p) page, unit) io" where
  "confirmLogout = await (page_ask answer) (\<lambda>yes.
     if yes then page_do (\<lambda>p. p\<lparr>wallet := None, reloading := True\<rparr>) else ret ())"

definition copyMnemonic :: "('s, 'p) runtime \<Rightarrow> (('s, 'p) page, unit) io" where
  "copyMnemonic rt =
     await (page_ask wallet) (\<lambda>w.
     await (if w \<noteq> None then wallet_call ''mnemonic'' (js_mnemonic rt) else ret []) (\<lambda>text.
     if text \<noteq> [] \<and> \<not> is_prefix ''N/A'' text
     then await (clipboard_write text) (\<lambda>_. showToast ''Recovery Phrase copied!'')
     else showToast ''No mnemonic to copy!''))"

definition backupConfirm :: "(('s, 'p) page, unit) io" where
  "backupConfirm =
     await (classList_add (backupSection UI) ''hidden'') (\<lambda>_.
     await (classList_remove (walletSection UI) ''hidden'') (\<lambda>_. showToast ''Wallet Active!''))"

definition revealPriv :: "(('s, 'p) page, unit) io" where
  "revealPriv =
     await (classList_toggle (displayPriv UI) ''blur'') (\<lambda>_.
     await (classList_contains (displayPriv UI) ''blur'') (\<lambda>b.
     set_text (revealPrivBtn UI) (if b then ''REVEAL'' else ''HIDE'')))"

definition copyAddress :: "(('s, 'p) page, unit) io" where
  "copyAddress =
     await (element ''textContent'' (displayAddress UI)) (\<lambda>e.
     await (page_ask (\<lambda>p. text_of p e)) (\<lambda>t.
     await (clipboard_write t) (\<lambda>_. showToast ''Address copied to clipboard!'')))"

fun run_handler :: "('m, 'x, 's, 'p, 'g) crypto \<Rightarrow> ('s, 'p) runtime \<Rightarrow> handler \<Rightarrow> (('s, 'p) page, unit) io" where
  "run_handler c rt CreateWallet = createWallet c rt"
| "run_handler c rt ToggleRestore = classList_toggle (restoreArea UI) ''hidden''"
| "run_handler c rt RestoreWallet = restoreWallet c rt"
| "run_handler c rt BackupConfirm = backupConfirm"
| "run_handler c rt CopyMnemonic = copyMnemonic rt"
| "run_handler c rt (SwitchRestoreTab mode) = switchRestoreTab mode"
| "run_handler c rt (TabClick t) = tab_click t"
| "run_handler c rt HandleDeploy = handleDeploy"
| "run_handler c rt RevealPriv = revealPriv"
| "run_handler c rt CopyAddress = copyAddress"
| "run_handler c rt ConfirmLogout = confirmLogout"

section \<open>Loading\<close>

definition listen :: "elem option \<Rightarrow> handler \<Rightarrow> (('s, 'p) page, unit) io" where
  "listen r h = await (element ''addEventListener'' r) (\<lambda>e. page_do (\<lambda>p. p\<lparr>listeners := listeners p @ [(e, h)]\<rparr>))"

definition attachEvents :: "(('s, 'p) page, unit) io" where
  "attachEvents =
     await (listen (generateBtn UI) CreateWallet) (\<lambda>_.
     await (listen (restoreBtn UI) ToggleRestore) (\<lambda>_.
     await (listen (confirmRestoreBtn UI) RestoreWallet) (\<lambda>_.
     await (listen (backupConfirmBtn UI) BackupConfirm) (\<lambda>_.
     await (listen (copyMnemonicBtn UI) CopyMnemonic) (\<lambda>_.
     await (listen (tabMnemonic UI) (SwitchRestoreTab ''mnemonic'')) (\<lambda>_.
     await (listen (tabPrivKey UI) (SwitchRestoreTab ''privkey'')) (\<lambda>_.
     await (for_each (tabs UI) (\<lambda>tab. listen (Some tab) (TabClick tab))) (\<lambda>_.
     await (listen (deployBtn UI) HandleDeploy) (\<lambda>_.
     await (listen (revealPrivBtn UI) RevealPriv) (\<lambda>_.
     await (listen (copyAddressBtn UI) CopyAddress) (\<lambda>_.
     await (listen (logoutBtn UI) ConfirmLogout) (\<lambda>_.
     let dashLogout = getElementById ''logout-btn-dashboard'' in
     if dashLogout \<noteq> None then listen dashLogout ConfirmLogout else ret ()))))))))))))"

definition start :: "load_error option \<Rightarrow> (('s, 'p) page, unit) io" where
  "start failure = try_catch
     (await (page_engine (js_init failure)) (\<lambda>_.
      await (console_write LogLevel [LText ''WASM Initialized'']) (\<lambda>_. attachEvents)))
     (\<lambda>e. showToast (''Failed to initialize WASM: '' @ thrown_message e))"

text \<open>
  The page after the script has been evaluated and before the module is loaded. The last line
  of the script is an identifier that nothing defines.
\<close>

definition evaluated :: "byte list list \<Rightarrow> ('s, 'p) page" where
  "evaluated rnds = \<lparr>p_eng = \<lparr>wasm = None, instances = [], entropy = rnds\<rparr>, wallet = None, classes = html_classes,
     text_of = html_text, value_of = (\<lambda>_. []), clipboard = None, timers = [], listeners = [], answer = False, clip = Writes, starting = True,
     reloading = False, uncaught = [ReferenceError ''Greenland is not defined'']\<rparr>"

section \<open>Events\<close>

fun fire :: "timer \<Rightarrow> (('s, 'p) page, unit) io" where
  "fire HideToast = classList_remove (toast UI) ''show''"
| "fire EnterDashboard = await (classList_add (walletSection UI) ''hidden'') (\<lambda>_. classList_remove (mainDashboard UI) ''hidden'')"

type_synonym ('s, 'p) browser = "('s, 'p) page machine"

text \<open>An exception that leaves a task is reported and the page goes on.\<close>

definition run_task :: "(('s, 'p) page, unit) io \<Rightarrow> ('s, 'p) browser \<Rightarrow> ('s, 'p) browser" where
  "run_task h m = (case h m of (Ok _, m') \<Rightarrow> m'
     | (Throw e, m') \<Rightarrow> m'\<lparr>world := (world m')\<lparr>uncaught := uncaught (world m') @ [e]\<rparr>\<rparr>)"

definition handlers_of :: "elem \<Rightarrow> ('s, 'p) page \<Rightarrow> handler list" where
  "handlers_of e p = map snd (filter (\<lambda>(x, h). x = e) (listeners p))"

definition dispatch :: "('m, 'x, 's, 'p, 'g) crypto \<Rightarrow> ('s, 'p) runtime \<Rightarrow> elem \<Rightarrow> ('s, 'p) browser \<Rightarrow> ('s, 'p) browser" where
  "dispatch c rt e m = foldl (\<lambda>m h. run_task (run_handler c rt h) m) m (handlers_of e (world m))"

abbreviation upd_page :: "(('s, 'p) page \<Rightarrow> ('s, 'p) page) \<Rightarrow> ('s, 'p) browser \<Rightarrow> ('s, 'p) browser" where
  "upd_page f m \<equiv> m\<lparr>world := f (world m)\<rparr>"

inductive ui_step :: "('m, 'x, 's, 'p, 'g) crypto \<Rightarrow> ('s, 'p) runtime \<Rightarrow> ('s, 'p) browser \<Rightarrow> ('s, 'p) browser \<Rightarrow> bool"
  for c :: "('m, 'x, 's, 'p, 'g) crypto" and rt :: "('s, 'p) runtime" where
  load: "starting (world m) \<Longrightarrow> ui_step c rt m (run_task (start failure) (upd_page (\<lambda>p. p\<lparr>starting := False\<rparr>) m))"
| click: "visible (world m) e \<Longrightarrow> \<not> reloading (world m) \<Longrightarrow>
    ui_step c rt m (dispatch c rt e (upd_page (\<lambda>p. p\<lparr>answer := yes, clip := k\<rparr>) m))"
| type_in: "visible (world m) e \<Longrightarrow> \<not> reloading (world m) \<Longrightarrow>
    ui_step c rt m (upd_page (\<lambda>p. p\<lparr>value_of := (value_of p)(e := t)\<rparr>) m)"
| timeout: "i < length (timers (world m)) \<Longrightarrow>
    ui_step c rt m (run_task (fire (timers (world m) ! i))
      (upd_page (\<lambda>p. p\<lparr>timers := take i (timers p) @ drop (Suc i) (timers p)\<rparr>) m))"
| reload: "ui_step c rt m (upd_page (\<lambda>p. (evaluated (entropy (p_eng p)))\<lparr>clipboard := clipboard p\<rparr>) m)"

definition opened :: "byte list list \<Rightarrow> ('s, 'p) browser" where
  "opened rnds = \<lparr>console = [], world = evaluated rnds\<rparr>"

abbreviation browses :: "('m, 'x, 's, 'p, 'g) crypto \<Rightarrow> ('s, 'p) runtime \<Rightarrow> ('s, 'p) browser \<Rightarrow> ('s, 'p) browser \<Rightarrow> bool" where
  "browses c rt \<equiv> (ui_step c rt)\<^sup>*\<^sup>*"

section \<open>What the primitives do\<close>

lemma UI_fields [page_simps]:
  "setupSection UI = Some SetupSection" "backupSection UI = Some BackupSection" "walletSection UI = Some WalletSection"
  "mainDashboard UI = None" "generateBtn UI = Some GenerateBtn" "restoreBtn UI = Some RestoreBtn"
  "restoreArea UI = Some RestoreArea" "tabMnemonic UI = Some TabMnemonic" "tabPrivKey UI = Some TabPrivKey"
  "restoreMnemonicContent UI = Some RestoreMnemonicContent" "restorePrivKeyContent UI = Some RestorePrivKeyContent"
  "mnemonicInput UI = Some MnemonicInput" "privKeyInput UI = Some PrivKeyInput" "passphraseInput UI = Some PassphraseInput"
  "restorePassInput UI = Some RestorePassInput" "confirmRestoreBtn UI = Some ConfirmRestoreBtn"
  "displayAddress UI = Some DisplayAddress" "backupMnemonicGrid UI = Some BackupMnemonicGrid"
  "copyMnemonicBtn UI = Some CopyMnemonicBtn" "backupConfirmBtn UI = Some BackupConfirmBtn" "deployBtn UI = Some DeployBtn"
  "deployResult UI = Some DeployResult" "tabs UI = [TabMnemonic, TabPrivKey, TabKeys, TabDeploy]"
  "tabContents UI = [KeysTab, DeployTab]" "displayPub UI = Some DisplayPub" "displayPriv UI = Some DisplayPriv"
  "revealPrivBtn UI = Some RevealPrivBtn" "logoutBtn UI = Some LogoutBtn" "copyAddressBtn UI = Some CopyAddressBtn"
  "toast UI = Some NotificationToast"
  by (simp_all add: UI_value)

lemma page_prims [page_simps]:
  "page_do f m = (Ok (), upd_page f m)"
  "page_ask g m = (Ok (g (world m)), m)"
  "element prop (Some e) m = (Ok e, m)"
  "element prop None m = (Throw (cannot_read ''null'' prop), m)"
  "set_text (Some e) t m = (Ok (), upd_page (\<lambda>p. p\<lparr>text_of := (text_of p)(e := t)\<rparr>) m)"
  "set_timeout tm m = (Ok (), upd_page (\<lambda>p. p\<lparr>timers := timers p @ [tm]\<rparr>) m)"
  "clipboard_write t m = (case clip (world m) of
     NoClipboard \<Rightarrow> (Throw (cannot_read ''undefined'' ''writeText''), m)
   | Rejects e \<Rightarrow> (Ok (), upd_page (\<lambda>p. p\<lparr>uncaught := uncaught p @ [e]\<rparr>) m)
   | Writes \<Rightarrow> (Ok (), upd_page (\<lambda>p. p\<lparr>clipboard := Some t\<rparr>) m))"
  by (simp_all add: page_do_def page_ask_def world_call_def element_def ret_def throw_def set_text_def set_timeout_def clipboard_write_def
      await_def split: clipboard_api.splits)

lemma class_prims [page_simps]:
  "classList_add (Some e) cls m = (Ok (), upd_page (add_class e cls) m)"
  "classList_remove (Some e) cls m = (Ok (), upd_page (remove_class e cls) m)"
  "classList_toggle (Some e) cls m = (Ok (), upd_page (toggle_class e cls) m)"
  "classList_contains (Some e) cls m = (Ok (has_class (world m) e cls), m)"
  "classList_remove None cls m = (Throw (cannot_read ''null'' ''classList''), m)"
  "input_value (Some e) m = (Ok (value_of (world m) e), m)"
  by (simp_all add: classList_add_def classList_remove_def classList_toggle_def classList_contains_def input_value_def
      await_def page_prims)

lemma class_fields [page_simps]:
  "p_eng (add_class e cls p) = p_eng p" "wallet (add_class e cls p) = wallet p" "text_of (add_class e cls p) = text_of p"
  "timers (add_class e cls p) = timers p" "listeners (add_class e cls p) = listeners p" "reloading (add_class e cls p) = reloading p"
  "value_of (add_class e cls p) = value_of p" "uncaught (add_class e cls p) = uncaught p" "clipboard (add_class e cls p) = clipboard p"
  "p_eng (remove_class e cls p) = p_eng p" "wallet (remove_class e cls p) = wallet p" "text_of (remove_class e cls p) = text_of p"
  "timers (remove_class e cls p) = timers p" "listeners (remove_class e cls p) = listeners p" "reloading (remove_class e cls p) = reloading p"
  "value_of (remove_class e cls p) = value_of p" "uncaught (remove_class e cls p) = uncaught p" "clipboard (remove_class e cls p) = clipboard p"
  "p_eng (toggle_class e cls p) = p_eng p" "wallet (toggle_class e cls p) = wallet p" "text_of (toggle_class e cls p) = text_of p"
  "timers (toggle_class e cls p) = timers p" "listeners (toggle_class e cls p) = listeners p" "reloading (toggle_class e cls p) = reloading p"
  "uncaught (toggle_class e cls p) = uncaught p" "starting (add_class e cls p) = starting p"
  "starting (remove_class e cls p) = starting p" "starting (toggle_class e cls p) = starting p"
  by (simp_all add: add_class_def remove_class_def toggle_class_def)

lemma class_effects [page_simps]:
  "has_class (add_class e cls p) f d \<longleftrightarrow> has_class p f d \<or> (f = e \<and> d = cls)"
  "has_class (remove_class e cls p) f d \<longleftrightarrow> has_class p f d \<and> \<not> (f = e \<and> d = cls)"
  "has_class (toggle_class e cls p) f d \<longleftrightarrow> (if f = e \<and> d = cls then \<not> has_class p f d else has_class p f d)"
  by (auto simp: has_class_def add_class_def remove_class_def toggle_class_def)

lemma class_others [page_simps]:
  "has_class (p\<lparr>p_eng := g\<rparr>) f d = has_class p f d" "has_class (p\<lparr>wallet := w\<rparr>) f d = has_class p f d"
  "has_class (p\<lparr>text_of := t\<rparr>) f d = has_class p f d" "has_class (p\<lparr>value_of := v\<rparr>) f d = has_class p f d"
  "has_class (p\<lparr>clipboard := b\<rparr>) f d = has_class p f d" "has_class (p\<lparr>timers := ts\<rparr>) f d = has_class p f d"
  "has_class (p\<lparr>listeners := ls\<rparr>) f d = has_class p f d" "has_class (p\<lparr>answer := a\<rparr>) f d = has_class p f d"
  "has_class (p\<lparr>clip := k\<rparr>) f d = has_class p f d"
  "has_class (p\<lparr>starting := a\<rparr>) f d = has_class p f d" "has_class (p\<lparr>reloading := a\<rparr>) f d = has_class p f d"
  "has_class (p\<lparr>uncaught := us\<rparr>) f d = has_class p f d"
  by (simp_all add: has_class_def)

text \<open>The page with a message shown.\<close>

definition toasted :: "string \<Rightarrow> ('s, 'p) page \<Rightarrow> ('s, 'p) page" where
  "toasted msg p = (add_class NotificationToast ''show'' (p\<lparr>text_of := (text_of p)(NotificationToast := msg)\<rparr>))
     \<lparr>timers := timers p @ [HideToast]\<rparr>"

lemma showToast_eq [page_simps]: "showToast msg m = (Ok (), upd_page (toasted msg) m)"
  by (simp add: showToast_def toasted_def await_def page_simps)

lemma toasted_fields [page_simps]:
  "p_eng (toasted msg p) = p_eng p" "wallet (toasted msg p) = wallet p" "listeners (toasted msg p) = listeners p"
  "reloading (toasted msg p) = reloading p" "starting (toasted msg p) = starting p" "value_of (toasted msg p) = value_of p"
  "clipboard (toasted msg p) = clipboard p" "uncaught (toasted msg p) = uncaught p"
  "timers (toasted msg p) = timers p @ [HideToast]"
  "text_of (toasted msg p) e = (if e = NotificationToast then msg else text_of p e)"
  "has_class (toasted msg p) e cls \<longleftrightarrow> has_class p e cls \<or> (e = NotificationToast \<and> cls = ''show'')"
  by (auto simp: toasted_def add_class_def has_class_def)

end
