(* ===== verification/Wallet_Ui_Inv.thy ===== *)
theory Wallet_Ui_Inv
  imports Wallet_Ui
begin

text \<open>
  What the browser face keeps (\<open>Wallet/main.js\<close>): the effect of each handler on the page as a
  whole, and an invariant of every page that the user, the timers and reloads can reach.
\<close>

section \<open>The invariant\<close>

text \<open>The page shows the wallet in hand, and while the backup section is shown, the words of its phrase.\<close>

definition shows_wallet :: "('m, 'x, 's, 'p, 'g) crypto \<Rightarrow> ('s, 'p) page \<Rightarrow> bool" where
  "shows_wallet c p = (\<exists>q w. wallet p = Some q \<and> q \<noteq> 0 \<and> boxes (p_eng p) q = Some w \<and> wallet_ok c w \<and>
     text_of p DisplayAddress = address c w \<and> text_of p DisplayPub = public_key_hex c w \<and>
     text_of p DisplayPriv = private_key_hex c w \<and>
     (\<not> hidden p BackupSection \<longrightarrow> text_of p BackupMnemonicGrid = grid_html (split_spaces (wallet_mnemonic w))))"

text \<open>One section at most is visible: setup, then backup, then the wallet.\<close>

definition sections_ok :: "('s, 'p) page \<Rightarrow> bool" where
  "sections_ok p =
     (if \<not> hidden p SetupSection then hidden p BackupSection \<and> hidden p WalletSection
      else \<not> hidden p BackupSection \<longrightarrow> hidden p WalletSection)"

definition reveal_ok :: "('s, 'p) page \<Rightarrow> bool" where
  "reveal_ok p = (text_of p RevealPrivBtn = (if has_class p DisplayPriv ''blur'' then ''REVEAL'' else ''HIDE''))"

definition restore_ok :: "('s, 'p) page \<Rightarrow> bool" where
  "restore_ok p = (\<not> hidden p SetupSection \<longrightarrow>
     (has_class p TabMnemonic ''active'' \<longleftrightarrow> \<not> hidden p RestoreMnemonicContent) \<and>
     (has_class p TabPrivKey ''active'' \<longleftrightarrow> \<not> hidden p RestorePrivKeyContent) \<and>
     (has_class p TabMnemonic ''active'' \<longleftrightarrow> \<not> has_class p TabPrivKey ''active''))"

definition all_listeners :: "(elem \<times> handler) list" where
  "all_listeners = [(GenerateBtn, CreateWallet), (RestoreBtn, ToggleRestore), (ConfirmRestoreBtn, RestoreWallet),
     (BackupConfirmBtn, BackupConfirm), (CopyMnemonicBtn, CopyMnemonic), (TabMnemonic, SwitchRestoreTab ''mnemonic''),
     (TabPrivKey, SwitchRestoreTab ''privkey''), (TabMnemonic, TabClick TabMnemonic), (TabPrivKey, TabClick TabPrivKey),
     (TabKeys, TabClick TabKeys), (TabDeploy, TabClick TabDeploy), (DeployBtn, HandleDeploy), (RevealPrivBtn, RevealPriv),
     (CopyAddressBtn, CopyAddress), (LogoutBtn, ConfirmLogout)]"

definition ui_inv :: "('m, 'x, 's, 'p, 'g) crypto \<Rightarrow> ('s, 'p) page \<Rightarrow> bool" where
  "ui_inv c p = (engine_ok (p_eng p) \<and>
     (listeners p = [] \<or> listeners p = all_listeners \<and> wasm (p_eng p) \<noteq> None) \<and>
     (starting p \<longrightarrow> listeners p = []) \<and>
     (hidden p SetupSection \<longrightarrow> reloading p \<or> shows_wallet c p) \<and>
     (EnterDashboard \<in> set (timers p) \<longrightarrow> hidden p SetupSection \<and> hidden p BackupSection) \<and>
     sections_ok p \<and> reveal_ok p \<and> restore_ok p)"

lemma evaluated_inv: "ui_inv c ((evaluated rnds)\<lparr>clipboard := b\<rparr>)"
  by (simp add: ui_inv_def evaluated_def engine_ok_def sections_ok_def reveal_ok_def restore_ok_def has_class_def
      html_classes_def html_text_def)

section \<open>What the handlers do\<close>

lemma attachEvents_eq:
  "attachEvents m = (Ok (), upd_page (\<lambda>p. p\<lparr>listeners := listeners p @ all_listeners\<rparr>) m)"
proof -
  have listen: "listen (Some e) h m = (Ok (), upd_page (\<lambda>p. p\<lparr>listeners := listeners p @ [(e, h)]\<rparr>) m)" for e h m
    by (simp add: listen_def await_def page_simps)
  have dash: "getElementById ''logout-btn-dashboard'' = None" by code_simp
  show ?thesis
    by (simp add: attachEvents_def await_def page_simps listen dash ret_def all_listeners_def)
qed

lemma page_engine_eq [page_simps]:
  "page_engine f m = (case f (p_eng (world m)) of (r, g) \<Rightarrow> (r, upd_page (\<lambda>p. p\<lparr>p_eng := g\<rparr>) m))"
  by (simp add: page_engine_def world_call_def split: prod.splits)

lemma wallet_call_eq:
  assumes "wallet (world m) = Some q"
  shows "wallet_call f k m = (k q (p_eng (world m)), m)"
  using assms by (simp add: wallet_call_def await_def page_simps)

lemma renderWalletInfo_eq:
  assumes "wallet (world m) = Some q" "q \<noteq> 0" "wasm (p_eng (world m)) \<noteq> None" "boxes (p_eng (world m)) q = Some w"
  shows "renderWalletInfo c rt m = (Ok (), upd_page (\<lambda>p. p\<lparr>text_of := (text_of p)(DisplayAddress := address c w,
    DisplayPub := public_key_hex c w, DisplayPriv := private_key_hex c w)\<rparr>) m)"
  using assms by (simp add: renderWalletInfo_def await_def wallet_call_eq js_methods method_box page_simps)

lemma shows_wallet_cong:
  "wallet p = wallet p' \<Longrightarrow> boxes (p_eng p) = boxes (p_eng p') \<Longrightarrow>
   hidden p BackupSection = hidden p' BackupSection \<Longrightarrow>
   (\<And>e. e \<in> {DisplayAddress, DisplayPub, DisplayPriv, BackupMnemonicGrid} \<Longrightarrow> text_of p e = text_of p' e) \<Longrightarrow>
   shows_wallet c p = shows_wallet c p'"
  by (simp add: shows_wallet_def)

lemma toasted_inv [simp]: "ui_inv c (toasted msg p) = ui_inv c p"
proof -
  have "shows_wallet c (toasted msg p) = shows_wallet c p" by (rule shows_wallet_cong) (auto simp: page_simps)
  then show ?thesis by (simp add: ui_inv_def sections_ok_def reveal_ok_def restore_ok_def page_simps)
qed

definition shown_texts :: "('m, 'x, 's, 'p, 'g) crypto \<Rightarrow> ('s, 'p) WalletInner \<Rightarrow> (elem \<Rightarrow> string) \<Rightarrow> elem \<Rightarrow> string" where
  "shown_texts c w t = t(DisplayAddress := address c w, DisplayPub := public_key_hex c w, DisplayPriv := private_key_hex c w)"

definition backup_page :: "('m, 'x, 's, 'p, 'g) crypto \<Rightarrow> nat \<Rightarrow> ('s, 'p) WalletInner \<Rightarrow> ('s, 'p) engine \<Rightarrow> ('s, 'p) page \<Rightarrow> ('s, 'p) page" where
  "backup_page c q w g p = (remove_class BackupSection ''hidden'' (add_class SetupSection ''hidden'' (p\<lparr>p_eng := g, wallet := Some q\<rparr>)))
     \<lparr>text_of := shown_texts c w ((text_of p)(BackupMnemonicGrid := grid_html (split_spaces (wallet_mnemonic w))))\<rparr>"

lemma createWallet_cases:
  assumes "runtime_ok rt" "engine_ok (p_eng (world m))" "wasm (p_eng (world m)) \<noteq> None"
  obtains (short) msg where "length (trim (value_of (world m) PassphraseInput)) < 8"
      "createWallet c rt m = (Ok (), upd_page (toasted msg) m)"
  | (failed) msg en where "createWallet c rt m = (Ok (), upd_page (\<lambda>p. toasted msg (p\<lparr>p_eng := (p_eng p)\<lparr>entropy := en\<rparr>\<rparr>)) m)"
      "\<forall>w. new_random c (case entropy (p_eng (world m)) of r # _ \<Rightarrow> r | [] \<Rightarrow> []) (Some (trim (value_of (world m) PassphraseInput))) \<noteq> ROk w"
  | (made) q w g where "8 \<le> length (trim (value_of (world m) PassphraseInput))"
      "new_random c (case entropy (p_eng (world m)) of r # _ \<Rightarrow> r | [] \<Rightarrow> []) (Some (trim (value_of (world m) PassphraseInput))) = ROk w"
      "q \<noteq> 0" "engine_ok g" "wasm g = wasm (p_eng (world m))" "boxes g q = Some w" "wallet_ok c w"
      "createWallet c rt m = (Ok (), upd_page (backup_page c q w g) m)"
proof -
  let ?pass = "trim (value_of (world m) PassphraseInput)" and ?g = "p_eng (world m)"
  let ?rnd = "case entropy ?g of r # _ \<Rightarrow> r | [] \<Rightarrow> []"
  let ?gt = "?g\<lparr>entropy := tl (entropy ?g)\<rparr>"
  show thesis
  proof (cases "length ?pass < 8")
    case True
    then have "\<exists>msg. createWallet c rt m = (Ok (), upd_page (toasted msg) m)"
      by (auto simp: createWallet_def try_catch_def await_def page_simps Let_def)
    then show thesis using True short by blast
  next
    case False
    then have ne: "?pass \<noteq> []" "\<not> length ?pass < 8" by auto
    have g0: "engine_ok ?gt" "wasm ?gt \<noteq> None" using assms by simp_all
    have new: "js_new c rt (Some ?pass) ?g = make_wallet rt ''wallet_new'' (new_random c ?rnd (Some ?pass)) ?gt"
      by (simp add: js_new_def Let_def)
    from assms(1) g0 show thesis
    proof (cases rule: make_wallet_cases [where r = "new_random c ?rnd (Some ?pass)" and f = "''wallet_new''"])
      case (made w q g)
      have "createWallet c rt m = (Ok (), upd_page (backup_page c q w g) m)"
        using ne made assms(3)
        by (simp add: createWallet_def try_catch_def await_def page_simps Let_def new wallet_call_eq js_mnemonic_def method_box
            renderWalletInfo_eq [where q = q and w = w] backup_page_def shown_texts_def)
      then show thesis using made ne new_random_ok by (intro that(3) [of w q g]) auto
    next
      case (failed e)
      then show thesis using ne
        by (intro that(2) [of "''Generation failed: '' @ e" "tl (entropy ?g)"])
          (simp_all add: createWallet_def try_catch_def await_def page_simps Let_def new)
    next
      case (panicked q)
      then show thesis using ne
        by (intro that(2) [of "''Generation failed: RuntimeError: unreachable''" "tl (entropy ?g)"])
          (simp_all add: createWallet_def try_catch_def await_def page_simps Let_def new)
    qed
  qed
qed

definition restored_page :: "('m, 'x, 's, 'p, 'g) crypto \<Rightarrow> nat \<Rightarrow> ('s, 'p) WalletInner \<Rightarrow> ('s, 'p) engine \<Rightarrow> ('s, 'p) page \<Rightarrow> ('s, 'p) page" where
  "restored_page c q w g p = toasted ''Wallet Restored!''
     ((remove_class WalletSection ''hidden'' (add_class SetupSection ''hidden'' (p\<lparr>p_eng := g, wallet := Some q\<rparr>)))
       \<lparr>text_of := shown_texts c w (text_of p)\<rparr>)"

text \<open>What the user asks to restore, from the tab that is active.\<close>

definition restore_request :: "('m, 'x, 's, 'p, 'g) crypto \<Rightarrow> ('s, 'p) page \<Rightarrow> ('s, 'p) WalletInner rust" where
  "restore_request c p =
     (if has_class p TabMnemonic ''active''
      then from_mnemonic c (trim (value_of p MnemonicInput))
        (if trim (value_of p RestorePassInput) = [] then None else Some (trim (value_of p RestorePassInput)))
      else from_private_key c (trim (value_of p PrivKeyInput)))"

definition restore_input :: "('s, 'p) page \<Rightarrow> string" where
  "restore_input p = trim (value_of p (if has_class p TabMnemonic ''active'' then MnemonicInput else PrivKeyInput))"

lemma restoreWallet_cases:
  assumes "runtime_ok rt" "engine_ok (p_eng (world m))" "wasm (p_eng (world m)) \<noteq> None"
  obtains (refused) msg where "restoreWallet c rt m = (Ok (), upd_page (toasted msg) m)"
      "restore_input (world m) = [] \<or> (\<forall>w. restore_request c (world m) \<noteq> ROk w)"
  | (made) q w g where "restore_input (world m) \<noteq> []" "restore_request c (world m) = ROk w" "wallet_ok c w"
      "q \<noteq> 0" "engine_ok g" "wasm g = wasm (p_eng (world m))" "boxes g q = Some w"
      "restoreWallet c rt m = (Ok (), upd_page (restored_page c q w g) m)"
proof -
  let ?r = "restore_request c (world m)" and ?e = "p_eng (world m)"
  let ?f = "if has_class (world m) TabMnemonic ''active'' then ''wallet_fromMnemonic'' else ''wallet_fromPrivateKey''"
  note defs = restoreWallet_def try_catch_def await_def page_simps Let_def restore_input_def restore_request_def
    js_fromMnemonic_def js_fromPrivateKey_def
  show thesis
  proof (cases "restore_input (world m) = []")
    case True
    then have "\<exists>msg. restoreWallet c rt m = (Ok (), upd_page (toasted msg) m)"
      by (cases "has_class (world m) TabMnemonic ''active''") (auto simp: defs)
    then show thesis using True refused by blast
  next
    case False
    from assms show thesis
    proof (cases rule: make_wallet_cases [where r = ?r and f = ?f])
      case (made w q g)
      have "restoreWallet c rt m = (Ok (), upd_page (restored_page c q w g) m)"
        using False made assms(3)
        by (cases "has_class (world m) TabMnemonic ''active''")
          (simp_all add: defs renderWalletInfo_eq [where q = q and w = w] restored_page_def shown_texts_def)
      moreover have "wallet_ok c w"
        using made(1) from_mnemonic_ok from_private_key_ok by (auto simp: restore_request_def split: if_splits)
      ultimately show thesis using made False by (intro that(2) [of w q g]) auto
    next
      case (failed e)
      then show thesis using False
        by (intro that(1) [of "''Restore Failed: '' @ e"]; cases "has_class (world m) TabMnemonic ''active''") (simp_all add: defs)
    next
      case (panicked q)
      then show thesis using False
        by (intro that(1) [of "''Restore Failed: RuntimeError: unreachable''"]; cases "has_class (world m) TabMnemonic ''active''")
          (simp_all add: defs)
    qed
  qed
qed

section \<open>Every handler keeps the invariant\<close>

lemmas inv_parts = ui_inv_def sections_ok_def reveal_ok_def restore_ok_def

lemma backup_page_inv:
  assumes "ui_inv c p" "\<not> hidden p SetupSection" "q \<noteq> 0" "engine_ok g" "wasm g = wasm (p_eng p)" "boxes g q = Some w" "wallet_ok c w"
  shows "ui_inv c (backup_page c q w g p)"
proof -
  have "shows_wallet c (backup_page c q w g p)"
    using assms by (auto simp: shows_wallet_def backup_page_def shown_texts_def page_simps)
  then show ?thesis
    using assms by (auto simp: inv_parts backup_page_def shown_texts_def page_simps)
qed

lemma restored_page_inv:
  assumes "ui_inv c p" "\<not> hidden p SetupSection" "q \<noteq> 0" "engine_ok g" "wasm g = wasm (p_eng p)" "boxes g q = Some w" "wallet_ok c w"
  shows "ui_inv c (restored_page c q w g p)"
proof -
  have "hidden p BackupSection" using assms(1,2) by (auto simp: inv_parts split: if_splits)
  then have "shows_wallet c (restored_page c q w g p)"
    using assms by (auto simp: shows_wallet_def restored_page_def shown_texts_def page_simps)
  then show ?thesis
    using assms unfolding restored_page_def by (auto simp: inv_parts shown_texts_def page_simps)
qed

lemma class_assign [page_simps]:
  "has_class (p\<lparr>classes := (classes p)(e := cs)\<rparr>) f d \<longleftrightarrow> (if f = e then d \<in> set cs else has_class p f d)"
  by (simp add: has_class_def)

lemma uncaught_inv [simp]: "ui_inv c (p\<lparr>uncaught := us\<rparr>) = ui_inv c p" "ui_inv c (p\<lparr>answer := a\<rparr>) = ui_inv c p"
  "ui_inv c (p\<lparr>clip := k\<rparr>) = ui_inv c p"
  "ui_inv c (p\<lparr>clipboard := b\<rparr>) = ui_inv c p" "ui_inv c (p\<lparr>value_of := v\<rparr>) = ui_inv c p"
  by (simp_all add: inv_parts shows_wallet_def page_simps)

lemma visibleD: "visible p e \<Longrightarrow> a \<in> set (enclosing e) \<Longrightarrow> \<not> hidden p a"
  by (auto simp: visible_def list_all_iff)

lemma createWallet_inv:
  assumes "runtime_ok rt" "ui_inv c (world m)" "wasm (p_eng (world m)) \<noteq> None" "\<not> hidden (world m) SetupSection"
  shows "ui_inv c (world (run_task (createWallet c rt) m))"
proof -
  have "engine_ok (p_eng (world m))" using assms(2) by (simp add: ui_inv_def)
  from assms(1) this assms(3) show ?thesis
  proof (cases rule: createWallet_cases [where c = c])
    case (failed msg en)
    have "ui_inv c ((world m)\<lparr>p_eng := (p_eng (world m))\<lparr>entropy := en\<rparr>\<rparr>)"
      using assms(2) by (auto simp: inv_parts shows_wallet_def page_simps)
    then show ?thesis by (simp add: run_task_def failed(1))
  next
    case (made q w g)
    have "ui_inv c (backup_page c q w g (world m))"
      by (rule backup_page_inv [OF assms(2,4) made(3-7)])
    then show ?thesis by (simp add: run_task_def made(8))
  qed (simp add: run_task_def assms(2))
qed

lemma restoreWallet_inv:
  assumes "runtime_ok rt" "ui_inv c (world m)" "wasm (p_eng (world m)) \<noteq> None" "\<not> hidden (world m) SetupSection"
  shows "ui_inv c (world (run_task (restoreWallet c rt) m))"
proof -
  have "engine_ok (p_eng (world m))" using assms(2) by (simp add: ui_inv_def)
  from assms(1) this assms(3) show ?thesis
  proof (cases rule: restoreWallet_cases [where c = c])
    case (made q w g)
    have "ui_inv c (restored_page c q w g (world m))"
      by (rule restored_page_inv [OF assms(2,4) made(4-7,3)])
    then show ?thesis by (simp add: run_task_def made(8))
  qed (simp add: run_task_def assms(2))
qed

lemma toggle_restore_inv:
  "ui_inv c (world m) \<Longrightarrow> ui_inv c (world (run_task (classList_toggle (restoreArea UI) ''hidden'') m))"
  by (auto simp: run_task_def page_simps inv_parts shows_wallet_def)

lemma backupConfirm_inv:
  assumes "ui_inv c (world m)" "\<not> hidden (world m) BackupSection"
  shows "ui_inv c (world (run_task backupConfirm m))"
proof -
  have "hidden (world m) SetupSection" using assms by (auto simp: inv_parts split: if_splits)
  with assms show ?thesis
    by (auto simp: run_task_def backupConfirm_def await_def page_simps inv_parts shows_wallet_def)
qed

lemma copyMnemonic_inv: "ui_inv c (world m) \<Longrightarrow> ui_inv c (world (run_task (copyMnemonic rt) m))"
proof -
  assume inv: "ui_inv c (world m)"
  obtain r where r: "(if wallet (world m) \<noteq> None then wallet_call ''mnemonic'' (js_mnemonic rt) else ret []) m = (r, m)"
    by (cases "wallet (world m)") (auto simp: wallet_call_eq ret_def)
  show ?thesis
    using inv r by (cases r) (simp_all add: run_task_def copyMnemonic_def await_def page_simps split: clipboard_api.splits)
qed

lemma copyAddress_inv: "ui_inv c (world m) \<Longrightarrow> ui_inv c (world (run_task copyAddress m))"
  by (simp add: run_task_def copyAddress_def await_def page_simps split: clipboard_api.splits)

lemma revealPriv_inv: "ui_inv c (world m) \<Longrightarrow> ui_inv c (world (run_task revealPriv m))"
  by (auto simp: run_task_def revealPriv_def await_def page_simps inv_parts shows_wallet_def)

lemma confirmLogout_inv: "ui_inv c (world m) \<Longrightarrow> ui_inv c (world (run_task confirmLogout m))"
  by (auto simp: run_task_def confirmLogout_def await_def page_simps ret_def inv_parts)

lemma handleDeploy_inv:
  assumes "ui_inv c (world m)" "\<not> hidden (world m) WalletSection"
  shows "ui_inv c (world (run_task handleDeploy m))"
proof -
  have "hidden (world m) SetupSection" "hidden (world m) BackupSection"
    using assms by (auto simp: inv_parts split: if_splits)
  with assms show ?thesis
    by (auto simp: run_task_def handleDeploy_def try_catch_def await_def page_simps inv_parts shows_wallet_def)
qed

text \<open>A click on a tab: the generic handler, which the two restore tabs share.\<close>

lemma tab_lookup:
  "getElementById ''keys-tab'' = Some KeysTab" "getElementById ''deploy-tab'' = Some DeployTab"
  "getElementById ''undefined-tab'' = None"
  by code_simp+

lemma tab_click_class:
  assumes "t \<in> {TabMnemonic, TabPrivKey, TabKeys, TabDeploy}"
  shows "has_class (world (run_task (tab_click t) m)) e cls \<longleftrightarrow>
    (if cls = ''active'' \<and> e \<in> {TabMnemonic, TabPrivKey, TabKeys, TabDeploy} then e = t
     else if cls = ''hidden'' \<and> e \<in> {KeysTab, DeployTab} then \<not> (t = TabKeys \<and> e = KeysTab \<or> t = TabDeploy \<and> e = DeployTab)
     else has_class (world m) e cls)"
  using assms
  by (auto simp: run_task_def tab_click_def await_def page_simps data_tab_def tab_lookup ret_def)

lemma tab_click_rest:
  assumes "t \<in> {TabMnemonic, TabPrivKey, TabKeys, TabDeploy}"
  shows "p_eng (world (run_task (tab_click t) m)) = p_eng (world m)" "wallet (world (run_task (tab_click t) m)) = wallet (world m)"
    "text_of (world (run_task (tab_click t) m)) = text_of (world m)" "timers (world (run_task (tab_click t) m)) = timers (world m)"
    "listeners (world (run_task (tab_click t) m)) = listeners (world m)" "reloading (world (run_task (tab_click t) m)) = reloading (world m)"
    "starting (world (run_task (tab_click t) m)) = starting (world m)"
    "uncaught (world (run_task (tab_click t) m)) = uncaught (world m) @
      (if t \<in> {TabMnemonic, TabPrivKey} then [cannot_read ''null'' ''classList''] else [])"
  using assms
  by (auto simp: run_task_def tab_click_def await_def page_simps data_tab_def tab_lookup ret_def)

lemma wallet_tab_inv:
  assumes "ui_inv c (world m)" "\<not> hidden (world m) WalletSection" "t \<in> {TabKeys, TabDeploy}"
  shows "ui_inv c (world (run_task (tab_click t) m))"
proof -
  have t: "t \<in> {TabMnemonic, TabPrivKey, TabKeys, TabDeploy}" using assms(3) by auto
  have "hidden (world m) SetupSection" using assms(1,2) by (auto simp: inv_parts split: if_splits)
  then show ?thesis
    using assms(1) unfolding inv_parts shows_wallet_def tab_click_class [OF t] tab_click_rest [OF t] by auto
qed

lemma restore_tab_inv:
  assumes "ui_inv c (world m)"
    and "t = TabMnemonic \<and> mode = ''mnemonic'' \<or> t = TabPrivKey \<and> mode = ''privkey''"
  shows "ui_inv c (world (run_task (tab_click t) (run_task (switchRestoreTab mode) m)))"
proof -
  have t: "t \<in> {TabMnemonic, TabPrivKey, TabKeys, TabDeploy}" using assms(2) by auto
  show ?thesis
    using assms unfolding inv_parts shows_wallet_def tab_click_class [OF t] tab_click_rest [OF t]
    by (auto simp: run_task_def switchRestoreTab_def await_def page_simps)
qed

lemma handlers_all:
  "listeners p = all_listeners \<Longrightarrow> handlers_of e p =
     (case e of GenerateBtn \<Rightarrow> [CreateWallet] | RestoreBtn \<Rightarrow> [ToggleRestore] | ConfirmRestoreBtn \<Rightarrow> [RestoreWallet]
      | BackupConfirmBtn \<Rightarrow> [BackupConfirm] | CopyMnemonicBtn \<Rightarrow> [CopyMnemonic]
      | TabMnemonic \<Rightarrow> [SwitchRestoreTab ''mnemonic'', TabClick TabMnemonic]
      | TabPrivKey \<Rightarrow> [SwitchRestoreTab ''privkey'', TabClick TabPrivKey]
      | TabKeys \<Rightarrow> [TabClick TabKeys] | TabDeploy \<Rightarrow> [TabClick TabDeploy] | DeployBtn \<Rightarrow> [HandleDeploy]
      | RevealPrivBtn \<Rightarrow> [RevealPriv] | CopyAddressBtn \<Rightarrow> [CopyAddress] | LogoutBtn \<Rightarrow> [ConfirmLogout] | _ \<Rightarrow> [])"
  by (cases e) (simp_all add: handlers_of_def all_listeners_def)

lemma dispatch_inv:
  assumes "runtime_ok rt" "ui_inv c (world m)" "visible (world m) e"
  shows "ui_inv c (world (dispatch c rt e m))"
proof (cases "listeners (world m) = all_listeners")
  case False
  then show ?thesis using assms(2) by (simp add: ui_inv_def dispatch_def handlers_of_def)
next
  case True
  have w: "wasm (p_eng (world m)) \<noteq> None" using assms(2) True by (auto simp: ui_inv_def all_listeners_def)
  have enc: "\<not> hidden (world m) a" if "a \<in> set (enclosing e)" for a by (rule visibleD [OF assms(3) that])
  note d = dispatch_def handlers_all [OF True] enclosing_def
  show ?thesis
  proof (cases e)
    case GenerateBtn
    then show ?thesis using createWallet_inv [OF assms(1,2) w] enc [of SetupSection] by (simp add: d)
  next
    case RestoreBtn
    then show ?thesis using toggle_restore_inv [OF assms(2)] by (simp add: d)
  next
    case TabMnemonic
    then show ?thesis using restore_tab_inv [OF assms(2), of TabMnemonic] by (simp add: d)
  next
    case TabPrivKey
    then show ?thesis using restore_tab_inv [OF assms(2), of TabPrivKey] by (simp add: d)
  next
    case ConfirmRestoreBtn
    then show ?thesis using restoreWallet_inv [OF assms(1,2) w] enc [of SetupSection] by (simp add: d)
  next
    case CopyMnemonicBtn
    then show ?thesis using copyMnemonic_inv [OF assms(2)] by (simp add: d)
  next
    case BackupConfirmBtn
    then show ?thesis using backupConfirm_inv [OF assms(2)] enc [of BackupSection] by (simp add: d)
  next
    case CopyAddressBtn
    then show ?thesis using copyAddress_inv [OF assms(2)] by (simp add: d)
  next
    case TabKeys
    then show ?thesis using wallet_tab_inv [OF assms(2)] enc [of WalletSection] by (simp add: d)
  next
    case TabDeploy
    then show ?thesis using wallet_tab_inv [OF assms(2)] enc [of WalletSection] by (simp add: d)
  next
    case RevealPrivBtn
    then show ?thesis using revealPriv_inv [OF assms(2)] by (simp add: d)
  next
    case DeployBtn
    then show ?thesis using handleDeploy_inv [OF assms(2)] enc [of WalletSection] by (simp add: d)
  next
    case LogoutBtn
    then show ?thesis using confirmLogout_inv [OF assms(2)] by (simp add: d)
  qed (simp_all add: d assms(2))
qed

lemma start_inv:
  assumes "ui_inv c (world m)" "listeners (world m) = []" "\<not> starting (world m)"
  shows "ui_inv c (world (run_task (start failure) m))"
proof -
  have "engine_ok (p_eng (world m))" using assms(1) by (simp add: ui_inv_def)
  then have e: "engine_ok (new_instance (p_eng (world m)))" by (simp add: engine_ok_def new_instance_def)
  have "(\<exists>g. js_init failure (p_eng (world m)) = (Ok (), g) \<and> engine_ok g \<and> wasm g \<noteq> None \<and>
      (boxes g = boxes (p_eng (world m)) \<or> boxes (p_eng (world m)) = (\<lambda>_. None)))
    \<or> (\<exists>x g. js_init failure (p_eng (world m)) = (Throw x, g) \<and> engine_ok g \<and>
      (boxes g = boxes (p_eng (world m)) \<or> boxes (p_eng (world m)) = (\<lambda>_. None)))"
    using e assms(1)
    by (auto simp: js_init_def ui_inv_def new_instance_def boxes_def heap_of_def split: option.splits load_error.splits)
  then consider (ok) g where "js_init failure (p_eng (world m)) = (Ok (), g)" "engine_ok g" "wasm g \<noteq> None"
      "boxes g = boxes (p_eng (world m)) \<or> boxes (p_eng (world m)) = (\<lambda>_. None)"
    | (bad) x g where "js_init failure (p_eng (world m)) = (Throw x, g)" "engine_ok g"
      "boxes g = boxes (p_eng (world m)) \<or> boxes (p_eng (world m)) = (\<lambda>_. None)" by blast
  then show ?thesis
  proof cases
    case (ok g)
    then have "shows_wallet c (world m) \<longrightarrow> boxes g = boxes (p_eng (world m))" by (auto simp: shows_wallet_def)
    with ok(1-3) assms show ?thesis
      by (auto simp: run_task_def start_def try_catch_def await_def page_simps console_write_def attachEvents_eq inv_parts shows_wallet_def)
  next
    case (bad x g)
    then have "shows_wallet c (world m) \<longrightarrow> boxes g = boxes (p_eng (world m))" by (auto simp: shows_wallet_def)
    with bad(1,2) assms show ?thesis
      by (auto simp: run_task_def start_def try_catch_def await_def page_simps inv_parts shows_wallet_def)
  qed
qed

lemma fire_inv:
  assumes "ui_inv c (world m)" "t = EnterDashboard \<Longrightarrow> hidden (world m) SetupSection \<and> hidden (world m) BackupSection"
  shows "ui_inv c (world (run_task (fire t) m))"
  using assms by (cases t) (auto simp: run_task_def await_def page_simps inv_parts shows_wallet_def)

lemma ui_step_inv:
  assumes "runtime_ok rt" "ui_step c rt m m'" "ui_inv c (world m)"
  shows "ui_inv c (world m')"
  using assms(2)
proof cases
  case (load failure)
  have "ui_inv c ((world m)\<lparr>starting := False\<rparr>)" "listeners (world m) = []"
    using assms(3) load(2) by (auto simp: inv_parts shows_wallet_def page_simps)
  then show ?thesis unfolding load(1) by (intro start_inv) simp_all
next
  case (click e k yes)
  then have "visible ((world m)\<lparr>answer := yes, clip := k\<rparr>) e" by (simp add: visible_def page_simps)
  then show ?thesis unfolding click(1) using assms(3) by (intro dispatch_inv [OF assms(1)]) simp_all
next
  case (type_in e t)
  then show ?thesis using assms(3) by simp
next
  case (timeout i)
  let ?ts = "take i (timers (world m)) @ drop (Suc i) (timers (world m))"
  have "set ?ts \<subseteq> set (timers (world m))" by (auto dest: in_set_takeD in_set_dropD)
  then have "ui_inv c ((world m)\<lparr>timers := ?ts\<rparr>)" using assms(3) by (auto simp: inv_parts shows_wallet_def page_simps)
  moreover have "timers (world m) ! i = EnterDashboard \<Longrightarrow> hidden (world m) SetupSection \<and> hidden (world m) BackupSection"
    using assms(3) nth_mem [OF timeout(2)] by (simp add: ui_inv_def)
  ultimately show ?thesis unfolding timeout(1) by (intro fire_inv) (simp_all add: page_simps)
next
  case reload
  then show ?thesis by (simp del: uncaught_inv add: evaluated_inv)
qed

lemma opened_inv: "ui_inv c (world (opened rnds))"
proof -
  have "ui_inv c ((evaluated rnds)\<lparr>clipboard := clipboard (evaluated rnds)\<rparr>)" by (rule evaluated_inv)
  then show ?thesis by (simp add: opened_def)
qed

interpretation ui_run: transition_system "\<lambda>m. \<exists>rnds. m = opened rnds" "ui_step c rt" "\<lambda>m. runtime_ok rt \<longrightarrow> ui_inv c (world m)"
  by unfold_locales (use opened_inv ui_step_inv in blast)+

lemma browses_inv:
  assumes "runtime_ok rt" "browses c rt (opened rnds) m"
  shows "ui_inv c (world m)"
  using ui_run.reached_inv [OF _ assms(2)] assms(1) by blast

end
