(* ===== verification/Wallet_Ui_Runs.thy ===== *)
theory Wallet_Ui_Runs
  imports Wallet_Ui_Inv
begin

text \<open>
  Runs of the browser face (\<open>Wallet/main.js\<close>): from the opened page to a new wallet, to the
  deployment and to a restored wallet, and the properties of the pages that can be reached.
\<close>

section \<open>Runs\<close>

definition loaded_page :: "byte list list \<Rightarrow> ('s, 'p) page" where
  "loaded_page rnds = (evaluated rnds)\<lparr>p_eng := new_instance \<lparr>wasm = None, instances = [], entropy = rnds\<rparr>,
     listeners := all_listeners, starting := False\<rparr>"

lemma browses_step [trans]: "browses c rt m m1 \<Longrightarrow> ui_step c rt m1 m2 \<Longrightarrow> browses c rt m m2"
  by (rule rtranclp.rtrancl_into_rtrancl)

lemma run_click:
  assumes "visible (world m) e" "\<not> reloading (world m)" "handlers_of e (world m) = [h]"
  shows "dispatch c rt e (upd_page (\<lambda>p. p\<lparr>answer := yes, clip := k\<rparr>) m)
      = run_task (run_handler c rt h) (upd_page (\<lambda>p. p\<lparr>answer := yes, clip := k\<rparr>) m)"
    "ui_step c rt m (run_task (run_handler c rt h) (upd_page (\<lambda>p. p\<lparr>answer := yes, clip := k\<rparr>) m))"
proof -
  show d: "dispatch c rt e (upd_page (\<lambda>p. p\<lparr>answer := yes, clip := k\<rparr>) m)
      = run_task (run_handler c rt h) (upd_page (\<lambda>p. p\<lparr>answer := yes, clip := k\<rparr>) m)"
    using assms(3) by (simp add: dispatch_def handlers_of_def)
  show "ui_step c rt m (run_task (run_handler c rt h) (upd_page (\<lambda>p. p\<lparr>answer := yes, clip := k\<rparr>) m))"
    using ui_step.click [OF assms(1,2), of c rt k yes] unfolding d .
qed

text \<open>
  What a user does, as a list: wait for the module, enter text into a field, click. An action on something that is not
  visible is not possible.
\<close>

datatype action = Wait | Enter elem string | Click elem

definition act :: "('m, 'x, 's, 'p, 'g) crypto \<Rightarrow> ('s, 'p) runtime \<Rightarrow> action \<Rightarrow> ('s, 'p) browser \<Rightarrow> ('s, 'p) browser option" where
  "act c rt a m = (case a of
     Wait \<Rightarrow> if starting (world m) then Some (run_task (start None) (upd_page (\<lambda>p. p\<lparr>starting := False\<rparr>) m)) else None
   | Enter e t \<Rightarrow> if visible (world m) e \<and> \<not> reloading (world m)
       then Some (upd_page (\<lambda>p. p\<lparr>value_of := (value_of p)(e := t)\<rparr>) m) else None
   | Click e \<Rightarrow> if visible (world m) e \<and> \<not> reloading (world m)
       then Some (dispatch c rt e (upd_page (\<lambda>p. p\<lparr>answer := False, clip := Writes\<rparr>) m)) else None)"

fun acts :: "('m, 'x, 's, 'p, 'g) crypto \<Rightarrow> ('s, 'p) runtime \<Rightarrow> action list \<Rightarrow> ('s, 'p) browser \<Rightarrow> ('s, 'p) browser option" where
  "acts c rt [] m = Some m"
| "acts c rt (a # as) m = Option.bind (act c rt a m) (acts c rt as)"

lemma act_step: "act c rt a m = Some m' \<Longrightarrow> ui_step c rt m m'"
  by (cases a) (auto simp: act_def split: if_splits intro: ui_step.intros)

lemma acts_browses: "acts c rt as m = Some m' \<Longrightarrow> browses c rt m m'"
  by (induction "as" arbitrary: m) (auto simp: bind_eq_Some_conv dest!: act_step intro: converse_rtranclp_into_rtranclp)

lemma act_wait:
  "act c rt Wait (opened rnds) = Some \<lparr>console = [(LogLevel, [LText ''WASM Initialized''])], world = loaded_page rnds\<rparr>"
  by (simp add: act_def opened_def run_task_def start_def try_catch_def await_def page_simps console_write_def attachEvents_eq
      js_init_def evaluated_def loaded_page_def)

lemma act_click:
  assumes "visible (world m) e" "\<not> reloading (world m)" "handlers_of e (world m) = [h]"
  shows "act c rt (Click e) m = Some (run_task (run_handler c rt h) (upd_page (\<lambda>p. p\<lparr>answer := False, clip := Writes\<rparr>) m))"
  using assms by (simp add: act_def run_click)

text \<open>From the opened page to the backup section, and on to the wallet.\<close>

lemma run_to_backup:
  fixes rt :: "('s, 'p) runtime"
  assumes "runtime_ok rt" "new_random c rnd (Some (trim pass)) = ROk w" "8 \<le> length (trim pass)"
  shows "\<exists>cs q g p. acts c rt [Wait, Enter PassphraseInput pass, Click GenerateBtn] (opened (rnd # rest))
      = Some \<lparr>console = cs, world = backup_page c q w g p\<rparr> \<and>
    q \<noteq> 0 \<and> boxes g q = Some w \<and> wasm g \<noteq> None \<and> listeners p = all_listeners \<and> \<not> reloading p \<and> classes p = html_classes"
proof -
  let ?cs = "[(LogLevel, [LText ''WASM Initialized''])]"
  let ?p1 = "loaded_page (rnd # rest) :: ('s, 'p) page"
  let ?p2 = "?p1\<lparr>value_of := (value_of ?p1)(PassphraseInput := pass)\<rparr>"
  let ?p3 = "?p2\<lparr>answer := False, clip := Writes\<rparr>"
  note page = loaded_page_def evaluated_def has_class_def html_classes_def
  have vis: "visible ?p1 PassphraseInput" "visible ?p2 GenerateBtn"
    by (simp_all add: visible_def enclosing_def page)
  have enter: "act c rt (Enter PassphraseInput pass) \<lparr>console = ?cs, world = ?p1\<rparr> = Some \<lparr>console = ?cs, world = ?p2\<rparr>"
    using vis(1) by (simp add: act_def) (simp add: page)
  have "act c rt (Click GenerateBtn) \<lparr>console = ?cs, world = ?p2\<rparr>
      = Some (run_task (createWallet c rt) \<lparr>console = ?cs, world = ?p3\<rparr>)"
    using act_click [of "\<lparr>console = ?cs, world = ?p2\<rparr>" GenerateBtn CreateWallet c rt] vis(2) by (simp add: page handlers_all)
  then have run: "acts c rt [Wait, Enter PassphraseInput pass, Click GenerateBtn] (opened (rnd # rest))
      = Some (run_task (createWallet c rt) \<lparr>console = ?cs, world = ?p3\<rparr>)"
    by (simp add: act_wait enter)
  let ?m = "\<lparr>console = ?cs, world = ?p3\<rparr>"
  have ok: "engine_ok (p_eng (world ?m))" "wasm (p_eng (world ?m)) \<noteq> None"
    by (simp_all add: page new_instance_def engine_ok_def)
  have v: "value_of (world ?m) PassphraseInput = pass" "entropy (p_eng (world ?m)) = rnd # rest"
    by (simp_all add: page new_instance_def)
  from assms(1) ok show ?thesis
  proof (cases rule: createWallet_cases [where c = c])
    case (made q w' g)
    then have "w' = w" using assms(2) v by simp
    moreover have "listeners ?p3 = all_listeners \<and> \<not> reloading ?p3 \<and> classes ?p3 = html_classes"
      by (simp add: page)
    ultimately show ?thesis using run made ok(2) by (intro exI [of _ ?cs] exI [of _ q] exI [of _ g] exI [of _ ?p3]) (simp add: run_task_def)
  next
    case (short msg)
    then show ?thesis using assms(3) v by simp
  next
    case (failed msg en)
    then show ?thesis using assms(2) v by simp
  qed
qed

lemma run_to_wallet:
  fixes rt :: "('s, 'p) runtime"
  assumes "runtime_ok rt" "new_random c rnd (Some (trim pass)) = ROk w" "8 \<le> length (trim pass)"
  shows "\<exists>m q. browses c rt (opened (rnd # rest)) m \<and> wallet (world m) = Some q \<and> visible (world m) WalletSection \<and>
    text_of (world m) DisplayAddress = address c w \<and>
    text_of (world m) BackupMnemonicGrid = grid_html (split_spaces (wallet_mnemonic w)) \<and>
    listeners (world m) = all_listeners \<and> \<not> reloading (world m) \<and>
    (\<forall>e. hidden (world m) e \<longrightarrow> e \<in> {SetupSection, BackupSection, RestoreArea, RestorePrivKeyContent, DeployTab, DeployResult})"
proof -
  obtain cs q g p where b: "browses c rt (opened (rnd # rest)) \<lparr>console = cs, world = backup_page c q w g p\<rparr>"
    "listeners p = all_listeners" "\<not> reloading p" "classes p = html_classes"
    using run_to_backup [OF assms, of rest] acts_browses by blast
  let ?m = "\<lparr>console = cs, world = backup_page c q w g p\<rparr>"
  let ?t = "run_task backupConfirm (upd_page (\<lambda>p. p\<lparr>answer := False, clip := Writes\<rparr>) ?m)"
  have l: "listeners (world ?m) = all_listeners" "\<not> reloading (world ?m)" "visible (world ?m) BackupConfirmBtn"
    using b(2-4) by (simp_all add: backup_page_def page_simps visible_def enclosing_def)
      (simp add: has_class_def html_classes_def)
  have "browses c rt (opened (rnd # rest)) ?t"
    using browses_step [OF b(1) run_click(2) [OF l(3,2), of BackupConfirm c rt Writes False]] l(1) by (simp add: handlers_all)
  moreover have "wallet (world ?t) = Some q" "text_of (world ?t) DisplayAddress = address c w"
      "text_of (world ?t) BackupMnemonicGrid = grid_html (split_spaces (wallet_mnemonic w))" "visible (world ?t) WalletSection"
      "listeners (world ?t) = all_listeners" "\<not> reloading (world ?t)"
    using b(2,3) by (simp_all add: run_task_def backupConfirm_def await_def page_simps backup_page_def shown_texts_def visible_def enclosing_def)
  moreover have "e \<in> {SetupSection, BackupSection, RestoreArea, RestorePrivKeyContent, DeployTab, DeployResult}"
    if "hidden (world ?t) e" for e
    using that b(4) by (auto simp: run_task_def backupConfirm_def await_def page_simps backup_page_def)
      (auto simp: has_class_def html_classes_def split: if_splits)
  ultimately show ?thesis by blast
qed

text \<open>And on to the deployment, whose timer is then pending.\<close>

lemma run_to_deploy:
  fixes rt :: "('s, 'p) runtime"
  assumes "runtime_ok rt" "new_random c rnd (Some (trim pass)) = ROk w" "8 \<le> length (trim pass)"
  shows "\<exists>m. browses c rt (opened (rnd # rest)) m \<and> timers (world m) \<noteq> [] \<and> last (timers (world m)) = EnterDashboard"
proof -
  obtain m where m: "browses c rt (opened (rnd # rest)) m" "visible (world m) WalletSection" "listeners (world m) = all_listeners"
    "\<not> reloading (world m)"
    and hid: "\<And>e. hidden (world m) e \<Longrightarrow> e \<in> {SetupSection, BackupSection, RestoreArea, RestorePrivKeyContent, DeployTab, DeployResult}"
    using run_to_wallet [OF assms, of rest] by blast
  let ?m1 = "run_task (tab_click TabDeploy) (upd_page (\<lambda>p. p\<lparr>answer := False, clip := Writes\<rparr>) m)"
  let ?m2 = "run_task handleDeploy (upd_page (\<lambda>p. p\<lparr>answer := False, clip := Writes\<rparr>) ?m1)"
  note cl = tab_click_class [of TabDeploy] tab_click_rest [of TabDeploy]
  have "visible (world m) TabDeploy" using hid by (force simp: visible_def enclosing_def)
  then have s1: "ui_step c rt m ?m1"
    using run_click(2) [of m TabDeploy "TabClick TabDeploy" c rt Writes False] m(3,4) by (simp add: handlers_all)
  have "visible (world ?m1) DeployBtn" using hid by (force simp: visible_def enclosing_def cl page_simps)
  then have s2: "ui_step c rt ?m1 ?m2"
    using run_click(2) [of ?m1 DeployBtn HandleDeploy c rt Writes False] m(3,4) by (simp add: handlers_all cl)
  have "last (timers (world ?m2)) = EnterDashboard" "timers (world ?m2) \<noteq> []"
    by (simp_all add: run_task_def handleDeploy_def try_catch_def await_def page_simps)
  then show ?thesis using browses_step [OF browses_step [OF m(1) s1] s2] by blast
qed

text \<open>From the opened page to a restored wallet, by its phrase.\<close>

lemma run_to_restored:
  fixes rt :: "('s, 'p) runtime"
  assumes "runtime_ok rt" "from_mnemonic c (trim phrase) (if trim pass = [] then None else Some (trim pass)) = ROk w" "trim phrase \<noteq> []"
  shows "\<exists>m. acts c rt [Wait, Click RestoreBtn, Enter MnemonicInput phrase, Enter RestorePassInput pass, Click ConfirmRestoreBtn]
      (opened rnds) = Some m \<and> visible (world m) WalletSection \<and> text_of (world m) DisplayAddress = address c w \<and>
    text_of (world m) DisplayPriv = private_key_hex c w"
proof -
  let ?cs = "[(LogLevel, [LText ''WASM Initialized''])]"
  let ?on = "\<lambda>p. \<lparr>console = ?cs, world = p\<rparr> :: ('s, 'p) browser"
  let ?p1 = "loaded_page rnds :: ('s, 'p) page"
  let ?p2 = "toggle_class RestoreArea ''hidden'' (?p1\<lparr>answer := False, clip := Writes\<rparr>)"
  let ?p3 = "?p2\<lparr>value_of := (value_of ?p2)(MnemonicInput := phrase)\<rparr>"
  let ?p4 = "?p3\<lparr>value_of := (value_of ?p3)(RestorePassInput := pass)\<rparr>"
  let ?p5 = "?p4\<lparr>answer := False, clip := Writes\<rparr>"
  note page = loaded_page_def evaluated_def has_class_def html_classes_def toggle_class_def remove_class_def
  have vis: "visible ?p1 RestoreBtn" "visible ?p2 MnemonicInput" "visible ?p3 RestorePassInput" "visible ?p4 ConfirmRestoreBtn"
    by (simp_all add: visible_def enclosing_def page)
  have ls: "listeners ?p1 = all_listeners" "listeners ?p4 = all_listeners" "\<not> reloading ?p1" "\<not> reloading ?p2" "\<not> reloading ?p3" "\<not> reloading ?p4"
    by (simp_all add: page)
  have a2: "act c rt (Click RestoreBtn) (?on ?p1) = Some (?on ?p2)"
    using act_click [of "?on ?p1" RestoreBtn ToggleRestore c rt] vis(1) ls(1,3) by (simp add: handlers_all run_task_def page_simps)
  have a3: "act c rt (Enter MnemonicInput phrase) (?on ?p2) = Some (?on ?p3)" using vis(2) ls(4) by (simp add: act_def)
  have a4: "act c rt (Enter RestorePassInput pass) (?on ?p3) = Some (?on ?p4)" using vis(3) ls(5) by (simp add: act_def)
  have a5: "act c rt (Click ConfirmRestoreBtn) (?on ?p4) = Some (run_task (restoreWallet c rt) (?on ?p5))"
    using act_click [of "?on ?p4" ConfirmRestoreBtn RestoreWallet c rt] vis(4) ls(2,6) by (simp add: handlers_all)
  have run: "acts c rt [Wait, Click RestoreBtn, Enter MnemonicInput phrase, Enter RestorePassInput pass, Click ConfirmRestoreBtn]
      (opened rnds) = Some (run_task (restoreWallet c rt) (?on ?p5))"
    by (simp only: acts.simps act_wait a2 a3 a4 a5 bind.bind_lunit)
  have ok: "engine_ok (p_eng (world (?on ?p5)))" "wasm (p_eng (world (?on ?p5))) \<noteq> None"
    by (simp_all add: page new_instance_def engine_ok_def)
  have act: "has_class ?p5 TabMnemonic ''active''" by (simp add: page)
  have v: "value_of ?p5 MnemonicInput = phrase" "value_of ?p5 RestorePassInput = pass" by simp_all
  have req: "restore_request c (world (?on ?p5)) = ROk w" "restore_input (world (?on ?p5)) \<noteq> []"
    using assms(2,3) act v by (cases "trim pass = []"; simp add: restore_request_def restore_input_def)+
  from assms(1) ok show ?thesis
  proof (cases rule: restoreWallet_cases [where c = c])
    case (made q w' g)
    then have "run_task (restoreWallet c rt) (?on ?p5) = ?on (restored_page c q w g ?p5)"
      using req by (simp add: run_task_def)
    with run show ?thesis
      by (intro exI [of _ "?on (restored_page c q w g ?p5)"])
        (simp add: restored_page_def shown_texts_def page_simps visible_def enclosing_def)
  qed (use req in simp)
qed

lemma demo_created:
  "new_random demo_crypto [65, 66] (Some (trim ''password'')) = ROk \<lparr>secret = CHR ''p'', public_key = CHR ''p'', phrase_of = Some ''AB''\<rparr>"
  "8 \<le> length (trim ''password'')"
  by code_simp+

section \<open>Properties\<close>

text \<open>
  C2: on every page that can be reached, by clicks, input, timers, failed loads and reloads, what the
  backup and wallet sections show is the wallet in hand, as long as the page has not been told to reload (the logout gives up the wallet
  and the document stays until the reload): there is a wallet, it is in the
  loaded module, its public key is that of its secret, the three texts of the wallet section are its address
  and its keys, the address being one that the node reads as the hash of that public key, and a visible backup
  section shows the numbered words of its recovery phrase.
\<close>

theorem shown_wallet_is_in_hand:
  assumes "crypto_ok c" "runtime_ok rt" "browses c rt (opened rnds) m"
    and "visible (world m) WalletSection \<or> visible (world m) BackupSection" "\<not> reloading (world m)"
  shows "\<exists>q w. wallet (world m) = Some q \<and> boxes (p_eng (world m)) q = Some w \<and> public_key w = public_of c (secret w) \<and>
    text_of (world m) DisplayAddress = address c w \<and> text_of (world m) DisplayPub = public_key_hex c w \<and>
    text_of (world m) DisplayPriv = private_key_hex c w \<and>
    (visible (world m) BackupSection \<longrightarrow>
      text_of (world m) BackupMnemonicGrid = grid_html (split_spaces (wallet_mnemonic w))) \<and>
    DecodeDestination (double_sha c) bech32 mainAddressParams (text_of (world m) DisplayAddress) = Done (PKHash (key_hash c w))"
proof -
  have inv: "ui_inv c (world m)" by (rule browses_inv [OF assms(2,3)])
  have "hidden (world m) SetupSection"
    using inv assms(4) by (auto simp: inv_parts visible_def split: if_splits)
  then have "shows_wallet c (world m)" using inv assms(5) by (auto simp: ui_inv_def)
  then show ?thesis
    using address_at_node [OF assms(1)] by (auto simp: shows_wallet_def wallet_ok_def visible_def)
qed

theorem shown_wallet_is_in_hand_witness:
  "\<exists>m :: (char, char) browser. browses demo_crypto demo_runtime (opened [[65, 66]]) m \<and>
     (\<exists>w. text_of (world m) DisplayAddress = address demo_crypto w)"
proof -
  obtain m :: "(char, char) browser" where m: "browses demo_crypto demo_runtime (opened [[65, 66]]) m"
    "visible (world m) WalletSection" "\<not> reloading (world m)"
    using run_to_wallet [OF demo_runtime_ok demo_created, of "[]"] by blast
  from shown_wallet_is_in_hand [OF demo_crypto_ok demo_runtime_ok m(1) disjI1 [OF m(2)] m(3)] m(1) show ?thesis by blast
qed

text \<open>
  C17: the sections exclude each other and the controls agree with what they control: at most one
  of the three sections is visible, the private key is blurred exactly when its button offers
  to reveal it, and on the setup section exactly one restore tab is active, the one whose input is
  shown.
\<close>

theorem page_is_consistent:
  assumes "runtime_ok rt" "browses c rt (opened rnds) m"
  shows "\<not> (visible (world m) SetupSection \<and> (visible (world m) BackupSection \<or> visible (world m) WalletSection)) \<and>
    \<not> (visible (world m) BackupSection \<and> visible (world m) WalletSection) \<and>
    (has_class (world m) DisplayPriv ''blur'' \<longleftrightarrow> text_of (world m) RevealPrivBtn = ''REVEAL'') \<and>
    (visible (world m) SetupSection \<longrightarrow>
      (has_class (world m) TabMnemonic ''active'' \<longleftrightarrow> \<not> has_class (world m) TabPrivKey ''active'') \<and>
      (has_class (world m) TabMnemonic ''active'' \<longleftrightarrow> \<not> hidden (world m) RestoreMnemonicContent) \<and>
      (has_class (world m) TabPrivKey ''active'' \<longleftrightarrow> \<not> hidden (world m) RestorePrivKeyContent))"
  using browses_inv [OF assms] by (auto simp: inv_parts visible_def enclosing_def split: if_splits)

theorem page_is_consistent_witness:
  "has_class (world (opened [] :: (char, char) browser)) DisplayPriv ''blur''"
  using page_is_consistent [where c = demo_crypto and rnds = "[]", OF demo_runtime_ok rtranclp.rtrancl_refl]
  by (simp add: opened_def evaluated_def html_text_def)

text \<open>
  C27: a user who opens the page and enters a passphrase of eight characters or more can get to a
  wallet: some run leads to the wallet section with the address of the wallet that the
  randomness and the trimmed passphrase give. The words of the recovery phrase are then still in the
  hidden part of the page.
\<close>

theorem user_can_create_wallet:
  assumes "runtime_ok rt" "new_random c rnd (Some (trim pass)) = ROk w" "8 \<le> length (trim pass)"
  shows "\<exists>m. browses c rt (opened (rnd # rest)) m \<and> visible (world m) WalletSection \<and>
    text_of (world m) DisplayAddress = address c w \<and>
    text_of (world m) BackupMnemonicGrid = grid_html (split_spaces (wallet_mnemonic w))"
  using run_to_wallet [OF assms, of rest] by blast

theorem user_can_create_wallet_witness:
  "\<exists>m :: (char, char) browser. browses demo_crypto demo_runtime (opened [[65, 66]]) m \<and> visible (world m) WalletSection"
  using user_can_create_wallet [OF demo_runtime_ok demo_created, of "[]"] by blast

text \<open>
  A passphrase that is shorter than eight characters, spaces around it not counted, makes no
  wallet: the handler shows a message and changes nothing else, the randomness included.
\<close>

theorem short_passphrase_refused:
  assumes "length (trim (value_of (world m) PassphraseInput)) < 8"
  shows "\<exists>msg. createWallet c rt m = (Ok (), upd_page (toasted msg) m) \<and>
    msg = (if trim (value_of (world m) PassphraseInput) = [] then ''Password is REQUIRED for security!''
      else ''Password must be at least 8 characters!'')"
  using assms by (simp add: createWallet_def try_catch_def await_def page_simps Let_def)

theorem short_passphrase_refused_witness:
  "createWallet demo_crypto demo_runtime (opened [])
     = (Ok (), upd_page (toasted ''Password is REQUIRED for security!'') (opened [] :: (char, char) browser))"
proof -
  have t: "trim (value_of (world (opened [] :: (char, char) browser)) PassphraseInput) = []"
    by (simp add: opened_def evaluated_def trim_def)
  then show ?thesis using short_passphrase_refused [of "opened []" demo_crypto demo_runtime] by simp
qed

text \<open>
  C28: the deployment ends on an empty page. When its timer fires, on whatever page that can be, the
  section of the wallet is hidden, the dashboard that should replace it does not exist, so that an error
  escapes, and nothing that is left visible reacts to a click.
\<close>

theorem deploy_dead_end:
  assumes "runtime_ok rt" "browses c rt (opened rnds) m" "i < length (timers (world m))" "timers (world m) ! i = EnterDashboard"
  shows "\<exists>m'. ui_step c rt m m' \<and> last (uncaught (world m')) = cannot_read ''null'' ''classList'' \<and>
    (\<forall>e. visible (world m') e \<longrightarrow> handlers_of e (world m') = [])"
proof -
  let ?p = "(world m)\<lparr>timers := take i (timers (world m)) @ drop (Suc i) (timers (world m))\<rparr>"
  let ?m = "run_task (fire EnterDashboard) (m\<lparr>world := ?p\<rparr>)"
  have inv: "ui_inv c (world m)" by (rule browses_inv [OF assms(1,2)])
  have hid: "hidden (world m) SetupSection" "hidden (world m) BackupSection"
    using inv assms(3,4) nth_mem [OF assms(3)] by (auto simp: ui_inv_def)
  have "ui_step c rt m ?m" using ui_step.timeout [OF assms(3), of c rt] assms(4) by simp
  moreover have "last (uncaught (world ?m)) = cannot_read ''null'' ''classList''"
    by (simp add: run_task_def await_def page_simps)
  moreover have "handlers_of e (world ?m) = []" if v: "visible (world ?m) e" for e
  proof -
    have l: "listeners (world ?m) = listeners (world m)" by (simp add: run_task_def await_def page_simps)
    have h: "hidden (world ?m) SetupSection" "hidden (world ?m) BackupSection" "hidden (world ?m) WalletSection"
      using hid by (simp_all add: run_task_def await_def page_simps)
    have "\<not> hidden (world ?m) a" if "a \<in> set (enclosing e)" for a by (rule visibleD [OF v that])
    then have e: "e \<in> {SetupSection, BackupSection, WalletSection, NotificationToast}"
      using h by (cases e) (simp_all add: enclosing_def)
    show ?thesis
    proof (cases "listeners (world m) = all_listeners")
      case True
      then have la: "listeners (world ?m) = all_listeners" using l by simp
      from e show ?thesis unfolding handlers_all [OF la] by auto
    next
      case False
      then have "listeners (world ?m) = []" using inv l by (simp add: ui_inv_def)
      then show ?thesis by (simp add: handlers_of_def)
    qed
  qed
  ultimately show ?thesis by blast
qed

theorem deploy_dead_end_witness:
  "\<exists>m m' :: (char, char) browser. browses demo_crypto demo_runtime (opened [[65, 66]]) m \<and> ui_step demo_crypto demo_runtime m m' \<and>
     (\<forall>e. visible (world m') e \<longrightarrow> handlers_of e (world m') = [])"
proof -
  obtain m :: "(char, char) browser" where m: "browses demo_crypto demo_runtime (opened [[65, 66]]) m"
    "timers (world m) \<noteq> []" "last (timers (world m)) = EnterDashboard"
    using run_to_deploy [OF demo_runtime_ok demo_created, of "[]"] by blast
  from deploy_dead_end [OF demo_runtime_ok m(1), of "length (timers (world m)) - 1"] m show ?thesis
    by (auto simp: last_conv_nth)
qed

text \<open>
  C16: a wallet made on the page is recovered on it. A user opens the page, enters a passphrase of eight characters or more
  and clicks the button that makes a wallet: the backup section shows the words of a phrase. On a page opened
  anew, with whatever randomness, the user opens the restore area, enters that phrase and the same passphrase and
  clicks the button that restores: the wallet section is shown with the address and the private key that the first page had. The phrase
  has no spaces around it, as phrases have none.
\<close>

theorem user_can_recover_wallet:
  assumes "crypto_ok c" "runtime_ok rt" "new_random c rnd (Some (trim pass)) = ROk w" "8 \<le> length (trim pass)"
    and "wallet_mnemonic w = phrase" "trim phrase = phrase" "phrase \<noteq> []"
  shows "\<exists>m m'. acts c rt [Wait, Enter PassphraseInput pass, Click GenerateBtn] (opened (rnd # rest)) = Some m \<and>
    visible (world m) BackupSection \<and> text_of (world m) BackupMnemonicGrid = grid_html (split_spaces phrase) \<and>
    acts c rt [Wait, Click RestoreBtn, Enter MnemonicInput phrase, Enter RestorePassInput pass, Click ConfirmRestoreBtn]
      (opened rnds) = Some m' \<and>
    visible (world m') WalletSection \<and>
    text_of (world m) DisplayAddress = address c w \<and> text_of (world m') DisplayAddress = address c w \<and>
    text_of (world m) DisplayPriv = private_key_hex c w \<and> text_of (world m') DisplayPriv = private_key_hex c w"
proof -
  obtain cs q g p where b: "acts c rt [Wait, Enter PassphraseInput pass, Click GenerateBtn] (opened (rnd # rest))
      = Some \<lparr>console = cs, world = backup_page c q w g p\<rparr>"
    using run_to_backup [OF assms(2-4), of rest] by blast
  have "trim pass \<noteq> []" using assms(4) by auto
  then obtain m' where "acts c rt [Wait, Click RestoreBtn, Enter MnemonicInput phrase, Enter RestorePassInput pass,
      Click ConfirmRestoreBtn] (opened rnds) = Some m'" "visible (world m') WalletSection"
      "text_of (world m') DisplayAddress = address c w" "text_of (world m') DisplayPriv = private_key_hex c w"
    using run_to_restored [OF assms(2), of c phrase pass w rnds] recover [OF assms(1,3)] assms(5-7) by auto
  with b assms(5) show ?thesis
    by (intro exI [of _ "\<lparr>console = cs, world = backup_page c q w g p\<rparr>"] exI [of _ m'])
      (simp add: backup_page_def shown_texts_def visible_def enclosing_def page_simps)
qed

theorem user_can_recover_wallet_witness:
  "\<exists>m :: (char, char) browser. acts demo_crypto demo_runtime [Wait, Click RestoreBtn, Enter MnemonicInput ''AB'',
     Enter RestorePassInput ''password'', Click ConfirmRestoreBtn] (opened []) = Some m \<and> visible (world m) WalletSection"
proof -
  have "trim ''AB'' = ''AB''" by code_simp
  then show ?thesis
    using user_can_recover_wallet [OF demo_crypto_ok demo_runtime_ok demo_created, of "''AB''" "[]" "[]"]
    by (auto simp: wallet_mnemonic_def simp del: acts.simps)
qed

text \<open>
  C29: choosing how to restore breaks the section of the wallet. The two restore tabs also carry the
  class of the wallet's tabs, so a click on one runs their handler too: both contents of the wallet's
  tabs are hidden and an error escapes, since no element has the id \<open>undefined-tab\<close>.
\<close>

theorem restore_tab_hides_keys:
  assumes "visible (world m) t" "t \<in> {TabMnemonic, TabPrivKey}" "\<not> reloading (world m)" "listeners (world m) = all_listeners"
  shows "\<exists>m'. ui_step c rt m m' \<and> has_class (world m') t ''active'' \<and> hidden (world m') KeysTab \<and> hidden (world m') DeployTab \<and>
    uncaught (world m') = uncaught (world m) @ [cannot_read ''null'' ''classList'']"
proof -
  let ?a = "upd_page (\<lambda>p. p\<lparr>answer := False, clip := Writes\<rparr>) m"
  let ?mode = "if t = TabMnemonic then ''mnemonic'' else ''privkey''"
  let ?m' = "run_task (tab_click t) (run_task (switchRestoreTab ?mode) ?a)"
  have la: "listeners (world ?a) = all_listeners" using assms(4) by simp
  have "dispatch c rt t ?a = ?m'"
    unfolding dispatch_def handlers_all [OF la] using assms(2) by auto
  then have "ui_step c rt m ?m'" using ui_step.click [OF assms(1,3), of c rt Writes False] by simp
  moreover have t: "t \<in> {TabMnemonic, TabPrivKey, TabKeys, TabDeploy}" using assms(2) by auto
  have "uncaught (world (run_task (switchRestoreTab ?mode) ?a)) = uncaught (world m)"
    by (simp add: run_task_def switchRestoreTab_def await_def page_simps)
  then have "has_class (world ?m') t ''active'' \<and> hidden (world ?m') KeysTab \<and> hidden (world ?m') DeployTab \<and>
      uncaught (world ?m') = uncaught (world m) @ [cannot_read ''null'' ''classList'']"
    unfolding tab_click_class [OF t] tab_click_rest [OF t] using assms(2) by auto
  ultimately show ?thesis by blast
qed

theorem restore_tab_hides_keys_witness:
  "\<exists>m'. ui_step demo_crypto demo_runtime
      \<lparr>console = [], world = toggle_class RestoreArea ''hidden'' (loaded_page [] :: (char, char) page)\<rparr> m' \<and> hidden (world m') KeysTab"
proof -
  let ?m = "\<lparr>console = [], world = toggle_class RestoreArea ''hidden'' (loaded_page [] :: (char, char) page)\<rparr>"
  have "visible (world ?m) TabPrivKey" "\<not> reloading (world ?m)" "listeners (world ?m) = all_listeners"
    by (simp_all add: visible_def enclosing_def loaded_page_def evaluated_def has_class_def html_classes_def toggle_class_def remove_class_def)
  then show ?thesis using restore_tab_hides_keys [of ?m TabPrivKey demo_crypto demo_runtime] by blast
qed

text \<open>
  The copy button of the backup section copies the recovery phrase of the wallet in hand, and
  nothing else, when the host lets the page write the clipboard: on every page that can be reached with the button visible, a click leaves that phrase in
  the clipboard, unless the phrase is empty or marks a wallet without one.
\<close>

theorem copies_the_phrase:
  assumes "runtime_ok rt" "browses c rt (opened rnds) m" "visible (world m) CopyMnemonicBtn" "\<not> reloading (world m)"
    and "listeners (world m) = all_listeners"
  shows "\<exists>m' q w. ui_step c rt m m' \<and> wallet (world m) = Some q \<and> boxes (p_eng (world m)) q = Some w \<and>
    clipboard (world m') = (if wallet_mnemonic w \<noteq> [] \<and> \<not> is_prefix ''N/A'' (wallet_mnemonic w)
      then Some (wallet_mnemonic w) else clipboard (world m))"
proof -
  have inv: "ui_inv c (world m)" by (rule browses_inv [OF assms(1,2)])
  have "\<not> hidden (world m) BackupSection" using visibleD [OF assms(3), of BackupSection] by (simp add: enclosing_def)
  then have "shows_wallet c (world m)" using inv assms(4) by (auto simp: inv_parts split: if_splits)
  then obtain q w where q: "wallet (world m) = Some q" "q \<noteq> 0" "boxes (p_eng (world m)) q = Some w"
    by (auto simp: shows_wallet_def)
  have "wasm (p_eng (world m)) \<noteq> None" using inv assms(5) by (auto simp: ui_inv_def all_listeners_def)
  then have js: "js_mnemonic rt q (p_eng (world m)) = Ok (wallet_mnemonic w)" using q by (simp add: js_mnemonic_def method_box)
  let ?m' = "run_task (copyMnemonic rt) (upd_page (\<lambda>p. p\<lparr>answer := False, clip := Writes\<rparr>) m)"
  have "ui_step c rt m ?m'"
    using run_click(2) [OF assms(3,4), of CopyMnemonic c rt Writes False] assms(5) by (simp add: handlers_all)
  moreover have "clipboard (world ?m') = (if wallet_mnemonic w \<noteq> [] \<and> \<not> is_prefix ''N/A'' (wallet_mnemonic w)
      then Some (wallet_mnemonic w) else clipboard (world m))"
    using q js by (simp add: run_task_def copyMnemonic_def await_def page_simps wallet_call_eq)
  ultimately show ?thesis using q by blast
qed

theorem copies_the_phrase_witness:
  "\<exists>(m :: (char, char) browser) m'. browses demo_crypto demo_runtime (opened [[65, 66]]) m \<and>
     ui_step demo_crypto demo_runtime m m' \<and> clipboard (world m') = Some ''AB''"
proof -
  let ?w = "\<lparr>secret = CHR ''p'', public_key = CHR ''p'', phrase_of = Some ''AB''\<rparr> :: (char, char) WalletInner"
  obtain cs q g p where b: "browses demo_crypto demo_runtime (opened [[65, 66]]) \<lparr>console = cs, world = backup_page demo_crypto q ?w g p\<rparr>"
    "boxes g q = Some ?w" "listeners p = all_listeners" "\<not> reloading p" "classes p = html_classes"
    using run_to_backup [OF demo_runtime_ok demo_created, of "[]"] acts_browses by blast
  let ?m = "\<lparr>console = cs, world = backup_page demo_crypto q ?w g p\<rparr>"
  have "visible (world ?m) CopyMnemonicBtn"
    using b(5) by (simp add: backup_page_def page_simps visible_def enclosing_def) (simp add: has_class_def html_classes_def)
  moreover have "\<not> reloading (world ?m)" "listeners (world ?m) = all_listeners" "wallet (world ?m) = Some q" "p_eng (world ?m) = g"
    using b(3,4) by (simp_all add: backup_page_def page_simps)
  ultimately obtain m' where "ui_step demo_crypto demo_runtime ?m m'" "clipboard (world m') = Some ''AB''"
    using copies_the_phrase [OF demo_runtime_ok b(1)] b(2) by (auto simp: wallet_mnemonic_def)
  then show ?thesis using b(1) by blast
qed

end
