(* ===== verification/Wasm_Glue.thy ===== *)
theory Wasm_Glue
  imports Prelude "HOL-Library.Monad_Syntax"
begin

text \<open>
  Text across the border to WebAssembly (\<open>Wallet/pkg/retardio_wallet.js\<close>): strings as JavaScript has
  them, sequences of 16-bit units, their encoding as UTF-8, and the functions that copy them
  into and out of the linear memory of the instance. The allocator that the instance
  exports is a parameter with its laws. The memory may move to a new buffer whenever it grows;
  an array over the old buffer is then empty and ignores what is written to it. The memory has a length, to which views are
  clamped; an assignment past the end of an array is ignored, and copying more into a view than it holds is a \<open>RangeError\<close>.
\<close>

section \<open>UTF-16 and UTF-8\<close>

type_synonym units = "nat list"

definition high_surrogate :: "nat \<Rightarrow> bool" where "high_surrogate u = (55296 \<le> u \<and> u < 56320)"
definition low_surrogate :: "nat \<Rightarrow> bool" where "low_surrogate u = (56320 \<le> u \<and> u < 57344)"

text \<open>A surrogate without its partner is read as the replacement character.\<close>

fun code_points :: "units \<Rightarrow> nat list" where
  "code_points [] = []"
| "code_points [u] = [if high_surrogate u \<or> low_surrogate u then 65533 else u]"
| "code_points (u # v # us) =
     (if high_surrogate u \<and> low_surrogate v then (65536 + (u - 55296) * 1024 + (v - 56320)) # code_points us
      else (if high_surrogate u \<or> low_surrogate u then 65533 else u) # code_points (v # us))"

definition cp_bytes :: "nat \<Rightarrow> byte list" where
  "cp_bytes k =
     (if k < 128 then [k]
      else if k < 2048 then [192 + k div 64, 128 + k mod 64]
      else if k < 65536 then [224 + k div 4096, 128 + k div 64 mod 64, 128 + k mod 64]
      else [240 + k div 262144, 128 + k div 4096 mod 64, 128 + k div 64 mod 64, 128 + k mod 64])"

definition utf8_units :: "units \<Rightarrow> byte list" where
  "utf8_units us = concat (map cp_bytes (code_points us))"

text \<open>What \<open>encodeInto\<close> writes into a view of \<open>cap\<close> bytes: whole characters as long as they fit.\<close>

fun fitting :: "nat \<Rightarrow> nat list \<Rightarrow> byte list" where
  "fitting cap [] = []"
| "fitting cap (k # ks) = (if length (cp_bytes k) \<le> cap then cp_bytes k @ fitting (cap - length (cp_bytes k)) ks else [])"

text \<open>
  What stands in for \<open>encodeInto\<close> on hosts without it: it encodes everything and copies it into the view, which is a \<open>RangeError\<close>
  (\<open>None\<close>) when the view is too small; it returns what was read and what was written.
\<close>

definition encodeInto_fallback :: "nat \<Rightarrow> units \<Rightarrow> (nat \<times> byte list) option" where
  "encodeInto_fallback cap arg =
     (let buf = utf8_units arg in if length buf \<le> cap then Some (length arg, buf) else None)"

text \<open>The decoder, which rejects everything that is not the encoding of a character.\<close>

definition cont :: "byte \<Rightarrow> bool" where "cont b = (128 \<le> b \<and> b < 192)"

definition cp_units :: "nat \<Rightarrow> units" where
  "cp_units k = (if k < 65536 then [k] else [55296 + (k - 65536) div 1024, 56320 + (k - 65536) mod 1024])"

definition scalar :: "nat \<Rightarrow> bool" where
  "scalar k = (k < 55296 \<or> 57344 \<le> k \<and> k < 1114112)"

fun utf8_decode :: "byte list \<Rightarrow> units option" where
  "utf8_decode [] = Some []"
| "utf8_decode (a # bs) =
     (if a < 128 then map_option (\<lambda>us. cp_units a @ us) (utf8_decode bs)
      else if 194 \<le> a \<and> a < 224 then (case bs of
        b # cs \<Rightarrow> if cont b then map_option (\<lambda>us. cp_units ((a - 192) * 64 + (b - 128)) @ us) (utf8_decode cs) else None
      | _ \<Rightarrow> None)
      else if 224 \<le> a \<and> a < 240 then (case bs of
        b # c # ds \<Rightarrow> (let k = (a - 224) * 4096 + (b - 128) * 64 + (c - 128) in
          if cont b \<and> cont c \<and> 2048 \<le> k \<and> scalar k then map_option (\<lambda>us. cp_units k @ us) (utf8_decode ds) else None)
      | _ \<Rightarrow> None)
      else if 240 \<le> a \<and> a < 245 then (case bs of
        b # c # d # es \<Rightarrow> (let k = (a - 240) * 262144 + (b - 128) * 4096 + (c - 128) * 64 + (d - 128) in
          if cont b \<and> cont c \<and> cont d \<and> 65536 \<le> k \<and> scalar k then map_option (\<lambda>us. cp_units k @ us) (utf8_decode es) else None)
      | _ \<Rightarrow> None)
      else None)"

text \<open>Strings without lone surrogates.\<close>

fun well_formed :: "units \<Rightarrow> bool" where
  "well_formed [] = True"
| "well_formed [u] = (u < 65536 \<and> \<not> high_surrogate u \<and> \<not> low_surrogate u)"
| "well_formed (u # v # us) =
     (if high_surrogate u then low_surrogate v \<and> well_formed us
      else u < 65536 \<and> \<not> low_surrogate u \<and> well_formed (v # us))"

lemma sextets3:
  fixes k :: nat
  obtains a b c where "k = a * 4096 + b * 64 + c" "b < 64" "c < 64" "k div 4096 = a" "k div 64 mod 64 = b" "k mod 64 = c"
proof -
  let ?q = "k div 64"
  have q: "?q = ?q div 64 * 64 + ?q mod 64" by simp
  have k: "k = ?q * 64 + k mod 64" by simp
  have a: "k div 4096 = ?q div 64" using div_mult2_eq [of k 64 64] by simp
  have "k = (?q div 64 * 64 + ?q mod 64) * 64 + k mod 64" using q k by simp
  then have "k = ?q div 64 * 4096 + ?q mod 64 * 64 + k mod 64" by (simp only: add_mult_distrib mult.assoc)
  then show thesis using a by (intro that [of "?q div 64" "?q mod 64" "k mod 64"]) (simp_all only: mod_less_divisor zero_less_numeral)
qed

lemma sextets4:
  fixes k :: nat
  obtains a b c d where "k = a * 262144 + b * 4096 + c * 64 + d" "b < 64" "c < 64" "d < 64" "k div 262144 = a"
    "k div 4096 mod 64 = b" "k div 64 mod 64 = c" "k mod 64 = d"
proof -
  obtain q c d where q: "k = q * 4096 + c * 64 + d" "c < 64" "d < 64" "k div 4096 = q" "k div 64 mod 64 = c" "k mod 64 = d"
    by (rule sextets3)
  have e: "k div 262144 = q div 64" using div_mult2_eq [of k 4096 64] q(4) by simp
  have "q = q div 64 * 64 + q mod 64" by simp
  then have "k = (q div 64 * 64 + q mod 64) * 4096 + c * 64 + d" using q(1) by simp
  then have "k = q div 64 * 262144 + q mod 64 * 4096 + c * 64 + d" by (simp only: add_mult_distrib mult.assoc)
  then show thesis using q e by (intro that [of "q div 64" "q mod 64" c d]) (simp_all only: mod_less_divisor zero_less_numeral)
qed

lemma cp_bytes_decode:
  assumes "scalar k"
  shows "utf8_decode (cp_bytes k @ bs) = map_option (\<lambda>us. cp_units k @ us) (utf8_decode bs)"
proof -
  consider "k < 128" | "128 \<le> k" "k < 2048" | "2048 \<le> k" "k < 65536" | "65536 \<le> k" by linarith
  then show ?thesis
  proof cases
    case 2
    obtain a b where k: "k = a * 64 + b" "b < 64" "k div 64 = a" "k mod 64 = b"
      by (metis div_mult_mod_eq mod_less_divisor zero_less_numeral)
    then have "2 \<le> a" "a < 32" using 2 by linarith+
    then have e: "cp_bytes k = [192 + a, 128 + b]" using 2 by (simp add: cp_bytes_def k(3,4))
    show ?thesis unfolding e using \<open>2 \<le> a\<close> \<open>a < 32\<close> k(1,2) by (simp add: cont_def)
  next
    case 3
    obtain a b c where k: "k = a * 4096 + b * 64 + c" "b < 64" "c < 64" "k div 4096 = a" "k div 64 mod 64 = b" "k mod 64 = c"
      by (rule sextets3)
    then have a: "a < 16" using 3 by linarith
    have e: "cp_bytes k = [224 + a, 128 + b, 128 + c]" using 3 by (simp add: cp_bytes_def k(4-6))
    show ?thesis unfolding e using a k(1-3) 3 assms by (simp add: cont_def Let_def)
  next
    case 4
    obtain a b c d where k: "k = a * 262144 + b * 4096 + c * 64 + d" "b < 64" "c < 64" "d < 64" "k div 262144 = a"
        "k div 4096 mod 64 = b" "k div 64 mod 64 = c" "k mod 64 = d"
      by (rule sextets4)
    then have a: "a < 5" using assms 4 by (simp add: scalar_def)
    have e: "cp_bytes k = [240 + a, 128 + b, 128 + c, 128 + d]" using 4 by (simp add: cp_bytes_def k(5-8))
    show ?thesis unfolding e using a k(1-4) 4 assms by (simp add: cont_def Let_def)
  qed (simp add: cp_bytes_def)
qed

lemma surrogate_pair:
  assumes "high_surrogate u" "low_surrogate v"
  shows "scalar (65536 + (u - 55296) * 1024 + (v - 56320))" "cp_units (65536 + (u - 55296) * 1024 + (v - 56320)) = [u, v]"
proof -
  obtain a where a: "u = 55296 + a" "a < 1024" using assms(1) by (auto simp: high_surrogate_def le_iff_add)
  obtain b where b: "v = 56320 + b" "b < 1024" using assms(2) by (auto simp: low_surrogate_def le_iff_add)
  show "scalar (65536 + (u - 55296) * 1024 + (v - 56320))" using a b by (simp add: scalar_def)
  have "(a * 1024 + b) div 1024 = a" "(a * 1024 + b) mod 1024 = b" using b(2) by simp_all
  then show "cp_units (65536 + (u - 55296) * 1024 + (v - 56320)) = [u, v]" using a b by (simp add: cp_units_def)
qed

lemma plain_unit:
  "u < 65536 \<Longrightarrow> \<not> high_surrogate u \<Longrightarrow> \<not> low_surrogate u \<Longrightarrow> scalar u \<and> cp_units u = [u]"
  by (simp add: high_surrogate_def low_surrogate_def scalar_def cp_units_def) linarith

lemma utf8_round_trip: "well_formed us \<Longrightarrow> utf8_decode (utf8_units us) = Some us"
proof (induction us rule: well_formed.induct)
  case (2 u)
  then show ?case using plain_unit [of u] cp_bytes_decode [of u "[]"] by (simp add: utf8_units_def)
next
  case (3 u v us)
  show ?case
  proof (cases "high_surrogate u")
    case True
    with 3 have v: "low_surrogate v" "utf8_decode (utf8_units us) = Some us" by simp_all
    then show ?thesis
      using surrogate_pair [OF True v(1)] cp_bytes_decode [OF surrogate_pair(1) [OF True v(1)], of "utf8_units us"] True
      by (simp add: utf8_units_def)
  next
    case False
    with 3 have u: "u < 65536" "\<not> low_surrogate u" "utf8_decode (utf8_units (v # us)) = Some (v # us)" by simp_all
    then show ?thesis
      using plain_unit [OF u(1) False u(2)] cp_bytes_decode [of u "utf8_units (v # us)"] False
      by (simp add: utf8_units_def)
  qed
qed (simp add: utf8_units_def)

lemma length_cp_bytes: "length (cp_bytes k) \<le> 4" "k < 65536 \<Longrightarrow> length (cp_bytes k) \<le> 3"
  by (simp_all add: cp_bytes_def)

text \<open>Three bytes for each unit are enough.\<close>

lemma length_utf8_units: "list_all (\<lambda>u. u < 65536) us \<Longrightarrow> length (utf8_units us) \<le> 3 * length us"
proof (induction us rule: code_points.induct)
  case (2 u)
  then show ?case using length_cp_bytes(2) by (simp add: utf8_units_def)
next
  case (3 u v us)
  show ?case
  proof (cases "high_surrogate u \<and> low_surrogate v")
    case True
    then show ?thesis
      using 3 length_cp_bytes(1) [of "65536 + (u - 55296) * 1024 + (v - 56320)"] by (simp add: utf8_units_def)
  next
    case False
    then show ?thesis
      using 3 length_cp_bytes(2) [of u] length_cp_bytes(2) [of 65533] by (auto simp: utf8_units_def)
  qed
qed (simp add: utf8_units_def)

lemma fitting_all: "length (concat (map cp_bytes ks)) \<le> cap \<Longrightarrow> fitting cap ks = concat (map cp_bytes ks)"
  by (induction ks arbitrary: cap) auto

text \<open>In the views that the code makes, three bytes for each unit, both do the same.\<close>

lemma encodeInto_fallback_agrees:
  "list_all (\<lambda>u. u < 65536) us \<Longrightarrow>
    encodeInto_fallback (length us * 3) us = Some (length us, fitting (length us * 3) (code_points us))"
  using length_utf8_units [of us] fitting_all [of "code_points us" "length us * 3"]
  by (simp add: encodeInto_fallback_def utf8_units_def)

lemma utf8_ascii_prefix: "list_all (\<lambda>u. u \<le> 127) xs \<Longrightarrow> utf8_units (xs @ us) = xs @ utf8_units us"
proof (induction xs)
  case (Cons x xs)
  then have "\<not> high_surrogate x" "\<not> low_surrogate x" "cp_bytes x = [x]"
    by (simp_all add: high_surrogate_def low_surrogate_def cp_bytes_def)
  then have "code_points (x # ys) = x # code_points ys" for ys by (cases ys) simp_all
  then show ?case using Cons \<open>cp_bytes x = [x]\<close> by (simp add: utf8_units_def)
qed simp

section \<open>Linear memory\<close>

record 'a linear =
  cells :: "nat \<Rightarrow> byte"
  byteLength :: nat
  buffer :: nat
  alloc_state :: 'a

text \<open>The exports \<open>__wbindgen_malloc\<close>, \<open>__wbindgen_realloc\<close>, which return a signed 32-bit number or
  trap when there is no more memory (\<open>None\<close>), \<open>__wbindgen_free\<close>, and the blocks that are allocated. Blocks
  without bytes are not counted. A trap ends the call of JavaScript too, with a \<open>RuntimeError\<close>.\<close>

record 'a allocator =
  malloc :: "nat \<Rightarrow> 'a linear \<Rightarrow> (int \<times> 'a linear) option"
  realloc :: "nat \<Rightarrow> nat \<Rightarrow> nat \<Rightarrow> 'a linear \<Rightarrow> (int \<times> 'a linear) option"
  dealloc :: "nat \<Rightarrow> nat \<Rightarrow> 'a linear \<Rightarrow> 'a linear"
  live :: "'a linear \<Rightarrow> (nat \<times> nat) set"

definition to_uint32 :: "int \<Rightarrow> nat" where
  "to_uint32 i = nat (i mod 2 ^ 32)"

definition extent :: "nat \<Rightarrow> nat \<Rightarrow> (nat \<times> nat) set" where
  "extent p n = (if n = 0 then {} else {(p, n)})"

definition apart :: "nat \<Rightarrow> nat \<Rightarrow> nat \<Rightarrow> nat \<Rightarrow> bool" where
  "apart p n q m = (n = 0 \<or> m = 0 \<or> p + n \<le> q \<or> q + m \<le> p)"

definition same_block :: "'a linear \<Rightarrow> 'a linear \<Rightarrow> nat \<Rightarrow> nat \<Rightarrow> bool" where
  "same_block h h' p n = (\<forall>i<n. cells h' (p + i) = cells h (p + i))"

text \<open>From \<open>h\<close> to \<open>h'\<close> a block came in the place of another; it lies apart from the rest, which is
  as it was.\<close>

definition replaces :: "'a allocator \<Rightarrow> 'a linear \<Rightarrow> 'a linear \<Rightarrow> nat \<times> nat \<Rightarrow> nat \<times> nat \<Rightarrow> bool" where
  "replaces al h h' old new = (case (old, new) of ((p, n), (q, m)) \<Rightarrow>
     live al h' = extent q m \<union> (live al h - extent p n) \<and>
     (\<forall>(b, s) \<in> live al h - extent p n. apart b s q m \<and> same_block h h' b s))"

text \<open>
  A new block is not null; a block that changes its size keeps the bytes that both sizes have.
  Which blocks are live does not depend on what is written into them, and they lie inside the memory.
\<close>

definition allocator_ok :: "'a allocator \<Rightarrow> bool" where
  "allocator_ok al =
     ((\<forall>n h q h'. malloc al n h = Some (q, h') \<longrightarrow> to_uint32 q \<noteq> 0 \<and> replaces al h h' (0, 0) (to_uint32 q, n)) \<and>
      (\<forall>p m n h q h'. extent p m \<subseteq> live al h \<longrightarrow> realloc al p m n h = Some (q, h') \<longrightarrow>
        to_uint32 q \<noteq> 0 \<and> replaces al h h' (p, m) (to_uint32 q, n) \<and>
        (\<forall>i < min m n. cells h' (to_uint32 q + i) = cells h (p + i))) \<and>
      (\<forall>p n h. extent p n \<subseteq> live al h \<longrightarrow> replaces al h (dealloc al p n h) (p, n) (0, 0)) \<and>
      (\<forall>h. \<forall>(b, s) \<in> live al h. b + s \<le> byteLength h) \<and>
      (\<forall>h f. live al (h\<lparr>cells := f\<rparr>) = live al h))"

section \<open>Copying in\<close>

record 'a glue =
  memory :: "'a linear"
  cachedUint8ArrayMemory0 :: "nat option"
  WASM_VECTOR_LEN :: nat
  numBytesDecoded :: nat

text \<open>A view is known by the buffer it is over; over a buffer that was replaced it has length 0.\<close>

definition getUint8ArrayMemory0 :: "'a glue \<Rightarrow> nat \<times> 'a glue" where
  "getUint8ArrayMemory0 g =
     (case cachedUint8ArrayMemory0 g of
        Some v \<Rightarrow> if v \<noteq> buffer (memory g) then (buffer (memory g), g\<lparr>cachedUint8ArrayMemory0 := Some (buffer (memory g))\<rparr>) else (v, g)
      | None \<Rightarrow> (buffer (memory g), g\<lparr>cachedUint8ArrayMemory0 := Some (buffer (memory g))\<rparr>))"

text \<open>The length of a view over the whole memory, and of its part \<open>subarray(p, p + n)\<close>.\<close>

definition view_length :: "nat \<Rightarrow> 'a linear \<Rightarrow> nat" where
  "view_length view h = (if view = buffer h then byteLength h else 0)"

definition clamped :: "nat \<Rightarrow> nat \<Rightarrow> nat \<Rightarrow> 'a linear \<Rightarrow> nat" where
  "clamped view p n h = min (p + n) (view_length view h) - min p (view_length view h)"

text \<open>Assignments to the elements of a view from \<open>ptr\<close> on; those that it does not have are ignored.\<close>

definition write_bytes :: "nat \<Rightarrow> nat \<Rightarrow> byte list \<Rightarrow> 'a glue \<Rightarrow> 'a glue" where
  "write_bytes view ptr bs g =
     (if view = buffer (memory g)
      then g\<lparr>memory := (memory g)\<lparr>cells := (\<lambda>a. if ptr \<le> a \<and> a < ptr + length bs \<and> a < byteLength (memory g)
         then bs ! (a - ptr) else cells (memory g) a)\<rparr>\<rparr>
      else g)"

definition call_malloc :: "'a allocator \<Rightarrow> nat \<Rightarrow> 'a glue \<Rightarrow> (nat \<times> 'a glue) option" where
  "call_malloc al n g = map_option (\<lambda>(q, h). (to_uint32 q, g\<lparr>memory := h\<rparr>)) (malloc al n (memory g))"

definition call_realloc :: "'a allocator \<Rightarrow> nat \<Rightarrow> nat \<Rightarrow> nat \<Rightarrow> 'a glue \<Rightarrow> (nat \<times> 'a glue) option" where
  "call_realloc al p m n g = map_option (\<lambda>(q, h). (to_uint32 q, g\<lparr>memory := h\<rparr>)) (realloc al p m n (memory g))"

text \<open>The loop that copies the units below 128 from the front, one at a time.\<close>

fun copy_ascii :: "nat \<Rightarrow> nat \<Rightarrow> nat \<Rightarrow> units \<Rightarrow> 'a glue \<Rightarrow> nat \<times> 'a glue" where
  "copy_ascii mem ptr offset [] g = (offset, g)"
| "copy_ascii mem ptr offset (code # us) g =
     (if 127 < code then (offset, g)
      else copy_ascii mem ptr (Suc offset) us (write_bytes mem (ptr + offset) [code] g))"

text \<open>Nothing is returned (\<open>None\<close>) when the allocator traps, and when bytes are copied with \<open>set\<close> into a view that
  is too short for them.\<close>

definition passStringToWasm0 :: "'a allocator \<Rightarrow> bool \<Rightarrow> units \<Rightarrow> 'a glue \<Rightarrow> (nat \<times> 'a glue) option" where
  "passStringToWasm0 al has_realloc arg g =
     (if \<not> has_realloc then do {
        let buf = utf8_units arg;
        (ptr, g1) \<leftarrow> call_malloc al (length buf) g;
        let (view, g2) = getUint8ArrayMemory0 g1;
        if clamped view ptr (length buf) (memory g2) < length buf then None
        else do {
          let g3 = write_bytes view ptr buf g2;
          Some (ptr, g3\<lparr>WASM_VECTOR_LEN := length buf\<rparr>)
        }
      } else do {
        let len = length arg;
        (ptr, g1) \<leftarrow> call_malloc al len g;
        let (mem, g2) = getUint8ArrayMemory0 g1;
        let (offset, g3) = copy_ascii mem ptr 0 arg g2;
        if offset = len then Some (ptr, g3\<lparr>WASM_VECTOR_LEN := offset\<rparr>)
        else do {
          let rest = drop offset arg;
          let len' = offset + length rest * 3;
          (ptr', g4) \<leftarrow> call_realloc al ptr len len' g3;
          let (view, g5) = getUint8ArrayMemory0 g4;
          let written = fitting (clamped view (ptr' + offset) (len' - offset) (memory g5)) (code_points rest);
          let g6 = write_bytes view (ptr' + offset) written g5;
          let offset' = offset + length written;
          (ptr'', g7) \<leftarrow> call_realloc al ptr' len' offset' g6;
          Some (ptr'', g7\<lparr>WASM_VECTOR_LEN := offset'\<rparr>)
        }
      })"

definition passArray8ToWasm0 :: "'a allocator \<Rightarrow> byte list \<Rightarrow> 'a glue \<Rightarrow> (nat \<times> 'a glue) option" where
  "passArray8ToWasm0 al arg g = do {
     (ptr, g1) \<leftarrow> call_malloc al (length arg) g;
     let (view, g2) = getUint8ArrayMemory0 g1;
     if view_length view (memory g2) < ptr + length arg then None
     else do {
       let g3 = write_bytes view ptr arg g2;
       Some (ptr, g3\<lparr>WASM_VECTOR_LEN := length arg\<rparr>)
     }
   }"

section \<open>Copying out\<close>

definition read_bytes :: "'a linear \<Rightarrow> nat \<Rightarrow> nat \<Rightarrow> byte list" where
  "read_bytes h p n = map (\<lambda>i. cells h (p + i)) [0..<n]"

text \<open>The bytes of \<open>subarray(p, p + n)\<close>.\<close>

definition view_bytes :: "nat \<Rightarrow> 'a linear \<Rightarrow> nat \<Rightarrow> nat \<Rightarrow> byte list" where
  "view_bytes view h p n = read_bytes h (min p (view_length view h)) (clamped view p n h)"

definition getArrayU8FromWasm0 :: "int \<Rightarrow> nat \<Rightarrow> 'a glue \<Rightarrow> byte list \<times> 'a glue" where
  "getArrayU8FromWasm0 ptr len g =
     (let (view, g1) = getUint8ArrayMemory0 g in (view_bytes view (memory g1) (to_uint32 ptr) len, g1))"

text \<open>
  The decoder is replaced before it has decoded as much as some browsers can bear. It is fatal:
  bytes that are not UTF-8 are a \<open>TypeError\<close>, here \<open>None\<close>.
\<close>

definition MAX_SAFARI_DECODE_BYTES :: nat where "MAX_SAFARI_DECODE_BYTES = 2146435072"

definition decodeText :: "nat \<Rightarrow> nat \<Rightarrow> 'a glue \<Rightarrow> units option \<times> 'a glue" where
  "decodeText ptr len g =
     (let n = numBytesDecoded g + len;
          g1 = g\<lparr>numBytesDecoded := (if n \<ge> MAX_SAFARI_DECODE_BYTES then len else n)\<rparr>;
          (view, g2) = getUint8ArrayMemory0 g1
      in (utf8_decode (view_bytes view (memory g2) ptr len), g2))"

definition getStringFromWasm0 :: "int \<Rightarrow> nat \<Rightarrow> 'a glue \<Rightarrow> units option \<times> 'a glue" where
  "getStringFromWasm0 ptr len = decodeText (to_uint32 ptr) len"

section \<open>Calls\<close>

text \<open>An optional argument: \<open>undefined\<close> and \<open>null\<close> become the null pointer.\<close>

definition passOptional :: "'a allocator \<Rightarrow> units option \<Rightarrow> 'a glue \<Rightarrow> (nat \<times> 'a glue) option" where
  "passOptional al arg g = (case arg of None \<Rightarrow> Some (0, g) | Some s \<Rightarrow> passStringToWasm0 al True s g)"

text \<open>What \<open>fromMnemonic\<close> and \<open>verifySignature\<close> hand to the exports. The length that goes with a
  null pointer is what the argument before it left.\<close>

definition fromMnemonic_args ::
  "'a allocator \<Rightarrow> units \<Rightarrow> units option \<Rightarrow> 'a glue \<Rightarrow> ((nat \<times> nat \<times> nat \<times> nat) \<times> 'a glue) option" where
  "fromMnemonic_args al phrase passphrase g = do {
     (ptr0, g1) \<leftarrow> passStringToWasm0 al True phrase g;
     let len0 = WASM_VECTOR_LEN g1;
     (ptr1, g2) \<leftarrow> passOptional al passphrase g1;
     let len1 = WASM_VECTOR_LEN g2;
     Some ((ptr0, len0, ptr1, len1), g2)
   }"

definition verifySignature_args ::
  "'a allocator \<Rightarrow> byte list \<Rightarrow> units \<Rightarrow> 'a glue \<Rightarrow> ((nat \<times> nat \<times> nat \<times> nat) \<times> 'a glue) option" where
  "verifySignature_args al message_hash signature_hex g = do {
     (ptr0, g1) \<leftarrow> passArray8ToWasm0 al message_hash g;
     let len0 = WASM_VECTOR_LEN g1;
     (ptr1, g2) \<leftarrow> passStringToWasm0 al True signature_hex g1;
     let len1 = WASM_VECTOR_LEN g2;
     Some ((ptr0, len0, ptr1, len1), g2)
   }"

text \<open>
  An export that returns a string, or traps: the string is decoded, and its block is freed even when that
  fails.
\<close>

definition string_call ::
  "'a allocator \<Rightarrow> ('a linear \<Rightarrow> ((int \<times> nat) \<times> 'a linear) option) \<Rightarrow> 'a glue \<Rightarrow> (units option \<times> 'a glue) option" where
  "string_call al export g = do {
     ((p, n), h) \<leftarrow> export (memory g);
     let (r, g1) = getStringFromWasm0 p n (g\<lparr>memory := h\<rparr>);
     Some (r, g1\<lparr>memory := dealloc al (to_uint32 p) n (memory g1)\<rparr>)
   }"

definition glue_hashMessage ::
  "'a allocator \<Rightarrow> (nat \<Rightarrow> nat \<Rightarrow> 'a linear \<Rightarrow> ((int \<times> nat) \<times> 'a linear) option) \<Rightarrow> units \<Rightarrow> 'a glue \<Rightarrow>
    (units option \<times> 'a glue) option" where
  "glue_hashMessage al wallet_hashMessage message g = do {
     (ptr0, g1) \<leftarrow> passStringToWasm0 al True message g;
     let len0 = WASM_VECTOR_LEN g1;
     string_call al (wallet_hashMessage ptr0 len0) g1
   }"

section \<open>A block beside the others\<close>

lemma extent_nothing [simp]: "extent p 0 = {}"
  by (simp add: extent_def)

lemma block_apart: "(\<And>b s. (b, s) \<in> L \<Longrightarrow> apart b s p n) \<Longrightarrow> L \<inter> extent p n = {}"
  by (force simp: extent_def apart_def)

text \<open>A block beside those there were.\<close>

definition grown :: "'a allocator \<Rightarrow> 'a linear \<Rightarrow> 'a linear \<Rightarrow> nat \<Rightarrow> nat \<Rightarrow> bool" where
  "grown al h h' p n = (p \<noteq> 0 \<and> replaces al h h' (0, 0) (p, n))"

definition holds_at :: "'a linear \<Rightarrow> nat \<Rightarrow> byte list \<Rightarrow> bool" where
  "holds_at h p bs = (\<forall>i<length bs. cells h (p + i) = bs ! i)"

lemma replacesI:
  "live al h' = extent q m \<union> (live al h - extent p n) \<Longrightarrow>
    (\<And>b s. (b, s) \<in> live al h - extent p n \<Longrightarrow> apart b s q m \<and> same_block h h' b s) \<Longrightarrow> replaces al h h' (p, n) (q, m)"
  by (auto simp: replaces_def)

lemma replacesD:
  assumes "replaces al h h' (p, n) (q, m)"
  shows "live al h' = extent q m \<union> (live al h - extent p n)"
    "(b, s) \<in> live al h - extent p n \<Longrightarrow> apart b s q m" "(b, s) \<in> live al h - extent p n \<Longrightarrow> same_block h h' b s"
  using assms by (auto simp: replaces_def)

lemma new_block:
  assumes "replaces al h h' (0, 0) (p, n)"
  shows "live al h' = extent p n \<union> live al h" "live al h' - extent p n = live al h" "extent p n \<subseteq> live al h'"
proof -
  show l: "live al h' = extent p n \<union> live al h" using replacesD(1) [OF assms] by simp
  have "live al h \<inter> extent p n = {}" by (rule block_apart) (use replacesD(2) [OF assms] in simp)
  then show "live al h' - extent p n = live al h" using l by auto
  show "extent p n \<subseteq> live al h'" using l by auto
qed

lemma replaces_trans:
  assumes "replaces al h h' (0, 0) (p, n)" "replaces al h' h'' (p, n) (q, m)"
  shows "replaces al h h'' (0, 0) (q, m)"
proof (rule replacesI)
  note d = new_block(2) [OF assms(1)]
  show "live al h'' = extent q m \<union> (live al h - extent 0 0)" using replacesD(1) [OF assms(2)] by (simp add: d)
  fix b s assume "(b, s) \<in> live al h - extent 0 0"
  then show "apart b s q m \<and> same_block h h'' b s"
    using replacesD(3) [OF assms(1), of b s] replacesD(2,3) [OF assms(2), of b s] by (simp add: d same_block_def)
qed

lemma grown_malloc:
  assumes "allocator_ok al" "call_malloc al n g = Some (p, g')"
  shows "grown al (memory g) (memory g') p n"
proof -
  obtain q k where q: "malloc al n (memory g) = Some (q, k)" "p = to_uint32 q" "g' = g\<lparr>memory := k\<rparr>"
    using assms(2) by (auto simp: call_malloc_def split: prod.splits)
  have "to_uint32 q \<noteq> 0 \<and> replaces al (memory g) k (0, 0) (to_uint32 q, n)"
    using assms(1) q(1) unfolding allocator_ok_def by blast
  then show ?thesis using q by (simp add: grown_def)
qed

lemma grown_realloc:
  assumes "allocator_ok al" "grown al h (memory g) p m" "call_realloc al p m n g = Some (p', g')"
  shows "grown al h (memory g') p' n" "\<And>i. i < m \<Longrightarrow> i < n \<Longrightarrow> cells (memory g') (p' + i) = cells (memory g) (p + i)"
proof -
  obtain q k where q: "realloc al p m n (memory g) = Some (q, k)" "p' = to_uint32 q" "g' = g\<lparr>memory := k\<rparr>"
    using assms(3) by (auto simp: call_realloc_def split: prod.splits)
  have gr: "replaces al h (memory g) (0, 0) (p, m)" using assms(2) by (simp add: grown_def)
  then have "extent p m \<subseteq> live al (memory g)" by (rule new_block(3))
  then have laws: "to_uint32 q \<noteq> 0" "replaces al (memory g) k (p, m) (to_uint32 q, n)"
    "\<And>i. i < min m n \<Longrightarrow> cells k (to_uint32 q + i) = cells (memory g) (p + i)"
    using assms(1) q(1) unfolding allocator_ok_def by blast+
  show "grown al h (memory g') p' n" using replaces_trans [OF gr laws(2)] laws(1) q by (simp add: grown_def)
  show "\<And>i. i < m \<Longrightarrow> i < n \<Longrightarrow> cells (memory g') (p' + i) = cells (memory g) (p + i)"
    using laws(3) q by simp
qed

lemma view_current:
  assumes "getUint8ArrayMemory0 g = (v, g')"
  shows "v = buffer (memory g)" "memory g' = memory g"
  using assms by (auto simp: getUint8ArrayMemory0_def split: option.splits if_splits)

lemma write_cells:
  assumes "v = buffer (memory g)"
  shows "cells (memory (write_bytes v p bs g)) a =
      (if p \<le> a \<and> a < p + length bs \<and> a < byteLength (memory g) then bs ! (a - p) else cells (memory g) a)"
    "live al (memory (write_bytes v p bs g)) = live al (memory g) \<or> \<not> allocator_ok al"
    "buffer (memory (write_bytes v p bs g)) = buffer (memory g)"
    "byteLength (memory (write_bytes v p bs g)) = byteLength (memory g)"
  using assms by (auto simp: write_bytes_def allocator_ok_def)

lemma live_inside: "allocator_ok al \<Longrightarrow> extent p n \<subseteq> live al h \<Longrightarrow> n = 0 \<or> p + n \<le> byteLength h"
  by (auto simp: allocator_ok_def extent_def split: if_splits)

lemma grown_inside: "allocator_ok al \<Longrightarrow> grown al h h' p n \<Longrightarrow> n = 0 \<or> p + n \<le> byteLength h'"
  using live_inside [of al p n h'] new_block(3) [of al h h' p n] by (simp add: grown_def)

text \<open>A part of the memory that lies inside it is not clamped.\<close>

lemma clamped_inside: "n = 0 \<or> p + n \<le> byteLength h \<Longrightarrow> clamped (buffer h) p n h = n"
  by (auto simp: clamped_def view_length_def)

lemma view_bytes_inside: "n = 0 \<or> p + n \<le> byteLength h \<Longrightarrow> view_bytes (buffer h) h p n = read_bytes h p n"
  by (auto simp: view_bytes_def clamped_inside view_length_def read_bytes_def)

lemma grown_write:
  assumes "allocator_ok al" "grown al h (memory g) p n" "v = buffer (memory g)" "p \<le> q" "q + length bs \<le> p + n"
  shows "grown al h (memory (write_bytes v q bs g)) p n" "holds_at (memory (write_bytes v q bs g)) q bs"
proof -
  have inside: "bs = [] \<or> q + length bs \<le> byteLength (memory g)" using grown_inside [OF assms(1,2)] assms(4,5) by (cases bs) auto
  then show "holds_at (memory (write_bytes v q bs g)) q bs" by (auto simp: holds_at_def write_cells(1) [OF assms(3)])
  have "same_block (memory g) (memory (write_bytes v q bs g)) b s" if "apart b s p n" for b s
    using that assms(4,5) by (auto simp: same_block_def apart_def write_cells(1) [OF assms(3)])
  then show "grown al h (memory (write_bytes v q bs g)) p n"
    using assms(1,2) write_cells(2) [OF assms(3), of al q bs] by (auto simp: grown_def replaces_def same_block_def)
qed

lemma write_append:
  assumes "v = buffer (memory g)"
  shows "write_bytes v (p + length xs) ys (write_bytes v p xs g) = write_bytes v p (xs @ ys) g"
proof -
  have "(if p + length xs \<le> a \<and> a < p + length xs + length ys \<and> a < L then ys ! (a - (p + length xs))
      else if p \<le> a \<and> a < p + length xs \<and> a < L then xs ! (a - p) else f a)
    = (if p \<le> a \<and> a < p + length (xs @ ys) \<and> a < L then (xs @ ys) ! (a - p) else f a)" for a L and f :: "nat \<Rightarrow> byte"
    by (auto simp: nth_append)
  then show ?thesis using assms by (simp add: write_bytes_def cong: if_cong)
qed

lemma write_nothing: "write_bytes v p [] g = g"
proof -
  have "(\<lambda>a. if p \<le> a \<and> a < p + length [] \<and> a < L then [] ! (a - p) else f a) = f" for L and f :: "nat \<Rightarrow> byte" by auto
  then show ?thesis by (simp add: write_bytes_def)
qed

lemma copy_ascii_eq:
  assumes "v = buffer (memory g)"
  shows "copy_ascii v p (length done) us (write_bytes v p done g)
    = (length done + length (takeWhile (\<lambda>u. u \<le> 127) us), write_bytes v p (done @ takeWhile (\<lambda>u. u \<le> 127) us) g)"
proof (induction us arbitrary: "done")
  case (Cons u us)
  have "write_bytes v (p + length done) [u] (write_bytes v p done g) = write_bytes v p (done @ [u]) g"
    using write_append [OF assms, of p "done" "[u]"] .
  then show ?case using Cons [of "done @ [u]"] by (cases "u \<le> 127") simp_all
qed simp

section \<open>What is copied in\<close>

lemma holds_at_append:
  "holds_at h p (xs @ ys) \<longleftrightarrow> holds_at h p xs \<and> holds_at h (p + length xs) ys"
proof -
  have "(\<forall>i<length xs + length ys. P i) \<longleftrightarrow> (\<forall>i<length xs. P i) \<and> (\<forall>i<length ys. P (length xs + i))" for P :: "nat \<Rightarrow> bool"
  proof safe
    fix i assume h: "\<forall>i<length xs. P i" "\<forall>i<length ys. P (length xs + i)" "i < length xs + length ys"
    show "P i"
    proof (cases "i < length xs")
      case False
      then obtain j where "i = length xs + j" by (metis le_iff_add not_less)
      then show ?thesis using h by simp
    qed (use h in simp)
  qed simp_all
  from this [of "\<lambda>i. cells h (p + i) = (xs @ ys) ! i"] show ?thesis
    by (simp add: holds_at_def nth_append add.assoc cong: conj_cong)
qed

definition passed :: "'a allocator \<Rightarrow> 'a glue \<Rightarrow> nat \<Rightarrow> byte list \<Rightarrow> 'a glue \<Rightarrow> bool" where
  "passed al g p bs g' = (grown al (memory g) (memory g') p (length bs) \<and> holds_at (memory g') p bs \<and> WASM_VECTOR_LEN g' = length bs)"

lemma passArray8_passed:
  assumes "allocator_ok al" "passArray8ToWasm0 al bs g = Some (p, g')"
  shows "passed al g p bs g'"
proof -
  obtain g1 where m: "call_malloc al (length bs) g = Some (p, g1)"
    using assms(2) by (auto simp: passArray8ToWasm0_def Let_def bind_eq_Some_conv case_prod_unfold split: if_splits)
  obtain v g2 where v: "getUint8ArrayMemory0 g1 = (v, g2)" by fastforce
  have g': "g' = (write_bytes v p bs g2)\<lparr>WASM_VECTOR_LEN := length bs\<rparr>"
    using assms(2) m v by (simp add: passArray8ToWasm0_def split: if_splits)
  note gr = grown_malloc [OF assms(1) m]
  have "grown al (memory g) (memory g2) p (length bs)" "v = buffer (memory g2)" using gr view_current [OF v] by simp_all
  from grown_write [OF assms(1) this, of p bs] show ?thesis by (simp add: passed_def g')
qed

lemma passString_short_passed:
  assumes "allocator_ok al" "passStringToWasm0 al False arg g = Some (p, g')"
  shows "passed al g p (utf8_units arg) g'"
proof -
  let ?bs = "utf8_units arg"
  obtain g1 where m: "call_malloc al (length ?bs) g = Some (p, g1)"
    using assms(2) by (auto simp: passStringToWasm0_def Let_def bind_eq_Some_conv case_prod_unfold split: if_splits)
  obtain v g2 where v: "getUint8ArrayMemory0 g1 = (v, g2)" by fastforce
  have g': "g' = (write_bytes v p ?bs g2)\<lparr>WASM_VECTOR_LEN := length ?bs\<rparr>"
    using assms(2) m v by (simp add: passStringToWasm0_def Let_def split: if_splits)
  have "grown al (memory g) (memory g2) p (length ?bs)" "v = buffer (memory g2)"
    using grown_malloc [OF assms(1) m] view_current [OF v] by simp_all
  from grown_write [OF assms(1) this, of p ?bs] show ?thesis by (simp add: passed_def g')
qed

lemma passString_passed:
  assumes "allocator_ok al" "list_all (\<lambda>u. u < 65536) arg" "passStringToWasm0 al True arg g = Some (p, g')"
  shows "passed al g p (utf8_units arg) g'"
proof -
  let ?pre = "takeWhile (\<lambda>u. u \<le> 127) arg" and ?len = "length arg"
  let ?off = "length ?pre"
  let ?rest = "drop ?off arg"
  have arg: "arg = ?pre @ ?rest" by (metis append_take_drop_id takeWhile_eq_take)
  have ascii: "list_all (\<lambda>u. u \<le> 127) ?pre" by (auto simp: list_all_iff dest: set_takeWhileD)
  have utf: "utf8_units arg = ?pre @ utf8_units ?rest" using utf8_ascii_prefix [OF ascii, of ?rest] arg by simp
  obtain p1 g1 where m: "call_malloc al ?len g = Some (p1, g1)"
    using assms(3) by (auto simp: passStringToWasm0_def Let_def bind_eq_Some_conv)
  obtain v g2 where v: "getUint8ArrayMemory0 g1 = (v, g2)" by fastforce
  note v1 = view_current [OF v]
  let ?g3 = "write_bytes v p1 ?pre g2"
  have vb: "v = buffer (memory g2)" using v1 by simp
  note nil = write_nothing [of v p1 g2]
  have copy: "copy_ascii v p1 0 arg g2 = (?off, ?g3)" using copy_ascii_eq [OF vb, of p1 "[]" arg] by (simp add: nil)
  have le: "?off \<le> ?len" by (rule length_takeWhile_le)
  have gr1: "grown al (memory g) (memory g2) p1 ?len" using grown_malloc [OF assms(1) m] v1 by simp
  have w1: "grown al (memory g) (memory ?g3) p1 ?len" "holds_at (memory ?g3) p1 ?pre"
    using grown_write [OF assms(1) gr1 vb, of p1 ?pre] le by simp_all
  show ?thesis
  proof (cases "?off = ?len")
    case True
    then have "g' = ?g3\<lparr>WASM_VECTOR_LEN := ?off\<rparr>" "p = p1" using assms(3) m v copy by (auto simp: passStringToWasm0_def)
    moreover have "utf8_units arg = ?pre" using utf True by (simp add: utf8_units_def)
    ultimately show ?thesis using w1 True by (simp add: passed_def)
  next
    case False
    let ?len' = "?off + length ?rest * 3"
    obtain p2 g4 where r1: "call_realloc al p1 ?len ?len' ?g3 = Some (p2, g4)"
      using assms(3) m v copy False by (auto simp: passStringToWasm0_def Let_def bind_eq_Some_conv)
    obtain v' g5 where v': "getUint8ArrayMemory0 g4 = (v', g5)" by fastforce
    note v2 = view_current [OF v']
    note gr2 = grown_realloc [OF assms(1) w1(1) r1]
    have gr5: "grown al (memory g) (memory g5) p2 ?len'" using gr2(1) v2 by simp
    have vb': "v' = buffer (memory g5)" using v2 by simp
    have cap: "clamped v' (p2 + ?off) (?len' - ?off) (memory g5) = ?len' - ?off"
      unfolding vb' by (rule clamped_inside) (use grown_inside [OF assms(1) gr5] in auto)
    have fit: "fitting (clamped v' (p2 + ?off) (?len' - ?off) (memory g5)) (code_points ?rest) = utf8_units ?rest"
    proof -
      have "list_all (\<lambda>u. u < 65536) ?rest" using assms(2) by (auto simp: list_all_iff dest: in_set_dropD)
      then have "fitting (?len' - ?off) (code_points ?rest) = utf8_units ?rest"
        using length_utf8_units [of ?rest] fitting_all [of "code_points ?rest"] by (simp add: utf8_units_def)
      then show ?thesis unfolding cap .
    qed
    let ?g6 = "write_bytes v' (p2 + ?off) (utf8_units ?rest) g5"
    let ?n = "?off + length (utf8_units ?rest)"
    obtain p3 g7 where r2: "call_realloc al p2 ?len' ?n ?g6 = Some (p3, g7)"
      using assms(3) m v copy False r1 v' unfolding passStringToWasm0_def Let_def
      by (auto simp: bind_eq_Some_conv fit [simplified])
    have res: "p = p3" "g' = g7\<lparr>WASM_VECTOR_LEN := ?n\<rparr>"
      using assms(3) m v copy False r1 v' r2 unfolding passStringToWasm0_def Let_def by (simp_all add: fit [simplified])
    have b: "length (utf8_units ?rest) \<le> 3 * length ?rest"
      by (rule length_utf8_units) (use assms(2) in \<open>auto simp: list_all_iff dest: in_set_dropD\<close>)
    have h5: "holds_at (memory g5) p2 ?pre"
      using w1(2) gr2(2) le v2 by (simp add: holds_at_def)
    note w2 = grown_write [OF assms(1) gr5 vb', of "p2 + ?off" "utf8_units ?rest"]
    have gr6: "grown al (memory g) (memory ?g6) p2 ?len'" "holds_at (memory ?g6) (p2 + ?off) (utf8_units ?rest)"
      using w2 b by simp_all
    have "holds_at (memory ?g6) p2 ?pre" using h5 by (simp add: holds_at_def write_cells(1) [OF vb'])
    then have h6: "holds_at (memory ?g6) p2 (utf8_units arg)" unfolding utf holds_at_append using gr6(2) by simp
    note gr3 = grown_realloc [OF assms(1) gr6(1) r2]
    have ln: "length (utf8_units arg) = ?n" using utf by simp
    have "?n \<le> ?len'" using b by simp
    then have "holds_at (memory g7) p3 (utf8_units arg)" using h6 gr3(2) ln by (simp add: holds_at_def)
    then show ?thesis using gr3(1) res ln by (simp add: passed_def)
  qed
qed

section \<open>Enough memory\<close>

text \<open>
  \<open>k\<close> more allocations of up to \<open>N\<close> bytes each do not trap, whatever is written between them.
\<close>

fun ready :: "'a allocator \<Rightarrow> nat \<Rightarrow> nat \<Rightarrow> 'a linear \<Rightarrow> bool" where
  "ready al N 0 h = True"
| "ready al N (Suc k) h =
     (\<forall>f. (\<forall>n \<le> N. case malloc al n (h\<lparr>cells := f\<rparr>) of None \<Rightarrow> False | Some (q, h') \<Rightarrow> ready al N k h') \<and>
       (\<forall>p m. \<forall>n \<le> N. extent p m \<subseteq> live al h \<longrightarrow>
         (case realloc al p m n (h\<lparr>cells := f\<rparr>) of None \<Rightarrow> False | Some (q, h') \<Rightarrow> ready al N k h')))"

lemma ready_cells [simp]: "ready al N k (h\<lparr>cells := f\<rparr>) \<longleftrightarrow> ready al N k h" if "allocator_ok al"
  using that by (cases k) (simp_all add: allocator_ok_def)

lemma ready_fewer: "ready al N (Suc k) h \<Longrightarrow> ready al N k h"
proof (induction k arbitrary: h)
  case (Suc k)
  show ?case
    unfolding ready.simps(2) [of al N k h]
  proof (intro allI conjI impI)
    fix f n assume "n \<le> N"
    with Suc.prems have "case malloc al n (h\<lparr>cells := f\<rparr>) of None \<Rightarrow> False | Some (q, h') \<Rightarrow> ready al N (Suc k) h'"
      unfolding ready.simps(2) [of al N "Suc k" h] by blast
    then show "case malloc al n (h\<lparr>cells := f\<rparr>) of None \<Rightarrow> False | Some (q, h') \<Rightarrow> ready al N k h'"
      using Suc.IH by (auto simp del: ready.simps split: option.splits)
  next
    fix f p m n assume "n \<le> N" "extent p m \<subseteq> live al h"
    with Suc.prems have "case realloc al p m n (h\<lparr>cells := f\<rparr>) of None \<Rightarrow> False | Some (q, h') \<Rightarrow> ready al N (Suc k) h'"
      unfolding ready.simps(2) [of al N "Suc k" h] by blast
    then show "case realloc al p m n (h\<lparr>cells := f\<rparr>) of None \<Rightarrow> False | Some (q, h') \<Rightarrow> ready al N k h'"
      using Suc.IH by (auto simp del: ready.simps split: option.splits)
  qed
qed simp

lemma ready_malloc:
  assumes "ready al N (Suc k) (memory g)" "n \<le> N"
  obtains p g' where "call_malloc al n g = Some (p, g')" "ready al N k (memory g')"
proof -
  have "case malloc al n ((memory g)\<lparr>cells := cells (memory g)\<rparr>) of None \<Rightarrow> False | Some (q, h') \<Rightarrow> ready al N k h'"
    using assms unfolding ready.simps(2) by blast
  then show thesis using that by (auto simp: call_malloc_def simp del: ready.simps split: option.splits)
qed

lemma ready_realloc:
  assumes "ready al N (Suc k) (memory g)" "n \<le> N" "extent p m \<subseteq> live al (memory g)"
  obtains p' g' where "call_realloc al p m n g = Some (p', g')" "ready al N k (memory g')"
proof -
  have "case realloc al p m n ((memory g)\<lparr>cells := cells (memory g)\<rparr>) of None \<Rightarrow> False | Some (q, h') \<Rightarrow> ready al N k h'"
    using assms unfolding ready.simps(2) by blast
  then show thesis using that by (auto simp: call_realloc_def simp del: ready.simps split: option.splits)
qed

lemma ready_write: "allocator_ok al \<Longrightarrow> ready al N k (memory (write_bytes v p bs g)) \<longleftrightarrow> ready al N k (memory g)"
  by (simp add: write_bytes_def)

declare ready.simps [simp del]

lemma grown_extent: "grown al h h' p n \<Longrightarrow> extent p n \<subseteq> live al h'"
  using new_block(3) [of al h h' p n] by (simp add: grown_def)

lemma passString_returns:
  assumes "allocator_ok al" "list_all (\<lambda>u. u < 65536) arg" "3 * length arg \<le> N" "ready al N (k + 3) (memory g)"
  shows "\<exists>p g'. passStringToWasm0 al True arg g = Some (p, g') \<and> ready al N k (memory g')"
proof -
  let ?pre = "takeWhile (\<lambda>u. u \<le> 127) arg" and ?len = "length arg"
  let ?off = "length ?pre"
  let ?rest = "drop ?off arg"
  let ?len' = "?off + length ?rest * 3"
  have "ready al N (Suc (Suc (Suc k))) (memory g)" using assms(4) by (simp add: eval_nat_numeral)
  then obtain p1 g1 where m: "call_malloc al ?len g = Some (p1, g1)" "ready al N (Suc (Suc k)) (memory g1)"
    by (rule ready_malloc [of al N "Suc (Suc k)" g ?len]) (use assms(3) in simp_all)
  obtain v g2 where v: "getUint8ArrayMemory0 g1 = (v, g2)" by fastforce
  note v1 = view_current [OF v]
  let ?g3 = "write_bytes v p1 ?pre g2"
  have vb: "v = buffer (memory g2)" using v1 by simp
  have copy: "copy_ascii v p1 0 arg g2 = (?off, ?g3)" using copy_ascii_eq [OF vb, of p1 "[]" arg] by (simp add: write_nothing)
  have le: "?off \<le> ?len" by (rule length_takeWhile_le)
  have r3: "ready al N (Suc (Suc k)) (memory ?g3)" using m(2) v1 by (simp add: ready_write [OF assms(1)])
  have gr1: "grown al (memory g) (memory g2) p1 ?len" using grown_malloc [OF assms(1) m(1)] v1 by simp
  have w1: "grown al (memory g) (memory ?g3) p1 ?len" using grown_write [OF assms(1) gr1 vb, of p1 ?pre] le by simp
  show ?thesis
  proof (cases "?off = ?len")
    case True
    then show ?thesis using m(1) v copy ready_fewer [OF ready_fewer [OF r3]] by (simp add: passStringToWasm0_def)
  next
    case False
    have "?len' \<le> N" using le assms(3) by simp
    moreover have "extent p1 ?len \<subseteq> live al (memory ?g3)" using w1 by (rule grown_extent)
    ultimately obtain p2 g4 where r1: "call_realloc al p1 ?len ?len' ?g3 = Some (p2, g4)" "ready al N (Suc k) (memory g4)"
      using r3 by (elim ready_realloc [of al N "Suc k" ?g3 ?len' p1 ?len]) simp_all
    obtain v' g5 where v': "getUint8ArrayMemory0 g4 = (v', g5)" by fastforce
    note v2 = view_current [OF v']
    have gr5: "grown al (memory g) (memory g5) p2 ?len'" using grown_realloc(1) [OF assms(1) w1 r1(1)] v2 by simp
    have vb': "v' = buffer (memory g5)" using v2 by simp
    let ?w = "fitting (clamped v' (p2 + ?off) (?len' - ?off) (memory g5)) (code_points ?rest)"
    have cap: "clamped v' (p2 + ?off) (?len' - ?off) (memory g5) = ?len' - ?off"
      unfolding vb' by (rule clamped_inside) (use grown_inside [OF assms(1) gr5] in auto)
    have u: "list_all (\<lambda>u. u < 65536) ?rest" using assms(2) by (auto simp: list_all_iff dest: in_set_dropD)
    have w: "length ?w \<le> length ?rest * 3"
      unfolding cap using length_utf8_units [OF u] fitting_all [of "code_points ?rest" "?len' - ?off"] by (simp add: utf8_units_def)
    let ?g6 = "write_bytes v' (p2 + ?off) ?w g5"
    have gr6: "grown al (memory g) (memory ?g6) p2 ?len'" using grown_write(1) [OF assms(1) gr5 vb', of "p2 + ?off" ?w] w by simp
    have "?off + length ?w \<le> N" using w \<open>?len' \<le> N\<close> by linarith
    moreover have "extent p2 ?len' \<subseteq> live al (memory ?g6)" using gr6 by (rule grown_extent)
    moreover have "ready al N (Suc k) (memory ?g6)" using r1(2) v2 by (simp add: ready_write [OF assms(1)])
    ultimately obtain p3 g7 where r2: "call_realloc al p2 ?len' (?off + length ?w) ?g6 = Some (p3, g7)" "ready al N k (memory g7)"
      by (elim ready_realloc [of al N k ?g6 "?off + length ?w" p2 ?len']) simp_all
    then show ?thesis
      using m(1) v copy False r1(1) v' unfolding passStringToWasm0_def Let_def by simp
  qed
qed

section \<open>What arrives\<close>

lemma read_holds: "holds_at h p bs \<Longrightarrow> read_bytes h p (length bs) = bs"
  by (auto simp: read_bytes_def holds_at_def intro: nth_equalityI)

lemma read_same: "same_block h h' p n \<Longrightarrow> read_bytes h' p n = read_bytes h p n"
  by (simp add: read_bytes_def same_block_def)

lemma well_formed_units: "well_formed us \<Longrightarrow> list_all (\<lambda>u. u < 65536) us"
  by (induction us rule: well_formed.induct)
    (auto simp: high_surrogate_def low_surrogate_def split: if_splits)

text \<open>A block that another call leaves alone.\<close>

lemma read_kept:
  assumes "replaces al h h' (0, 0) (p, n)" "(b, s) \<in> live al h \<or> s = 0"
  shows "read_bytes h' b s = read_bytes h b s"
proof (cases "s = 0")
  case False
  then show ?thesis using assms(2) replacesD(3) [OF assms(1), of b s] by (simp add: read_same)
qed (simp add: read_bytes_def)

lemma passed_facts:
  assumes "passed al g p bs g'"
  shows "p \<noteq> 0" "WASM_VECTOR_LEN g' = length bs" "read_bytes (memory g') p (length bs) = bs"
    "replaces al (memory g) (memory g') (0, 0) (p, length bs)"
    "(p, length bs) \<in> live al (memory g') \<or> length bs = 0"
proof -
  show r: "replaces al (memory g) (memory g') (0, 0) (p, length bs)" and "p \<noteq> 0" "WASM_VECTOR_LEN g' = length bs"
    using assms by (simp_all add: passed_def grown_def)
  show "read_bytes (memory g') p (length bs) = bs" using assms by (simp add: passed_def read_holds)
  show "(p, length bs) \<in> live al (memory g') \<or> length bs = 0" using new_block(3) [OF r] by (auto simp: extent_def split: if_splits)
qed

text \<open>Both arguments, as the core finds them.\<close>

lemma arguments_arrive:
  assumes "allocator_ok al" "well_formed phrase" "case passphrase of None \<Rightarrow> True | Some s \<Rightarrow> well_formed s"
    and "fromMnemonic_args al phrase passphrase g = Some ((p, n, p', n'), g')"
  shows "p \<noteq> 0 \<and> utf8_decode (read_bytes (memory g') p n) = Some phrase \<and>
    (if p' = 0 then None else Some (utf8_decode (read_bytes (memory g') p' n'))) = map_option Some passphrase \<and>
    (\<forall>(b, s) \<in> live al (memory g). same_block (memory g) (memory g') b s)"
proof -
  obtain g1 where g1: "passStringToWasm0 al True phrase g = Some (p, g1)" "n = WASM_VECTOR_LEN g1" "passOptional al passphrase g1 = Some (p', g')"
      "n' = WASM_VECTOR_LEN g'"
    using assms(4) by (auto simp: fromMnemonic_args_def Let_def bind_eq_Some_conv)
  note f = passed_facts [OF passString_passed [OF assms(1) well_formed_units [OF assms(2)] g1(1)]]
  show ?thesis
  proof (cases passphrase)
    case None
    then have "p' = 0" "g' = g1" using g1(3) by (simp_all add: passOptional_def)
    then show ?thesis using None f g1(2) utf8_round_trip [OF assms(2)] replacesD(3) [OF f(4)] by auto
  next
    case (Some w)
    then have w: "well_formed w" "passStringToWasm0 al True w g1 = Some (p', g')" using assms(3) g1(3) by (simp_all add: passOptional_def)
    note f' = passed_facts [OF passString_passed [OF assms(1) well_formed_units [OF w(1)] w(2)]]
    have "read_bytes (memory g') p n = utf8_units phrase" using read_kept [OF f'(4) f(5)] f(2,3) g1(2) by simp
    moreover have "same_block (memory g) (memory g') b s" if "(b, s) \<in> live al (memory g)" for b s
      using that replacesD(3) [OF f(4), of b s] replacesD(3) [OF f'(4), of b s] new_block(1) [OF f(4)]
      by (simp add: same_block_def)
    ultimately show ?thesis using Some f f' g1(4) utf8_round_trip [OF assms(2)] utf8_round_trip [OF w(1)] by auto
  qed
qed

text \<open>
  The phrase and the passphrase that the core reads are the ones that were given: the two blocks hold their
  encodings, the second does not disturb the first, the null pointer means that there is no
  passphrase, and everything that was in the memory before is still there.
\<close>

theorem mnemonic_arguments_arrive:
  assumes "allocator_ok al" "well_formed phrase" "case passphrase of None \<Rightarrow> True | Some s \<Rightarrow> well_formed s"
    and "fromMnemonic_args al phrase passphrase g = Some ((p, n, p', n'), g')"
  shows "p \<noteq> 0 \<and> utf8_decode (read_bytes (memory g') p n) = Some phrase \<and>
    (if p' = 0 then None else Some (utf8_decode (read_bytes (memory g') p' n'))) = map_option Some passphrase \<and>
    (\<forall>(b, s) \<in> live al (memory g). same_block (memory g) (memory g') b s)"
  by (rule arguments_arrive [OF assms])

text \<open>The message hash and the signature arrive as they are.\<close>

lemma signature_arguments_arrive:
  assumes "allocator_ok al" "well_formed signature" "verifySignature_args al hash signature g = Some ((p, n, p', n'), g')"
  shows "read_bytes (memory g') p n = hash \<and> utf8_decode (read_bytes (memory g') p' n') = Some signature"
proof -
  obtain g1 where g1: "passArray8ToWasm0 al hash g = Some (p, g1)" "n = WASM_VECTOR_LEN g1"
      "passStringToWasm0 al True signature g1 = Some (p', g')" "n' = WASM_VECTOR_LEN g'"
    using assms(3) by (auto simp: verifySignature_args_def Let_def bind_eq_Some_conv)
  note f = passed_facts [OF passArray8_passed [OF assms(1) g1(1)]]
  note f' = passed_facts [OF passString_passed [OF assms(1) well_formed_units [OF assms(2)] g1(3)]]
  show ?thesis using read_kept [OF f'(4) f(5)] f(2,3) f'(2,3) g1(2,4) utf8_round_trip [OF assms(2)] by simp
qed

lemma fromMnemonic_args_returns:
  assumes "allocator_ok al" "well_formed phrase" "case passphrase of None \<Rightarrow> True | Some s \<Rightarrow> well_formed s"
    and "3 * length phrase \<le> N" "case passphrase of None \<Rightarrow> True | Some s \<Rightarrow> 3 * length s \<le> N" "ready al N 6 (memory g)"
  shows "\<exists>r. fromMnemonic_args al phrase passphrase g = Some r"
proof -
  have "ready al N (3 + 3) (memory g)" using assms(6) by simp
  from passString_returns [OF assms(1) well_formed_units [OF assms(2)] assms(4) this]
  obtain p g1 where g1: "passStringToWasm0 al True phrase g = Some (p, g1)" "ready al N (0 + 3) (memory g1)" by auto
  have "\<exists>r. passOptional al passphrase g1 = Some r"
  proof (cases passphrase)
    case (Some s)
    then have "well_formed s" "3 * length s \<le> N" using assms(3,5) by simp_all
    from passString_returns [OF assms(1) well_formed_units [OF this(1)] this(2) g1(2)] show ?thesis
      using Some by (auto simp: passOptional_def)
  qed (simp add: passOptional_def)
  then show ?thesis using g1(1) by (auto simp: fromMnemonic_args_def Let_def case_prod_unfold)
qed

text \<open>
  What is relied on of an export from text to text: it takes the block of its argument over and leaves
  a block with the encoding of its result, apart from the rest.
\<close>

definition text_export ::
  "'a allocator \<Rightarrow> (units \<Rightarrow> units) \<Rightarrow> (nat \<Rightarrow> nat \<Rightarrow> 'a linear \<Rightarrow> ((int \<times> nat) \<times> 'a linear) option) \<Rightarrow> bool" where
  "text_export al f export = (\<forall>p n h q m h' us. extent p n \<subseteq> live al h \<longrightarrow> well_formed us \<longrightarrow> read_bytes h p n = utf8_units us \<longrightarrow>
     export p n h = Some ((q, m), h') \<longrightarrow>
     read_bytes h' (to_uint32 q) m = utf8_units (f us) \<and> replaces al h h' (p, n) (to_uint32 q, m))"

lemma getString_facts:
  assumes "getStringFromWasm0 q m g = (r, g')" "m = 0 \<or> to_uint32 q + m \<le> byteLength (memory g)"
  shows "r = utf8_decode (read_bytes (memory g) (to_uint32 q) m)" "memory g' = memory g"
proof -
  obtain v g2 where v: "getUint8ArrayMemory0 (g\<lparr>numBytesDecoded := (if numBytesDecoded g + m \<ge> MAX_SAFARI_DECODE_BYTES then m else numBytesDecoded g + m)\<rparr>) = (v, g2)"
    by fastforce
  have "v = buffer (memory g)" "memory g2 = memory g" using view_current [OF v] by simp_all
  with v show "r = utf8_decode (read_bytes (memory g) (to_uint32 q) m)" "memory g' = memory g"
    using assms(1) view_bytes_inside [OF assms(2)] by (auto simp: getStringFromWasm0_def decodeText_def Let_def)
qed

lemma hash_call_answer:
  assumes "allocator_ok al" "text_export al f export" "well_formed message" "well_formed (f message)"
    and "passStringToWasm0 al True message g = Some (p, g1)" "export p (length (utf8_units message)) (memory g1) = Some ((q, m), h)"
  shows "\<exists>g'. glue_hashMessage al export message g = Some (Some (f message), g') \<and> live al (memory g') = live al (memory g) \<and>
    (\<forall>(b, s) \<in> live al (memory g). same_block (memory g) (memory g') b s)"
proof -
  note f = passed_facts [OF passString_passed [OF assms(1) well_formed_units [OF assms(3)] assms(5)]]
  note arg = new_block(3) [OF f(4)]
  have e: "read_bytes h (to_uint32 q) m = utf8_units (f message)"
      "replaces al (memory g1) h (p, length (utf8_units message)) (to_uint32 q, m)"
    using assms(2) arg assms(3) f(3) assms(6) unfolding text_export_def by blast+
  obtain r g2 where c: "getStringFromWasm0 q m (g1\<lparr>memory := h\<rparr>) = (r, g2)" by fastforce
  note t = replaces_trans [OF f(4) e(2)]
  have d: "replaces al h (dealloc al (to_uint32 q) m h) (to_uint32 q, m) (0, 0)"
    using assms(1) new_block(3) [OF t] unfolding allocator_ok_def by blast
  note u = replaces_trans [OF t d]
  have r: "memory g2 = h" "r = Some (f message)"
    using getString_facts [OF c] live_inside [OF assms(1) new_block(3) [OF t]] e(1) utf8_round_trip [OF assms(4)] by simp_all
  have "glue_hashMessage al export message g = Some (Some (f message), g2\<lparr>memory := dealloc al (to_uint32 q) m h\<rparr>)"
    using assms(5,6) c r f(2) by (simp add: glue_hashMessage_def string_call_def Let_def)
  then show ?thesis using new_block(1) [OF u] replacesD(3) [OF u] by auto
qed

text \<open>
  C8: given memory for three blocks, a call from text to text hands the message over intact and, unless the export itself traps on
  it, gives back what the export computed, for every text without lone surrogates; the blocks that it
  took are freed, and what was in the memory before is there as it was.
\<close>

theorem hash_call_round_trip:
  assumes "allocator_ok al" "text_export al f export" "well_formed message" "well_formed (f message)"
    and "3 * length message \<le> N" "ready al N 3 (memory g)"
  shows "\<exists>p g1. passed al g p (utf8_units message) g1 \<and>
    (case export p (length (utf8_units message)) (memory g1) of
       None \<Rightarrow> glue_hashMessage al export message g = None
     | Some _ \<Rightarrow> \<exists>g'. glue_hashMessage al export message g = Some (Some (f message), g') \<and> live al (memory g') = live al (memory g) \<and>
         (\<forall>(b, s) \<in> live al (memory g). same_block (memory g) (memory g') b s))"
proof -
  obtain p g1 where c: "passStringToWasm0 al True message g = Some (p, g1)"
    using passString_returns [OF assms(1) well_formed_units [OF assms(3)] assms(5), of 0 g] assms(6) by auto
  note pass = passString_passed [OF assms(1) well_formed_units [OF assms(3)] c]
  show ?thesis
  proof (cases "export p (length (utf8_units message)) (memory g1)")
    case None
    then have "glue_hashMessage al export message g = None"
      using c passed_facts(2) [OF pass] by (simp add: glue_hashMessage_def string_call_def Let_def)
    then show ?thesis using pass None by (intro exI [of _ p] exI [of _ g1]) simp
  next
    case (Some x)
    then obtain q m h where "export p (length (utf8_units message)) (memory g1) = Some ((q, m), h)" by (cases x) auto
    from hash_call_answer [OF assms(1-4) c this] pass Some show ?thesis by (intro exI [of _ p] exI [of _ g1]) simp
  qed
qed

text \<open>No decoder is asked for more bytes than it can bear, as long as no single text is that long.\<close>

theorem decoder_bounded:
  assumes "numBytesDecoded g < MAX_SAFARI_DECODE_BYTES" "n < MAX_SAFARI_DECODE_BYTES" "decodeText p n g = (r, g')"
  shows "n \<le> numBytesDecoded g' \<and> numBytesDecoded g' < MAX_SAFARI_DECODE_BYTES"
proof -
  have "numBytesDecoded (snd (getUint8ArrayMemory0 k)) = numBytesDecoded k" for k :: "'a glue"
    by (auto simp: getUint8ArrayMemory0_def split: option.splits)
  then show ?thesis using assms by (auto simp: decodeText_def Let_def case_prod_unfold)
qed

section \<open>An allocator for examples\<close>

type_synonym demo_blocks = "(nat \<times> nat) list"

definition demo_top :: "demo_blocks \<Rightarrow> nat" where
  "demo_top bs = foldr (\<lambda>(b, s). max (b + s)) bs 1"

definition demo_place :: "nat \<Rightarrow> nat \<Rightarrow> nat \<Rightarrow> demo_blocks linear \<Rightarrow> (int \<times> demo_blocks linear) option" where
  "demo_place p m n h = (let q = demo_top (alloc_state h);
       bs = filter (\<lambda>(b, s). (b, s) \<noteq> (p, m) \<and> b + s \<le> byteLength h) (alloc_state h) in
     if q < 2 ^ 32 then Some (int q, h\<lparr>alloc_state := (if n = 0 then bs else (q, n) # bs),
       cells := (\<lambda>a. if q \<le> a \<and> a < q + min m n then cells h (p + (a - q)) else cells h a), buffer := Suc (buffer h),
       byteLength := max (byteLength h) (q + n)\<rparr>)
     else None)"

definition demo_allocator :: "demo_blocks allocator" where
  "demo_allocator = \<lparr>malloc = demo_place 0 0, realloc = demo_place,
     dealloc = (\<lambda>p n h. h\<lparr>alloc_state := filter (\<lambda>x. x \<noteq> (p, n)) (alloc_state h)\<rparr>),
     live = (\<lambda>h. {(b, s) \<in> set (alloc_state h). s \<noteq> 0 \<and> b + s \<le> byteLength h})\<rparr>"

lemma demo_top_above: "(b, s) \<in> set bs \<Longrightarrow> b + s \<le> demo_top bs" "0 < demo_top bs"
  by (induction bs) (auto simp: demo_top_def max_def)

lemma demo_place_ok:
  assumes "demo_place p m n h = Some (q, h')"
  shows "to_uint32 q \<noteq> 0 \<and> replaces demo_allocator h h' (p, m) (to_uint32 q, n) \<and>
    (\<forall>i < min m n. cells h' (to_uint32 q + i) = cells h (p + i))"
proof -
  let ?t = "demo_top (alloc_state h)"
  have q: "to_uint32 q = ?t" using assms by (auto simp: demo_place_def to_uint32_def Let_def split: if_splits)
  have "same_block h h' b s" if "(b, s) \<in> set (alloc_state h)" for b s
    using assms demo_top_above(1) [OF that] by (auto simp: demo_place_def same_block_def Let_def split: if_splits)
  moreover have "apart b s ?t n" if "(b, s) \<in> set (alloc_state h)" for b s
    using demo_top_above(1) [OF that] by (simp add: apart_def)
  moreover have "live demo_allocator h' = extent ?t n \<union> (live demo_allocator h - extent p m)"
    using assms by (auto simp: demo_place_def demo_allocator_def extent_def Let_def split: if_splits)
  ultimately have "replaces demo_allocator h h' (p, m) (?t, n)"
    by (intro replacesI) (auto simp: demo_allocator_def)
  then show ?thesis using assms q demo_top_above(2) [of "alloc_state h"] by (auto simp: demo_place_def Let_def split: if_splits)
qed

lemma demo_allocator_ok: "allocator_ok demo_allocator"
proof -
  have f: "malloc demo_allocator = demo_place 0 0" "realloc demo_allocator = demo_place" by (simp_all add: demo_allocator_def)
  have "replaces demo_allocator h (dealloc demo_allocator p n h) (p, n) (0, 0)" for p n h
    by (rule replacesI) (auto simp: demo_allocator_def extent_def apart_def same_block_def)
  moreover have "live demo_allocator (h\<lparr>cells := x\<rparr>) = live demo_allocator h" for h x by (simp add: demo_allocator_def)
  moreover have "\<forall>(b, s) \<in> live demo_allocator h. b + s \<le> byteLength h" for h by (auto simp: demo_allocator_def)
  ultimately show ?thesis unfolding allocator_ok_def f using demo_place_ok by blast
qed

definition demo_glue :: "demo_blocks glue" where
  "demo_glue = \<lparr>memory = \<lparr>cells = (\<lambda>a. 7), byteLength = 65536, buffer = 0, alloc_state = [(100, 20)]\<rparr>, cachedUint8ArrayMemory0 = None,
     WASM_VECTOR_LEN = 0, numBytesDecoded = 0\<rparr>"

definition demo_export :: "nat \<Rightarrow> nat \<Rightarrow> demo_blocks linear \<Rightarrow> ((int \<times> nat) \<times> demo_blocks linear) option" where
  "demo_export p n h = map_option (\<lambda>(q, h'). ((q, n), h')) (demo_place p n n h)"

lemma demo_export_ok: "text_export demo_allocator (\<lambda>us. us) demo_export"
proof -
  have "read_bytes h' (to_uint32 q) m = read_bytes h p n \<and> replaces demo_allocator h h' (p, n) (to_uint32 q, m)"
    if "demo_export p n h = Some ((q, m), h')" for p n h q m h'
    using that demo_place_ok [of p n n h q h'] by (auto simp: demo_export_def read_bytes_def)
  then show ?thesis unfolding text_export_def by fastforce
qed

lemma demo_place_top:
  assumes "demo_top (alloc_state h) < 2 ^ 32"
  shows "\<exists>q h'. demo_place p m n h = Some (q, h') \<and> demo_top (alloc_state h') \<le> demo_top (alloc_state h) + n"
proof -
  have "demo_top (filter P bs) \<le> demo_top bs" for P bs by (induction bs) (auto simp: demo_top_def)
  moreover have "demo_top ((q, n) # bs) = max (q + n) (demo_top bs)" for q n bs by (simp add: demo_top_def)
  ultimately show ?thesis using assms by (auto simp: demo_place_def Let_def intro: le_trans [OF _ le_add1])
qed

lemma demo_ready: "demo_top (alloc_state h) + k * N < 2 ^ 32 \<Longrightarrow> ready demo_allocator N k h"
proof (induction k arbitrary: h)
  case (Suc k)
  have "case demo_place p m n (h\<lparr>cells := f\<rparr>) of None \<Rightarrow> False | Some (q, h') \<Rightarrow> ready demo_allocator N k h'" if "n \<le> N" for p m n f
  proof -
    obtain q h' where h': "demo_place p m n (h\<lparr>cells := f\<rparr>) = Some (q, h')" "demo_top (alloc_state h') \<le> demo_top (alloc_state h) + n"
      using demo_place_top [of "h\<lparr>cells := f\<rparr>" p m n] Suc.prems by auto
    then have "demo_top (alloc_state h') + k * N < 2 ^ 32" using that Suc.prems by simp
    then show ?thesis using h'(1) Suc.IH by simp
  qed
  moreover have f: "malloc demo_allocator = demo_place 0 0" "realloc demo_allocator = demo_place" by (simp_all add: demo_allocator_def)
  ultimately show ?case unfolding ready.simps f by blast
qed (simp add: ready.simps)

lemma demo_room: "k \<le> 1000 \<Longrightarrow> ready demo_allocator 12 k (memory demo_glue)"
  by (rule demo_ready) (simp add: demo_glue_def demo_top_def)

lemma demo_texts:
  "well_formed [97, 233, 55357, 56832]" "case Some [8364, 98] of None \<Rightarrow> True | Some s \<Rightarrow> well_formed s"
  "well_formed [104, 105, 55357, 56832]"
  by (simp_all add: high_surrogate_def low_surrogate_def)

lemma demo_args_returned: "\<not> Option.is_none (fromMnemonic_args demo_allocator [97, 233, 55357, 56832] (Some [8364, 98]) demo_glue)"
  using fromMnemonic_args_returns [OF demo_allocator_ok demo_texts(1,2), of 12 demo_glue] demo_room [of 6]
  by (auto simp: Option.is_none_def)

lemma demo_export_returns: "ready demo_allocator N (Suc k) h \<Longrightarrow> demo_export p n h \<noteq> None"
proof -
  assume "ready demo_allocator N (Suc k) h"
  then have "case malloc demo_allocator 0 (h\<lparr>cells := cells h\<rparr>) of None \<Rightarrow> False | Some (q, h') \<Rightarrow> ready demo_allocator N k h'"
    unfolding ready.simps by blast
  then have "malloc demo_allocator 0 h \<noteq> None" by (auto split: option.splits)
  then show ?thesis by (auto simp: demo_allocator_def demo_export_def demo_place_def Let_def split: if_splits)
qed

lemma demo_hash_returned: "\<not> Option.is_none (glue_hashMessage demo_allocator demo_export [104, 105, 55357, 56832] demo_glue)"
proof -
  obtain p g1 where c: "passStringToWasm0 demo_allocator True [104, 105, 55357, 56832] demo_glue = Some (p, g1)"
      "ready demo_allocator 12 1 (memory g1)"
    using passString_returns [OF demo_allocator_ok well_formed_units [OF demo_texts(3)], of 12 1 demo_glue] demo_room [of 4] by auto
  have "demo_export p (WASM_VECTOR_LEN g1) (memory g1) \<noteq> None"
    by (rule demo_export_returns [of 12 0]) (use c(2) in simp)
  then obtain q m h where "demo_export p (WASM_VECTOR_LEN g1) (memory g1) = Some ((q, m), h)" by auto
  then show ?thesis using c(1) by (simp add: glue_hashMessage_def string_call_def Let_def case_prod_unfold Option.is_none_def)
qed

theorem mnemonic_arguments_arrive_witness:
  "\<exists>p n p' n' g'. fromMnemonic_args demo_allocator [97, 233, 55357, 56832] (Some [8364, 98]) demo_glue = Some ((p, n, p', n'), g') \<and>
     utf8_decode (read_bytes (memory g') p n) = Some [97, 233, 55357, 56832] \<and>
     p' \<noteq> 0 \<and> utf8_decode (read_bytes (memory g') p' n') = Some [8364, 98]"
proof -
  obtain p n p' n' g' where r:
    "fromMnemonic_args demo_allocator [97, 233, 55357, 56832] (Some [8364, 98]) demo_glue = Some ((p, n, p', n'), g')"
    using demo_args_returned by (auto simp: Option.is_none_def)
  have w: "well_formed [97, 233, 55357, 56832]" "case Some [8364, 98] of None \<Rightarrow> True | Some s \<Rightarrow> well_formed s"
    by (simp_all add: high_surrogate_def low_surrogate_def)
  from mnemonic_arguments_arrive [OF demo_allocator_ok w r] r show ?thesis by (auto split: if_splits)
qed

theorem hash_call_round_trip_witness:
  "\<exists>g'. glue_hashMessage demo_allocator demo_export [104, 105, 55357, 56832] demo_glue = Some (Some [104, 105, 55357, 56832], g') \<and>
     live demo_allocator (memory g') = {(100, 20)}"
proof -
  have w: "well_formed [104, 105, 55357, 56832]" by (simp add: high_surrogate_def low_surrogate_def)
  have "ready demo_allocator 12 3 (memory demo_glue)" by (rule demo_ready) (simp add: demo_glue_def demo_top_def)
  moreover have "live demo_allocator (memory demo_glue) = {(100, 20)}" by (auto simp: demo_allocator_def demo_glue_def)
  ultimately show ?thesis
    using hash_call_round_trip [OF demo_allocator_ok demo_export_ok w w, of 12 demo_glue] demo_hash_returned
    by (auto simp: Option.is_none_def split: option.splits)
qed

theorem decoder_bounded_witness:
  "MAX_SAFARI_DECODE_BYTES = 2146435072 \<and> numBytesDecoded (snd (decodeText 100 20 (demo_glue\<lparr>numBytesDecoded := 2146435070\<rparr>))) < MAX_SAFARI_DECODE_BYTES"
  using decoder_bounded [of "demo_glue\<lparr>numBytesDecoded := 2146435070\<rparr>" 20 100, OF _ _ prod.collapse [symmetric]]
  by (simp add: MAX_SAFARI_DECODE_BYTES_def)

end
