(* ===== verification/Wasm_Imports.thy ===== *)
theory Wasm_Imports
  imports Wasm_Glue
begin

text \<open>
  What \<open>Wallet/pkg/retardio_wallet.js\<close> gives to the WebAssembly side: the table through which
  JavaScript values are named by numbers there, and the functions of the import object
  (\<open>__wbg_get_imports\<close>), by which the core finds a source of randomness. The slab that hands out places in the table,
  and the calls of functions of the host, are parameters.
\<close>

section \<open>Values\<close>

text \<open>
  Byte arrays are views, with a start and a length: of a buffer of JavaScript's own, or of the buffer that the memory of
  the instance had at the time, which is empty once the memory has moved.
\<close>

datatype js_value = VUndefined | VNull | VBool bool | VNumber int | VText units | VFunction nat | VObject nat
  | VBytes nat nat nat | VMemory nat nat nat | VError string string

fun typeof :: "js_value \<Rightarrow> string" where
  "typeof VUndefined = ''undefined''"
| "typeof (VBool _) = ''boolean''"
| "typeof (VNumber _) = ''number''"
| "typeof (VText _) = ''string''"
| "typeof (VFunction _) = ''function''"
| "typeof _ = ''object''"

record 'x table =
  slots :: "js_value list"
  slab :: 'x

text \<open>
  The members of objects, the buffers of byte arrays, the names that are declared, and how many times the source of
  randomness has been asked.
\<close>

record realm =
  members :: "nat \<Rightarrow> string \<Rightarrow> js_value"
  buffers :: "nat \<Rightarrow> byte list"
  next_buffer :: nat
  declared :: "string \<Rightarrow> js_value option"
  drawn :: nat

record ('a, 'x) border =
  copying :: "'a glue"
  externrefs :: "'x table"
  realm_of :: realm
  exn_data :: "nat option"

text \<open>A function of JavaScript that WebAssembly calls returns, throws a value, or traps.\<close>

datatype 'r reply = Returns 'r | Throws js_value | Traps

type_synonym ('a, 'x, 'r) import = "('a, 'x) border \<Rightarrow> 'r reply \<times> ('a, 'x) border"

text \<open>
  The slab and the growth of the table, which may be refused, the calls of the host's functions.
\<close>

record ('a, 'x) outside =
  table_alloc :: "'x table \<Rightarrow> (nat \<times> 'x table) option"
  table_dealloc :: "nat \<Rightarrow> 'x table \<Rightarrow> 'x table"
  table_used :: "'x table \<Rightarrow> nat set"
  can_grow :: "nat \<Rightarrow> 'x table \<Rightarrow> bool"
  apply_function :: "js_value \<Rightarrow> js_value \<Rightarrow> js_value list \<Rightarrow> ('a, 'x, js_value) import"
  invoke_member :: "js_value \<Rightarrow> string \<Rightarrow> js_value list \<Rightarrow> ('a, 'x, js_value) import"
  new_Function :: "units \<Rightarrow> ('a, 'x, js_value) import"

section \<open>The table\<close>

text \<open>The methods \<open>get\<close> and \<open>set\<close> of the table throw for a place that it does not have.\<close>

abbreviation range_error :: js_value where
  "range_error \<equiv> VError ''RangeError'' ''WebAssembly.Table: invalid address''"

definition addToExternrefTable0 :: "('a, 'x) outside \<Rightarrow> js_value \<Rightarrow> ('a, 'x, nat) import" where
  "addToExternrefTable0 X obj b =
     (case table_alloc X (externrefs b) of
        None \<Rightarrow> (Traps, b)
      | Some (idx, t) \<Rightarrow>
          if idx < length (slots t) then (Returns idx, b\<lparr>externrefs := t\<lparr>slots := (slots t)[idx := obj]\<rparr>\<rparr>)
          else (Throws range_error, b\<lparr>externrefs := t\<rparr>))"

definition takeFromExternrefTable0 :: "('a, 'x) outside \<Rightarrow> nat \<Rightarrow> ('a, 'x, js_value) import" where
  "takeFromExternrefTable0 X idx b =
     (if idx < length (slots (externrefs b))
      then (Returns (slots (externrefs b) ! idx), b\<lparr>externrefs := table_dealloc X idx (externrefs b)\<rparr>)
      else (Throws range_error, b))"

text \<open>
  \<open>handleError\<close>: an exception is put into the table, and its number is left for the core. A trap of the instance that the
  function has called into is an exception of JavaScript too.
\<close>

definition caught :: "js_value reply \<Rightarrow> js_value option" where
  "caught r = (case r of Returns _ \<Rightarrow> None | Throws e \<Rightarrow> Some e | Traps \<Rightarrow> Some (VError ''RuntimeError'' ''unreachable''))"

definition handleError :: "('a, 'x) outside \<Rightarrow> ('a, 'x, js_value) import \<Rightarrow> ('a, 'x, js_value) import" where
  "handleError X f b =
     (case f b of (r, b1) \<Rightarrow> (case caught r of
        None \<Rightarrow> (r, b1)
      | Some e \<Rightarrow> (case addToExternrefTable0 X e b1 of
           (Returns idx, b2) \<Rightarrow> (Returns VUndefined, b2\<lparr>exn_data := Some idx\<rparr>)
         | (Throws e', b2) \<Rightarrow> (Throws e', b2)
         | (Traps, b2) \<Rightarrow> (Traps, b2))))"

text \<open>\<open>table.grow\<close> throws when the table cannot grow; the four assignments are then not reached.\<close>

definition init_externref_table :: "('a, 'x) outside \<Rightarrow> ('a, 'x, js_value) import" where
  "init_externref_table X b =
     (let t = externrefs b;
          offset = length (slots t);
          grown_slots = slots t @ replicate 4 VUndefined
      in if \<not> can_grow X 4 t then (Throws (VError ''RangeError'' ''WebAssembly.Table.grow(): failed to grow table by 4''), b)
      else (Returns VUndefined,
        b\<lparr>externrefs := t\<lparr>slots := grown_slots[0 := VUndefined, offset + 0 := VUndefined, offset + 1 := VNull,
            offset + 2 := VBool True, offset + 3 := VBool False]\<rparr>\<rparr>))"

section \<open>The import object\<close>

definition is_function :: "js_value \<Rightarrow> bool" where "is_function v = (typeof v = ''function'')"
definition is_object :: "js_value \<Rightarrow> bool" where "is_object v = (typeof v = ''object'' \<and> v \<noteq> VNull)"
definition is_string :: "js_value \<Rightarrow> bool" where "is_string v = (typeof v = ''string'')"
definition is_undefined :: "js_value \<Rightarrow> bool" where "is_undefined v = (v = VUndefined)"

text \<open>\<open>v.k\<close> for the members that the imports read.\<close>

definition read_member :: "string \<Rightarrow> js_value \<Rightarrow> ('a, 'x, js_value) import" where
  "read_member k v b =
     ((case v of
         VUndefined \<Rightarrow> Throws (VError ''TypeError'' (''Cannot read properties of undefined (reading '' @ [CHR 0x27] @ k @ [CHR 0x27] @ '')''))
       | VNull \<Rightarrow> Throws (VError ''TypeError'' (''Cannot read properties of null (reading '' @ [CHR 0x27] @ k @ [CHR 0x27] @ '')''))
       | VObject i \<Rightarrow> Returns (members (realm_of b) i k)
       | VText us \<Rightarrow> Returns (if k = ''length'' then VNumber (int (length us)) else VUndefined)
       | VBytes i start n \<Rightarrow> Returns (if k = ''length'' then VNumber (int n) else VUndefined)
       | VMemory m p n \<Rightarrow> Returns (if k = ''length'' then VNumber (if m = buffer (memory (copying b)) then int n else 0) else VUndefined)
       | _ \<Rightarrow> Returns VUndefined), b)"

definition import_crypto :: "js_value \<Rightarrow> ('a, 'x, js_value) import" where "import_crypto = read_member ''crypto''"
definition import_length :: "js_value \<Rightarrow> ('a, 'x, js_value) import" where "import_length = read_member ''length''"
definition import_msCrypto :: "js_value \<Rightarrow> ('a, 'x, js_value) import" where "import_msCrypto = read_member ''msCrypto''"
definition import_node :: "js_value \<Rightarrow> ('a, 'x, js_value) import" where "import_node = read_member ''node''"
definition import_process :: "js_value \<Rightarrow> ('a, 'x, js_value) import" where "import_process = read_member ''process''"
definition import_versions :: "js_value \<Rightarrow> ('a, 'x, js_value) import" where "import_versions = read_member ''versions''"

text \<open>The two casts, which read the memory of the instance; a string that is not UTF-8 is a \<open>TypeError\<close>.\<close>

definition cast_string :: "int \<Rightarrow> nat \<Rightarrow> ('a, 'x, js_value) import" where
  "cast_string arg0 arg1 b =
     (case getStringFromWasm0 arg0 arg1 (copying b) of
        (Some us, g) \<Rightarrow> (Returns (VText us), b\<lparr>copying := g\<rparr>)
      | (None, g) \<Rightarrow> (Throws (VError ''TypeError'' ''The encoded data was not valid.''), b\<lparr>copying := g\<rparr>))"

definition cast_bytes :: "int \<Rightarrow> nat \<Rightarrow> ('a, 'x, js_value) import" where
  "cast_bytes arg0 arg1 b =
     (case getUint8ArrayMemory0 (copying b) of (view, g) \<Rightarrow>
        (Returns (VMemory view (min (to_uint32 arg0) (view_length view (memory g))) (clamped view (to_uint32 arg0) arg1 (memory g))),
         b\<lparr>copying := g\<rparr>))"

definition units_string :: "units \<Rightarrow> string" where
  "units_string us = map char_of us"

definition import_throw :: "int \<Rightarrow> nat \<Rightarrow> ('a, 'x, js_value) import" where
  "import_throw arg0 arg1 b =
     (case cast_string arg0 arg1 b of
        (Returns (VText us), b1) \<Rightarrow> (Throws (VError ''Error'' (units_string us)), b1)
      | r \<Rightarrow> r)"

definition import_new_no_args :: "('a, 'x) outside \<Rightarrow> int \<Rightarrow> nat \<Rightarrow> ('a, 'x, js_value) import" where
  "import_new_no_args X arg0 arg1 b =
     (case cast_string arg0 arg1 b of
        (Returns (VText us), b1) \<Rightarrow> new_Function X us b1
      | r \<Rightarrow> r)"

definition import_call_2 :: "('a, 'x) outside \<Rightarrow> js_value \<Rightarrow> js_value \<Rightarrow> js_value \<Rightarrow> ('a, 'x, js_value) import" where
  "import_call_2 X arg0 arg1 arg2 = handleError X (apply_function X arg0 arg1 [arg2])"

definition import_call_1 :: "('a, 'x) outside \<Rightarrow> js_value \<Rightarrow> js_value \<Rightarrow> ('a, 'x, js_value) import" where
  "import_call_1 X arg0 arg1 = handleError X (apply_function X arg0 arg1 [])"

definition discard :: "('a, 'x, js_value) import \<Rightarrow> ('a, 'x, js_value) import" where
  "discard f b = (case f b of (Returns _, b1) \<Rightarrow> (Returns VUndefined, b1) | r \<Rightarrow> r)"

definition import_getRandomValues :: "('a, 'x) outside \<Rightarrow> js_value \<Rightarrow> js_value \<Rightarrow> ('a, 'x, js_value) import" where
  "import_getRandomValues X arg0 arg1 = handleError X (discard (invoke_member X arg0 ''getRandomValues'' [arg1]))"

definition import_randomFillSync :: "('a, 'x) outside \<Rightarrow> js_value \<Rightarrow> js_value \<Rightarrow> ('a, 'x, js_value) import" where
  "import_randomFillSync X arg0 arg1 = handleError X (discard (invoke_member X arg0 ''randomFillSync'' [arg1]))"

text \<open>\<open>module.require\<close>: in an ES module no \<open>module\<close> is declared.\<close>

definition import_require :: "('a, 'x) outside \<Rightarrow> ('a, 'x, js_value) import" where
  "import_require X = handleError X (\<lambda>b. case declared (realm_of b) ''module'' of
     None \<Rightarrow> (Throws (VError ''ReferenceError'' ''module is not defined''), b)
   | Some v \<Rightarrow> read_member ''require'' v b)"

definition import_new_with_length :: "int \<Rightarrow> ('a, 'x, js_value) import" where
  "import_new_with_length arg0 b =
     (let r = realm_of b; n = to_uint32 arg0
      in (Returns (VBytes (next_buffer r) 0 n),
          b\<lparr>realm_of := r\<lparr>buffers := (buffers r)(next_buffer r := replicate n 0), next_buffer := Suc (next_buffer r)\<rparr>\<rparr>))"

definition import_subarray :: "js_value \<Rightarrow> int \<Rightarrow> int \<Rightarrow> ('a, 'x, js_value) import" where
  "import_subarray arg0 arg1 arg2 b =
     (let s = to_uint32 arg1; e = to_uint32 arg2 in
      case arg0 of
        VBytes i start n \<Rightarrow> (Returns (VBytes i (start + min s n) (min e n - min s n)), b)
      | VMemory m p n \<Rightarrow> (let k = (if m = buffer (memory (copying b)) then n else 0) in
          (Returns (VMemory m (p + min s k) (min e k - min s k)), b))
      | _ \<Rightarrow> (Throws (VError ''TypeError'' ''arg0.subarray is not a function''), b))"

definition array_bytes :: "js_value \<Rightarrow> ('a, 'x) border \<Rightarrow> byte list" where
  "array_bytes v b = (case v of
     VBytes i start n \<Rightarrow> take n (drop start (buffers (realm_of b) i))
   | VMemory m p n \<Rightarrow> if m = buffer (memory (copying b)) then read_bytes (memory (copying b)) p n else []
   | _ \<Rightarrow> [])"

text \<open>
  \<open>Uint8Array.prototype.set.call(getArrayU8FromWasm0(ptr, len), arg2)\<close>, which refuses a source longer than its target; the
  target is clamped at the end of the memory.
\<close>

definition import_prototypesetcall :: "int \<Rightarrow> nat \<Rightarrow> js_value \<Rightarrow> ('a, 'x, js_value) import" where
  "import_prototypesetcall arg0 arg1 arg2 b =
     (case getUint8ArrayMemory0 (copying b) of (view, g) \<Rightarrow>
        let b1 = b\<lparr>copying := g\<rparr>; bs = array_bytes arg2 b1 in
        if length bs > clamped view (to_uint32 arg0) arg1 (memory g) then (Throws (VError ''RangeError'' ''offset is out of bounds''), b1)
        else (Returns VUndefined, b1\<lparr>copying := write_bytes view (to_uint32 arg0) bs g\<rparr>))"

text \<open>The four accessors of the global object: 0 when the name is not declared or is \<open>null\<close> or \<open>undefined\<close>.\<close>

definition static_accessor :: "('a, 'x) outside \<Rightarrow> string \<Rightarrow> ('a, 'x, nat) import" where
  "static_accessor X name b =
     (case declared (realm_of b) name of
        None \<Rightarrow> (Returns 0, b)
      | Some v \<Rightarrow> if v = VUndefined \<or> v = VNull then (Returns 0, b) else addToExternrefTable0 X v b)"

definition accessor_GLOBAL :: "('a, 'x) outside \<Rightarrow> ('a, 'x, nat) import" where "accessor_GLOBAL X = static_accessor X ''global''"
definition accessor_GLOBAL_THIS :: "('a, 'x) outside \<Rightarrow> ('a, 'x, nat) import" where "accessor_GLOBAL_THIS X = static_accessor X ''globalThis''"
definition accessor_SELF :: "('a, 'x) outside \<Rightarrow> ('a, 'x, nat) import" where "accessor_SELF X = static_accessor X ''self''"
definition accessor_WINDOW :: "('a, 'x) outside \<Rightarrow> ('a, 'x, nat) import" where "accessor_WINDOW X = static_accessor X ''window''"

section \<open>A call with all its parts\<close>

text \<open>
  \<open>Wallet.fromMnemonic\<close>: the arguments go into the memory, the export returns the address of the wallet, or the number of
  an error in the table and a flag.
\<close>

definition border_fromMnemonic ::
  "'a allocator \<Rightarrow> ('a, 'x) outside \<Rightarrow> (nat \<Rightarrow> nat \<Rightarrow> nat \<Rightarrow> nat \<Rightarrow> ('a, 'x) border \<Rightarrow> ((int \<times> nat \<times> int) \<times> ('a, 'x) border) option) \<Rightarrow>
    units \<Rightarrow> units option \<Rightarrow> ('a, 'x, nat) import" where
  "border_fromMnemonic al X wallet_fromMnemonic phrase passphrase b =
     (case fromMnemonic_args al phrase passphrase (copying b) of
        None \<Rightarrow> (Traps, b)
      | Some ((ptr0, len0, ptr1, len1), g) \<Rightarrow>
          (case wallet_fromMnemonic ptr0 len0 ptr1 len1 (b\<lparr>copying := g\<rparr>) of
             None \<Rightarrow> (Traps, b\<lparr>copying := g\<rparr>)
           | Some ((ret0, ret1, ret2), b1) \<Rightarrow>
               if ret2 \<noteq> 0 then (case takeFromExternrefTable0 X ret1 b1 of
                   (Returns e, b2) \<Rightarrow> (Throws e, b2) | (Throws e, b2) \<Rightarrow> (Throws e, b2) | (Traps, b2) \<Rightarrow> (Traps, b2))
               else (Returns (to_uint32 ret0), b1)))"

section \<open>Values in the table\<close>

text \<open>
  What is relied on of the slab: a place that it gives out is in the table and was free, the places in use keep
  what they hold, also when the table grows, and only the place that is given back becomes free.
\<close>

definition outside_ok :: "('a, 'x) outside \<Rightarrow> bool" where
  "outside_ok X =
     ((\<forall>t i t'. table_alloc X t = Some (i, t') \<longrightarrow> i \<notin> table_used X t \<and> i < length (slots t') \<and>
        table_used X t' = insert i (table_used X t) \<and> length (slots t) \<le> length (slots t') \<and>
        (\<forall>j \<in> table_used X t. j < length (slots t) \<longrightarrow> slots t' ! j = slots t ! j)) \<and>
      (\<forall>t i. table_used X (table_dealloc X i t) = table_used X t - {i} \<and> length (slots (table_dealloc X i t)) = length (slots t) \<and>
        (\<forall>j \<in> table_used X t - {i}. j < length (slots t) \<longrightarrow> slots (table_dealloc X i t) ! j = slots t ! j)) \<and>
      (\<forall>t vs. table_used X (t\<lparr>slots := vs\<rparr>) = table_used X t))"

text \<open>The uses of the table that leave the places \<open>K\<close> alone.\<close>

inductive table_step :: "('a, 'x) outside \<Rightarrow> nat set \<Rightarrow> ('a, 'x) border \<Rightarrow> ('a, 'x) border \<Rightarrow> bool"
  for X :: "('a, 'x) outside" and K :: "nat set" where
  added: "addToExternrefTable0 X v b = (Returns i, b') \<Longrightarrow> table_step X K b b'"
| taken: "takeFromExternrefTable0 X i b = (Returns v, b') \<Longrightarrow> i \<notin> K \<Longrightarrow> table_step X K b b'"

inductive_cases table_stepE: "table_step X K b b'"

definition table_holds :: "('a, 'x) outside \<Rightarrow> nat set \<Rightarrow> (nat \<Rightarrow> js_value) \<Rightarrow> ('a, 'x) border \<Rightarrow> bool" where
  "table_holds X K f b = (\<forall>j \<in> K. j \<in> table_used X (externrefs b) \<and> j < length (slots (externrefs b)) \<and> slots (externrefs b) ! j = f j)"

lemma slots_do_not_matter: "outside_ok X \<Longrightarrow> table_used X (t\<lparr>slots := vs\<rparr>) = table_used X t"
  by (simp add: outside_ok_def)

lemma table_alloc_facts:
  assumes "outside_ok X" "table_alloc X t = Some (i, t')"
  shows "i \<notin> table_used X t" "i < length (slots t')" "table_used X t' = insert i (table_used X t)"
    "length (slots t) \<le> length (slots t')" "j \<in> table_used X t \<Longrightarrow> j < length (slots t) \<Longrightarrow> slots t' ! j = slots t ! j"
proof -
  have *: "i \<notin> table_used X t \<and> i < length (slots t') \<and> table_used X t' = insert i (table_used X t) \<and> length (slots t) \<le> length (slots t') \<and>
    (\<forall>j \<in> table_used X t. j < length (slots t) \<longrightarrow> slots t' ! j = slots t ! j)"
    using conjunct1 [OF assms(1) [unfolded outside_ok_def]] assms(2) by blast
  then show "i \<notin> table_used X t" "i < length (slots t')" "table_used X t' = insert i (table_used X t)"
    "length (slots t) \<le> length (slots t')" "j \<in> table_used X t \<Longrightarrow> j < length (slots t) \<Longrightarrow> slots t' ! j = slots t ! j" by simp_all
qed

lemma added_facts:
  assumes "outside_ok X" "addToExternrefTable0 X v b = (Returns i, b')"
  shows "i \<notin> table_used X (externrefs b)" "table_used X (externrefs b') = insert i (table_used X (externrefs b))"
    "i < length (slots (externrefs b'))" "slots (externrefs b') ! i = v" "length (slots (externrefs b)) \<le> length (slots (externrefs b'))"
    "\<And>j. j \<in> table_used X (externrefs b) \<Longrightarrow> j < length (slots (externrefs b)) \<Longrightarrow> slots (externrefs b') ! j = slots (externrefs b) ! j"
proof -
  obtain t where t: "table_alloc X (externrefs b) = Some (i, t)" "externrefs b' = t\<lparr>slots := (slots t)[i := v]\<rparr>"
    using assms(2) by (auto simp: addToExternrefTable0_def split: option.splits if_splits)
  note laws = table_alloc_facts [OF assms(1) t(1)]
  show "i \<notin> table_used X (externrefs b)" "table_used X (externrefs b') = insert i (table_used X (externrefs b))"
    "i < length (slots (externrefs b'))" "slots (externrefs b') ! i = v" "length (slots (externrefs b)) \<le> length (slots (externrefs b'))"
    using laws(1-4) by (simp_all add: t(2) slots_do_not_matter [OF assms(1)])
  show "slots (externrefs b') ! j = slots (externrefs b) ! j" if "j \<in> table_used X (externrefs b)" "j < length (slots (externrefs b))" for j
    using laws(1) laws(5) [OF that] that(1) by (cases "j = i") (simp_all add: t(2))
qed

lemma taken_facts:
  assumes "outside_ok X" "takeFromExternrefTable0 X i b = (Returns v, b')"
  shows "table_used X (externrefs b') = table_used X (externrefs b) - {i}" "length (slots (externrefs b')) = length (slots (externrefs b))"
    "\<And>j. j \<in> table_used X (externrefs b) \<Longrightarrow> j \<noteq> i \<Longrightarrow> j < length (slots (externrefs b)) \<Longrightarrow> slots (externrefs b') ! j = slots (externrefs b) ! j"
    "v = slots (externrefs b) ! i"
proof -
  have b': "externrefs b' = table_dealloc X i (externrefs b)" using assms(2) by (auto simp: takeFromExternrefTable0_def split: if_splits)
  show "table_used X (externrefs b') = table_used X (externrefs b) - {i}" "length (slots (externrefs b')) = length (slots (externrefs b))"
    "\<And>j. j \<in> table_used X (externrefs b) \<Longrightarrow> j \<noteq> i \<Longrightarrow> j < length (slots (externrefs b)) \<Longrightarrow> slots (externrefs b') ! j = slots (externrefs b) ! j"
    using assms(1) unfolding outside_ok_def b' by blast+
  show "v = slots (externrefs b) ! i" using assms(2) by (auto simp: takeFromExternrefTable0_def split: if_splits)
qed

lemma table_step_holds:
  assumes "outside_ok X" "table_step X K b b'" "table_holds X K f b"
  shows "table_holds X K f b'"
  using assms(2)
proof cases
  case (added v i)
  note a = added_facts [OF assms(1) added]
  show ?thesis using assms(3) a(2,5,6) by (fastforce simp: table_holds_def)
next
  case (taken i v)
  note t = taken_facts [OF assms(1) taken(1)]
  show ?thesis using assms(3) t(1-3) taken(2) by (force simp: table_holds_def)
qed

interpretation table_run: transition_system "table_holds X K f" "table_step X K" "\<lambda>b. outside_ok X \<longrightarrow> table_holds X K f b"
  by unfold_locales (use table_step_holds in blast)+

text \<open>
  A value that was put into the table is what its number stands for, whatever else is put in and taken out, until
  it is taken; and taking it gives the value back and frees nothing else.
\<close>

theorem value_stays_until_taken:
  assumes "outside_ok X" "addToExternrefTable0 X v b = (Returns i, b1)" "(table_step X {i})\<^sup>*\<^sup>* b1 b2"
  shows "i \<notin> table_used X (externrefs b) \<and> (\<exists>b3. takeFromExternrefTable0 X i b2 = (Returns v, b3) \<and>
    table_used X (externrefs b3) = table_used X (externrefs b2) - {i})"
proof -
  note a = added_facts [OF assms(1,2)]
  have "table_holds X {i} (\<lambda>_. v) b1" using a by (simp add: table_holds_def)
  from table_run.reached_inv [OF this assms(3)] assms(1) have "table_holds X {i} (\<lambda>_. v) b2" by blast
  then obtain b3 where t: "takeFromExternrefTable0 X i b2 = (Returns v, b3)"
    by (auto simp: table_holds_def takeFromExternrefTable0_def)
  from t taken_facts(1) [OF assms(1) t] a(1) show ?thesis by blast
qed

text \<open>
  Once the table has grown, the numbers of the four constants stand for them from the start of the instance on, given
  that the slab counts their places as used.
\<close>

theorem constants_stay:
  fixes b :: "('a, 'x) border"
  assumes "outside_ok X" "slots (externrefs b) \<noteq> []" "n = length (slots (externrefs b))"
    and "{0, n, n + 1, n + 2, n + 3} \<subseteq> table_used X (externrefs b)"
    and "init_externref_table X b = (Returns r, b1)" "(table_step X {0, n, n + 1, n + 2, n + 3})\<^sup>*\<^sup>* b1 b'"
  shows "slots (externrefs b') ! 0 = VUndefined \<and> slots (externrefs b') ! n = VUndefined \<and> slots (externrefs b') ! (n + 1) = VNull \<and>
    slots (externrefs b') ! (n + 2) = VBool True \<and> slots (externrefs b') ! (n + 3) = VBool False"
proof -
  let ?K = "{0, n, n + 1, n + 2, n + 3}" and ?f = "\<lambda>j. if j = n + 1 then VNull else if j = n + 2 then VBool True else if j = n + 3 then VBool False else VUndefined"
  have n: "0 < n" using assms(2,3) by simp
  note used = slots_do_not_matter [OF assms(1)]
  have b1: "b1 = b\<lparr>externrefs := (externrefs b)\<lparr>slots := (slots (externrefs b) @ replicate 4 VUndefined)[0 := VUndefined,
      n + 0 := VUndefined, n + 1 := VNull, n + 2 := VBool True, n + 3 := VBool False]\<rparr>\<rparr>"
    using assms(3,5) by (auto simp: init_externref_table_def Let_def split: if_splits)
  have "table_holds X ?K ?f b1"
    unfolding b1 using assms(4) n by (simp add: table_holds_def assms(3) [symmetric] used nth_append nth_list_update)
  from table_run.reached_inv [OF this assms(6)] assms(1) have "table_holds X ?K ?f b'" by blast
  then show ?thesis using n by (simp add: table_holds_def)
qed

text \<open>
  C21: an exception of the host never escapes into WebAssembly, be it thrown by a function of the host or the trap of an instance that
  the function has called: it is in the table under the number that the
  core is left with, where taking it finds it and gives the place back; only when the slab has no place left does the call trap.
\<close>

theorem host_errors_are_kept:
  assumes "outside_ok X" "f b = (q, b1)" "caught q = Some e" "handleError X f b = (r, b2)"
  shows "r = Traps \<and> table_alloc X (externrefs b1) = None \<or>
    r = Returns VUndefined \<and> (\<exists>i b3. exn_data b2 = Some i \<and> i \<notin> table_used X (externrefs b1) \<and>
      takeFromExternrefTable0 X i b2 = (Returns e, b3) \<and> table_used X (externrefs b3) = table_used X (externrefs b1))"
proof (cases "table_alloc X (externrefs b1)")
  case None
  then show ?thesis using assms(2-4) by (simp add: handleError_def addToExternrefTable0_def)
next
  case (Some p)
  obtain i t where p: "p = (i, t)" by force
  obtain b' where a: "addToExternrefTable0 X e b1 = (Returns i, b')"
    using Some table_alloc_facts(2) [OF assms(1)] p by (simp add: addToExternrefTable0_def)
  then have r: "r = Returns VUndefined" "b2 = b'\<lparr>exn_data := Some i\<rparr>" using assms(2-4) by (simp_all add: handleError_def)
  note f = added_facts [OF assms(1) a]
  obtain b3 where t: "takeFromExternrefTable0 X i b2 = (Returns e, b3)"
    using f(3,4) by (simp add: takeFromExternrefTable0_def r(2))
  have "table_used X (externrefs b3) = table_used X (externrefs b1)"
    using taken_facts(1) [OF assms(1) t] f(1,2) by (simp add: r(2))
  with r f(1) t show ?thesis by auto
qed

section \<open>Across the border and back\<close>

text \<open>
  What is relied on of the export that restores a wallet: it answers for the strings that it finds in the memory, and
  leaves its error in the table.
\<close>

definition restoring_export ::
  "(units \<Rightarrow> units option \<Rightarrow> js_value + int) \<Rightarrow>
    (nat \<Rightarrow> nat \<Rightarrow> nat \<Rightarrow> nat \<Rightarrow> ('a, 'x) border \<Rightarrow> ((int \<times> nat \<times> int) \<times> ('a, 'x) border) option) \<Rightarrow> bool" where
  "restoring_export core export = (\<forall>p n p' n' b phrase passphrase r b1.
     utf8_decode (read_bytes (memory (copying b)) p n) = Some phrase \<longrightarrow>
     (if p' = 0 then None else Some (utf8_decode (read_bytes (memory (copying b)) p' n'))) = map_option Some passphrase \<longrightarrow>
     export p n p' n' b = Some (r, b1) \<longrightarrow>
     (case core phrase passphrase of
        Inl e \<Rightarrow> (\<exists>i. r = (0, i, 1) \<and> i < length (slots (externrefs b1)) \<and> slots (externrefs b1) ! i = e)
      | Inr w \<Rightarrow> r = (w, 0, 0)))"

text \<open>
  Restoring a wallet through the memory and the table gives what the core gives for the phrase and the passphrase of the
  caller: its wallet, or exactly its error as the exception, unless there is no memory left.
\<close>

theorem restore_call_answers:
  assumes "allocator_ok al" "restoring_export core export"
    and "well_formed phrase" "case passphrase of None \<Rightarrow> True | Some s \<Rightarrow> well_formed s"
    and "border_fromMnemonic al X export phrase passphrase b = (r, b')"
  shows "r = Traps \<or> r = (case core phrase passphrase of Inl e \<Rightarrow> Throws e | Inr w \<Rightarrow> Returns (to_uint32 w))"
proof (cases "r = Traps")
  case False
  then obtain p n p' n' g ret b1 where c: "fromMnemonic_args al phrase passphrase (copying b) = Some ((p, n, p', n'), g)"
      "export p n p' n' (b\<lparr>copying := g\<rparr>) = Some (ret, b1)"
    using assms(5) by (auto simp: border_fromMnemonic_def split: option.splits)
  note a = arguments_arrive [OF assms(1,3,4) c(1)]
  have mem: "copying (b\<lparr>copying := g\<rparr>) = g" by simp
  have x: "case core phrase passphrase of
        Inl e \<Rightarrow> (\<exists>i. ret = (0, i, 1) \<and> i < length (slots (externrefs b1)) \<and> slots (externrefs b1) ! i = e)
      | Inr w \<Rightarrow> ret = (w, 0, 0)"
  proof (rule assms(2) [unfolded restoring_export_def, rule_format])
    show "export p n p' n' (b\<lparr>copying := g\<rparr>) = Some (ret, b1)" by (rule c(2))
  qed (unfold mem, use a in blast, use a in blast)
  have "r = (case core phrase passphrase of Inl e \<Rightarrow> Throws e | Inr w \<Rightarrow> Returns (to_uint32 w))"
  proof (cases "core phrase passphrase")
    case (Inl e)
    with x obtain i where "ret = (0, i, 1)" "i < length (slots (externrefs b1))" "slots (externrefs b1) ! i = e" by auto
    then show ?thesis using assms(5) c Inl by (simp add: border_fromMnemonic_def takeFromExternrefTable0_def)
  next
    case (Inr w)
    then show ?thesis using assms(5) c x by (simp add: border_fromMnemonic_def)
  qed
  then show ?thesis ..
qed simp

text \<open>
  What is relied on of the host's source of randomness: the \<open>t\<close>-th time that it is asked it fills the array it is given, of up to
  65536 bytes, with the bytes \<open>draw t\<close>, new ones each time.
\<close>

definition fills :: "('a, 'x) outside \<Rightarrow> js_value \<Rightarrow> (nat \<Rightarrow> nat \<Rightarrow> byte list) \<Rightarrow> bool" where
  "fills X crypto draw = (\<forall>n k start b. length (draw (drawn (realm_of b)) n) = n \<and>
     (n \<le> 65536 \<longrightarrow> start + n \<le> length (buffers (realm_of b) k) \<longrightarrow>
     invoke_member X crypto ''getRandomValues'' [VBytes k start n] b = (Returns (VBytes k start n),
       b\<lparr>realm_of := (realm_of b)\<lparr>buffers := (buffers (realm_of b))(k := take start (buffers (realm_of b) k)
           @ draw (drawn (realm_of b)) n @ drop (start + n) (buffers (realm_of b) k)),
         drawn := Suc (drawn (realm_of b))\<rparr>\<rparr>)))"

text \<open>
  C20: randomness reaches the core: of a buffer of \<open>room\<close> bytes the first \<open>n\<close> are filled by the host, with bytes
  that it gives out once, and if the \<open>n\<close> bytes at the place that the core asked for lie inside the memory, exactly these bytes are
  then there, with the rest of the memory untouched. If they do not, the call throws a \<open>RangeError\<close> and nothing is
  written.
\<close>

theorem random_bytes_arrive:
  assumes "fills X crypto draw" "n \<le> room" "room < 2 ^ 32" "n \<le> 65536"
    and "import_new_with_length (int room) b = (Returns buf, b1)"
    and "import_subarray buf 0 (int n) b1 = (Returns sub, b2)"
    and "import_getRandomValues X crypto sub b2 = (r, b3)"
    and "import_prototypesetcall p n sub b3 = (q, b4)"
  shows "r = Returns VUndefined \<and> drawn (realm_of b4) = Suc (drawn (realm_of b)) \<and>
    (if n = 0 \<or> to_uint32 p + n \<le> byteLength (memory (copying b))
     then q = Returns VUndefined \<and> read_bytes (memory (copying b4)) (to_uint32 p) n = draw (drawn (realm_of b)) n \<and>
       (\<forall>a. a < to_uint32 p \<or> to_uint32 p + n \<le> a \<longrightarrow> cells (memory (copying b4)) a = cells (memory (copying b)) a)
     else q = Throws (VError ''RangeError'' ''offset is out of bounds'') \<and> memory (copying b4) = memory (copying b))"
proof -
  let ?k = "next_buffer (realm_of b)" and ?bs = "draw (drawn (realm_of b)) n"
  have u: "to_uint32 (int room) = room" "to_uint32 (int n) = n" "to_uint32 0 = 0"
    using assms(2,3) by (simp_all add: to_uint32_def)
  have b1: "buf = VBytes ?k 0 room" "buffers (realm_of b1) ?k = replicate room 0" "copying b1 = copying b"
      "drawn (realm_of b1) = drawn (realm_of b)"
    using assms(5) by (auto simp: import_new_with_length_def Let_def u)
  have b2: "sub = VBytes ?k 0 n" "b2 = b1" using assms(2,6) by (auto simp: import_subarray_def Let_def u b1(1))
  have len: "length ?bs = n" using assms(1) by (simp add: fills_def)
  have "invoke_member X crypto ''getRandomValues'' [sub] b1 = (Returns sub,
       b1\<lparr>realm_of := (realm_of b1)\<lparr>buffers := (buffers (realm_of b1))(?k := ?bs @ drop n (replicate room 0)),
         drawn := Suc (drawn (realm_of b))\<rparr>\<rparr>)"
    using assms(1,2,4) b1(2,4) unfolding fills_def b2(1) by simp
  then have b3: "r = Returns VUndefined" "array_bytes sub b3 = ?bs" "copying b3 = copying b" "drawn (realm_of b3) = Suc (drawn (realm_of b))"
    using assms(7) len by (auto simp: import_getRandomValues_def handleError_def caught_def discard_def b2 array_bytes_def b1(3))
  obtain v g where v: "getUint8ArrayMemory0 (copying b) = (v, g)" by fastforce
  have vb: "v = buffer (memory g)" "memory g = memory (copying b)" using view_current [OF v] by simp_all
  have bs: "array_bytes sub (b3\<lparr>copying := g\<rparr>) = ?bs" using b3(2) by (simp add: array_bytes_def b2(1))
  have set: "import_prototypesetcall p n sub b3 =
      (if n > clamped v (to_uint32 p) n (memory g)
       then (Throws (VError ''RangeError'' ''offset is out of bounds''), b3\<lparr>copying := g\<rparr>)
       else (Returns VUndefined, b3\<lparr>copying := write_bytes v (to_uint32 p) ?bs g\<rparr>))"
    using b3(3) len v bs by (simp add: import_prototypesetcall_def Let_def)
  have d: "drawn (realm_of b4) = Suc (drawn (realm_of b))"
    using assms(8) b3(4) unfolding set by (auto split: if_splits)
  show ?thesis
  proof (cases "n = 0 \<or> to_uint32 p + n \<le> byteLength (memory (copying b))")
    case True
    then have "clamped v (to_uint32 p) n (memory g) = n" using clamped_inside [of n "to_uint32 p" "memory g"] vb by simp
    then have "q = Returns VUndefined" "copying b4 = write_bytes v (to_uint32 p) ?bs g"
      using assms(8) unfolding set by auto
    then show ?thesis
      using b3(1) d vb len True by (auto simp: write_cells(1) read_bytes_def intro: nth_equalityI)
  next
    case False
    then have "n > clamped v (to_uint32 p) n (memory g)" by (auto simp: clamped_def view_length_def vb)
    then have "q = Throws (VError ''RangeError'' ''offset is out of bounds'')" "copying b4 = g"
      using assms(8) unfolding set by auto
    then show ?thesis using b3(1) d vb(2) False by simp
  qed
qed

section \<open>Examples\<close>

definition demo_alloc_slot :: "nat list table \<Rightarrow> (nat \<times> nat list table) option" where
  "demo_alloc_slot t = (let i = foldr max (slab t) (length (slots t)) + 1 in
     Some (i, \<lparr>slots = slots t @ replicate (Suc i - length (slots t)) VUndefined, slab = i # slab t\<rparr>))"

definition demo_invoke :: "js_value \<Rightarrow> string \<Rightarrow> js_value list \<Rightarrow> (demo_blocks, nat list, js_value) import" where
  "demo_invoke v name args b = (case args of
     [VBytes k start n] \<Rightarrow> (Returns (VBytes k start n),
       b\<lparr>realm_of := (realm_of b)\<lparr>buffers := (buffers (realm_of b))(k := take start (buffers (realm_of b) k) @
         replicate n (42 + drawn (realm_of b)) @ drop (start + n) (buffers (realm_of b) k)), drawn := Suc (drawn (realm_of b))\<rparr>\<rparr>)
   | _ \<Rightarrow> (Throws (VError ''TypeError'' name), b))"

definition demo_outside :: "(demo_blocks, nat list) outside" where
  "demo_outside = \<lparr>table_alloc = demo_alloc_slot, table_dealloc = (\<lambda>i t. t\<lparr>slab := filter (\<lambda>j. j \<noteq> i) (slab t)\<rparr>),
     table_used = (\<lambda>t. set (slab t)), can_grow = (\<lambda>n t. length (slots t) + n \<le> 1000), apply_function = (\<lambda>f this args b. (Throws (VError ''Error'' ''refused''), b)),
     invoke_member = demo_invoke, new_Function = (\<lambda>us b. (Returns (VFunction 0), b))\<rparr>"

definition demo_border :: "(demo_blocks, nat list) border" where
  "demo_border = \<lparr>copying = demo_glue, externrefs = \<lparr>slots = [VUndefined], slab = [0, 1, 2, 3, 4]\<rparr>,
     realm_of = \<lparr>members = (\<lambda>i k. VUndefined), buffers = (\<lambda>i. []), next_buffer = 0, declared = (\<lambda>k. None), drawn = 0\<rparr>, exn_data = None\<rparr>"

lemma foldr_max: "j \<in> set xs \<Longrightarrow> j \<le> foldr max xs (k :: nat)" "k \<le> foldr max xs k"
  by (induction xs) auto

lemma demo_outside_ok: "outside_ok demo_outside"
proof -
  have "i \<notin> set (slab t) \<and> i < length (slots t') \<and> set (slab t') = insert i (set (slab t)) \<and> length (slots t) \<le> length (slots t') \<and>
      (\<forall>j \<in> set (slab t). j < length (slots t) \<longrightarrow> slots t' ! j = slots t ! j)" if "demo_alloc_slot t = Some (i, t')" for t i t'
    using that foldr_max(1) [of _ "slab t" "length (slots t)"] foldr_max(2) [of "length (slots t)" "slab t"]
    by (fastforce simp: demo_alloc_slot_def Let_def nth_append)
  then show ?thesis by (simp add: outside_ok_def demo_outside_def) blast
qed

lemma addToExternrefTable0_returns:
  assumes "outside_ok X" "table_alloc X (externrefs b) \<noteq> None"
  shows "\<exists>i b1. addToExternrefTable0 X v b = (Returns i, b1)"
proof (cases "table_alloc X (externrefs b)")
  case (Some p)
  then obtain i t where t: "table_alloc X (externrefs b) = Some (i, t)" by (cases p) simp
  from table_alloc_facts(2) [OF assms(1) t] t show ?thesis by (simp add: addToExternrefTable0_def)
qed (use assms(2) in simp)

theorem value_stays_until_taken_witness:
  "\<exists>i b1. addToExternrefTable0 demo_outside (VText [104, 105]) demo_border = (Returns i, b1) \<and>
    fst (takeFromExternrefTable0 demo_outside i b1) = Returns (VText [104, 105])"
proof -
  have "table_alloc demo_outside (externrefs demo_border) \<noteq> None" by (simp add: demo_outside_def demo_alloc_slot_def Let_def)
  from addToExternrefTable0_returns [OF demo_outside_ok this, of "VText [104, 105]"]
  obtain i b1 where a: "addToExternrefTable0 demo_outside (VText [104, 105]) demo_border = (Returns i, b1)" by (elim exE)
  have "fst (takeFromExternrefTable0 demo_outside i b1) = Returns (VText [104, 105])"
    using value_stays_until_taken [OF demo_outside_ok a rtranclp.rtrancl_refl] by (metis fst_conv)
  with a show ?thesis by (intro exI conjI)
qed

theorem constants_stay_witness:
  "\<exists>b1. init_externref_table demo_outside demo_border = (Returns VUndefined, b1) \<and>
    slots (externrefs b1) ! 2 = VNull \<and> slots (externrefs b1) ! 3 = VBool True"
proof -
  have d: "slots (externrefs demo_border) \<noteq> []" "1 = length (slots (externrefs demo_border))"
    "{0, 1, 1 + 1, 1 + 2, 1 + 3} \<subseteq> table_used demo_outside (externrefs demo_border)"
    by (simp_all add: demo_border_def demo_outside_def)
  obtain b1 where i: "init_externref_table demo_outside demo_border = (Returns VUndefined, b1)"
    by (simp add: init_externref_table_def demo_outside_def demo_border_def)
  from constants_stay [OF demo_outside_ok d i rtranclp.rtrancl_refl] i show ?thesis by (simp add: numeral_2_eq_2 numeral_3_eq_3)
qed

theorem host_errors_are_kept_witness:
  "\<exists>b2 i. import_call_1 demo_outside (VFunction 0) VUndefined demo_border = (Returns VUndefined, b2) \<and>
    exn_data b2 = Some i \<and> fst (takeFromExternrefTable0 demo_outside i b2) = Returns (VError ''Error'' ''refused'')"
proof -
  let ?f = "apply_function demo_outside (VFunction 0) VUndefined []"
  have f: "?f demo_border = (Throws (VError ''Error'' ''refused''), demo_border)" by (simp add: demo_outside_def)
  have e: "caught (Throws (VError ''Error'' ''refused'')) = Some (VError ''Error'' ''refused'')" by (simp add: caught_def)
  obtain r b2 where h: "handleError demo_outside ?f demo_border = (r, b2)" by fastforce
  have "table_alloc demo_outside (externrefs demo_border) \<noteq> None" by (simp add: demo_outside_def demo_alloc_slot_def Let_def)
  with host_errors_are_kept [OF demo_outside_ok f e h] h show ?thesis by (auto simp: import_call_1_def)
qed

definition demo_core :: "units \<Rightarrow> units option \<Rightarrow> js_value + int" where
  "demo_core phrase passphrase = (if phrase = [] then Inl (VText [101]) else Inr (- 1))"

definition demo_restore ::
  "nat \<Rightarrow> nat \<Rightarrow> nat \<Rightarrow> nat \<Rightarrow> (demo_blocks, nat list) border \<Rightarrow> ((int \<times> nat \<times> int) \<times> (demo_blocks, nat list) border) option" where
  "demo_restore p n p' n' b =
     (if utf8_decode (read_bytes (memory (copying b)) p n) = Some []
      then Some ((0, length (slots (externrefs b)), 1), b\<lparr>externrefs := (externrefs b)\<lparr>slots := slots (externrefs b) @ [VText [101]]\<rparr>\<rparr>)
      else Some ((- 1, 0, 0), b))"

lemma demo_restore_ok: "restoring_export demo_core demo_restore"
  unfolding restoring_export_def by (auto simp: demo_core_def demo_restore_def split: if_splits)

theorem restore_call_answers_witness:
  "fst (border_fromMnemonic demo_allocator demo_outside demo_restore [97, 233, 55357, 56832] (Some [8364, 98]) demo_border) = Returns 4294967295"
proof -
  let ?c = "border_fromMnemonic demo_allocator demo_outside demo_restore [97, 233, 55357, 56832] (Some [8364, 98]) demo_border"
  have w: "well_formed [97, 233, 55357, 56832]" "case Some [8364, 98] of None \<Rightarrow> True | Some s \<Rightarrow> well_formed s"
    by (simp_all add: high_surrogate_def low_surrogate_def)
  have g: "copying demo_border = demo_glue" by (simp add: demo_border_def)
  have "fst ?c \<noteq> Traps"
    using demo_args_returned
    by (auto simp: border_fromMnemonic_def g Option.is_none_def demo_restore_def takeFromExternrefTable0_def case_prod_unfold split: if_splits)
  with restore_call_answers [OF demo_allocator_ok demo_restore_ok w prod.collapse [symmetric], of demo_outside demo_border]
  show ?thesis by (simp add: demo_core_def to_uint32_def)
qed

theorem random_bytes_arrive_witness:
  "\<exists>b1 b3 b4. import_new_with_length 256 demo_border = (Returns (VBytes 0 0 256), b1) \<and>
    import_getRandomValues demo_outside VNull (VBytes 0 0 32) b1 = (Returns VUndefined, b3) \<and>
    import_prototypesetcall 200 32 (VBytes 0 0 32) b3 = (Returns VUndefined, b4) \<and>
    read_bytes (memory (copying b4)) 200 32 = replicate 32 42 \<and>
    fst (import_prototypesetcall 65535 32 (VBytes 0 0 32) b3) = Throws (VError ''RangeError'' ''offset is out of bounds'')"
proof -
  have f: "fills demo_outside VNull (\<lambda>t n. replicate n (42 + t))" by (simp add: fills_def demo_outside_def demo_invoke_def)
  obtain b1 where b1: "import_new_with_length (int 256) demo_border = (Returns (VBytes 0 0 256), b1)"
    by (simp add: import_new_with_length_def demo_border_def Let_def to_uint32_def)
  have b2: "import_subarray (VBytes 0 0 256) 0 (int 32) b1 = (Returns (VBytes 0 0 32), b1)"
    by (simp add: import_subarray_def to_uint32_def Let_def)
  obtain r b3 where b3: "import_getRandomValues demo_outside VNull (VBytes 0 0 32) b1 = (r, b3)" by fastforce
  obtain q b4 where b4: "import_prototypesetcall 200 32 (VBytes 0 0 32) b3 = (q, b4)" by fastforce
  obtain q' b5 where b5: "import_prototypesetcall 65535 32 (VBytes 0 0 32) b3 = (q', b5)" by fastforce
  have m: "byteLength (memory (copying demo_border)) = 65536" "drawn (realm_of demo_border) = 0"
    by (simp_all add: demo_border_def demo_glue_def)
  from random_bytes_arrive [OF f _ _ _ b1 b2 b3 b4] random_bytes_arrive [OF f _ _ _ b1 b2 b3 b5] b1 b3 b4 b5 show ?thesis
    by (simp add: to_uint32_def m)
qed

end
