(* ===== verification/Wasm_Class.thy ===== *)
theory Wasm_Class
  imports Wallet_Js Wasm_Imports
begin

text \<open>
  The two views of the class \<open>Wallet\<close> together: \<open>Wallet_Js\<close> has its operations on strings and addresses,
  \<open>Wasm_Imports\<close> has them on the memory and the table of references. Restoring a wallet in the second
  way is restoring it in the first.
\<close>

section \<open>Relating the answers\<close>

definition text_units :: "string \<Rightarrow> units" where
  "text_units s = map of_char s"

text \<open>What the core answers to the phrase and the passphrase that it reads: the address of the new wallet, or the error as a string.\<close>

definition core_answer ::
  "('m, 'x, 's, 'p, 'g) crypto \<Rightarrow> ('s, 'p) runtime \<Rightarrow> ('s, 'p) engine \<Rightarrow> units \<Rightarrow> units option \<Rightarrow> js_value + int" where
  "core_answer c rt g phrase passphrase =
     (case from_mnemonic c (units_string phrase) (map_option units_string passphrase) of
        ROk w \<Rightarrow> Inr (int (alloc rt (heap_of g)))
      | RErr e \<Rightarrow> Inl (VText (text_units e))
      | RPanic q \<Rightarrow> Inl VUndefined)"

text \<open>The export traps for a panic of the core and for nothing else.\<close>

definition traps_on_panic ::
  "('m, 'x, 's, 'p, 'g) crypto \<Rightarrow>
    (nat \<Rightarrow> nat \<Rightarrow> nat \<Rightarrow> nat \<Rightarrow> ('a, 'y) border \<Rightarrow> ((int \<times> nat \<times> int) \<times> ('a, 'y) border) option) \<Rightarrow> bool" where
  "traps_on_panic c export = (\<forall>p n p' n' b phrase passphrase.
     utf8_decode (read_bytes (memory (copying b)) p n) = Some phrase \<longrightarrow>
     (if p' = 0 then None else Some (utf8_decode (read_bytes (memory (copying b)) p' n'))) = map_option Some passphrase \<longrightarrow>
     (export p n p' n' b = None \<longleftrightarrow> (\<exists>q. from_mnemonic c (units_string phrase) (map_option units_string passphrase) = RPanic q)))"

text \<open>An outcome of the class as a reply across the border: strings are thrown as such, a \<open>RuntimeError\<close> is a trap.\<close>

definition reply_of :: "nat outcome \<Rightarrow> nat reply" where
  "reply_of r = (case r of Ok p \<Rightarrow> Returns p | Throw (ThrownStr t) \<Rightarrow> Throws (VText (text_units t)) | Throw _ \<Rightarrow> Traps)"

lemma units_string_text_units [simp]: "units_string (text_units s) = s"
  by (induction s) (simp_all add: units_string_def text_units_def)

lemma of_char_small: "(of_char ch :: nat) < 256"
  by (rule nat_of_char_less_256)

lemma well_formed_text_units: "well_formed (text_units s)"
proof -
  have "list_all (\<lambda>u. u < 256) us \<Longrightarrow> well_formed us" for us
    by (induction us rule: well_formed.induct) (auto simp: high_surrogate_def low_surrogate_def)
  moreover have "list_all (\<lambda>u. u < 256) (text_units s)" using of_char_small by (simp add: text_units_def list_all_iff)
  ultimately show ?thesis by blast
qed

lemma well_formed_optional: "case map_option text_units p of None \<Rightarrow> True | Some s \<Rightarrow> well_formed s"
  by (cases p) (simp_all add: well_formed_text_units)

lemma optional_units [simp]: "map_option units_string (map_option text_units p) = p"
  by (cases p) simp_all

text \<open>Given memory for the six blocks that the two arguments may take, the call traps exactly for a panic.\<close>

lemma traps_iff_panic:
  assumes "allocator_ok al" "traps_on_panic c export"
    and "3 * length phrase \<le> N" "case passphrase of None \<Rightarrow> True | Some s \<Rightarrow> 3 * length s \<le> N" "ready al N 6 (memory (copying b))"
  shows "fst (border_fromMnemonic al X export (text_units phrase) (map_option text_units passphrase) b) = Traps \<longleftrightarrow>
    (\<exists>q. from_mnemonic c phrase passphrase = RPanic q)"
proof -
  have "3 * length (text_units phrase) \<le> N" "case map_option text_units passphrase of None \<Rightarrow> True | Some s \<Rightarrow> 3 * length s \<le> N"
    using assms(3,4) by (auto simp: text_units_def split: option.splits)
  from fromMnemonic_args_returns [OF assms(1) well_formed_text_units well_formed_optional this assms(5)]
  obtain p n p' n' g where a: "fromMnemonic_args al (text_units phrase) (map_option text_units passphrase) (copying b) = Some ((p, n, p', n'), g)"
    by (metis prod_cases4 surj_pair)
  note m = arguments_arrive [OF assms(1) well_formed_text_units well_formed_optional a]
  have mem: "copying (b\<lparr>copying := g\<rparr>) = g" by simp
  have "export p n p' n' (b\<lparr>copying := g\<rparr>) = None \<longleftrightarrow>
    (\<exists>q. from_mnemonic c (units_string (text_units phrase)) (map_option units_string (map_option text_units passphrase)) = RPanic q)"
  proof (rule assms(2) [unfolded traps_on_panic_def, rule_format])
    show "utf8_decode (read_bytes (memory (copying (b\<lparr>copying := g\<rparr>))) p n) = Some (text_units phrase)" unfolding mem using m by blast
    show "(if p' = 0 then None else Some (utf8_decode (read_bytes (memory (copying (b\<lparr>copying := g\<rparr>))) p' n'))) =
      map_option Some (map_option text_units passphrase)" unfolding mem using m by blast
  qed
  then show ?thesis
    using a by (auto simp: border_fromMnemonic_def takeFromExternrefTable0_def case_prod_unfold split: option.splits if_splits)
qed

text \<open>
  C7: given memory for its arguments, restoring a wallet through memory and table is restoring it on the class: the same address, the same error
  string, a trap for a panic.
\<close>

theorem restore_refines_class:
  assumes "allocator_ok al" "restoring_export (core_answer c rt g) export" "traps_on_panic c export"
    and "wasm g \<noteq> None" "alloc rt (heap_of g) < 2 ^ 32"
    and "3 * length phrase \<le> N" "case passphrase of None \<Rightarrow> True | Some s \<Rightarrow> 3 * length s \<le> N" "ready al N 6 (memory (copying b))"
  shows "fst (border_fromMnemonic al X export (text_units phrase) (map_option text_units passphrase) b) =
    reply_of (fst (js_fromMnemonic c rt phrase passphrase g))"
proof -
  let ?r = "fst (border_fromMnemonic al X export (text_units phrase) (map_option text_units passphrase) b)"
  have k: "core_answer c rt g (text_units phrase) (map_option text_units passphrase) = (case from_mnemonic c phrase passphrase of
        ROk w \<Rightarrow> Inr (int (alloc rt (heap_of g))) | RErr e \<Rightarrow> Inl (VText (text_units e)) | RPanic q \<Rightarrow> Inl VUndefined)"
    by (simp add: core_answer_def)
  have ans: "?r = Traps \<or> ?r = (case core_answer c rt g (text_units phrase) (map_option text_units passphrase) of
      Inl e \<Rightarrow> Throws e | Inr w \<Rightarrow> Returns (to_uint32 w))"
    by (rule restore_call_answers [OF assms(1,2) well_formed_text_units well_formed_optional prod.collapse [symmetric]])
  note trap = traps_iff_panic [OF assms(1,3,6,7,8), of X]
  show ?thesis
  proof (cases "from_mnemonic c phrase passphrase")
    case (ROk w)
    have "to_uint32 (int (alloc rt (heap_of g))) = alloc rt (heap_of g)" using assms(5) by (simp add: to_uint32_def)
    then show ?thesis using ans trap ROk assms(4) unfolding k
      by (auto simp: js_fromMnemonic_def make_wallet_def export_call_def from_rust_def store_box_def Let_def reply_of_def)
  next
    case (RErr e)
    then show ?thesis using ans trap assms(4) unfolding k
      by (auto simp: js_fromMnemonic_def make_wallet_def export_call_def from_rust_def reply_of_def)
  next
    case (RPanic q)
    then show ?thesis using trap assms(4)
      by (auto simp: js_fromMnemonic_def make_wallet_def export_call_def from_rust_def reply_of_def)
  qed
qed

section \<open>Example\<close>

text \<open>An export that answers as the core does.\<close>

definition demo_class_restore ::
  "('m, 'x, 's, 'p, 'g) crypto \<Rightarrow> ('s, 'p) runtime \<Rightarrow> ('s, 'p) engine \<Rightarrow> nat \<Rightarrow> nat \<Rightarrow> nat \<Rightarrow> nat \<Rightarrow>
    (demo_blocks, nat list) border \<Rightarrow> ((int \<times> nat \<times> int) \<times> (demo_blocks, nat list) border) option" where
  "demo_class_restore c rt g p n p' n' b =
     (case (utf8_decode (read_bytes (memory (copying b)) p n),
            if p' = 0 then Some None else map_option Some (utf8_decode (read_bytes (memory (copying b)) p' n'))) of
        (Some phrase, Some passphrase) \<Rightarrow>
          (case from_mnemonic c (units_string phrase) (map_option units_string passphrase) of
             RPanic q \<Rightarrow> None
           | _ \<Rightarrow> (case core_answer c rt g phrase passphrase of
               Inr w \<Rightarrow> Some ((w, 0, 0), b)
             | Inl e \<Rightarrow> Some ((0, length (slots (externrefs b)), 1),
                 b\<lparr>externrefs := (externrefs b)\<lparr>slots := slots (externrefs b) @ [e]\<rparr>\<rparr>)))
      | _ \<Rightarrow> None)"

lemma passphrase_read:
  "(if p' = 0 then None else Some d) = map_option Some passphrase \<Longrightarrow>
    (if p' = 0 then Some None else map_option Some d) = Some passphrase" for p' :: nat
  by (cases passphrase) (auto split: if_splits)

lemma demo_class_restore_eq:
  assumes "utf8_decode (read_bytes (memory (copying b)) p n) = Some phrase"
    and "(if p' = 0 then None else Some (utf8_decode (read_bytes (memory (copying b)) p' n'))) = map_option Some passphrase"
  shows "demo_class_restore c rt g p n p' n' b =
    (case from_mnemonic c (units_string phrase) (map_option units_string passphrase) of
       RPanic q \<Rightarrow> None
     | _ \<Rightarrow> (case core_answer c rt g phrase passphrase of
         Inr w \<Rightarrow> Some ((w, 0, 0), b)
       | Inl e \<Rightarrow> Some ((0, length (slots (externrefs b)), 1),
           b\<lparr>externrefs := (externrefs b)\<lparr>slots := slots (externrefs b) @ [e]\<rparr>\<rparr>)))"
  unfolding demo_class_restore_def passphrase_read [OF assms(2)] assms(1) by simp

lemma demo_class_restore_ok:
  "restoring_export (core_answer c rt g) (demo_class_restore c rt g)" "traps_on_panic c (demo_class_restore c rt g)"
proof -
  have "case core_answer c rt g phrase passphrase of
        Inl e \<Rightarrow> (\<exists>i. r = (0, i, 1) \<and> i < length (slots (externrefs b1)) \<and> slots (externrefs b1) ! i = e)
      | Inr w \<Rightarrow> r = (w, 0, 0)"
    if "utf8_decode (read_bytes (memory (copying b)) p n) = Some phrase"
      "(if p' = 0 then None else Some (utf8_decode (read_bytes (memory (copying b)) p' n'))) = map_option Some passphrase"
      "demo_class_restore c rt g p n p' n' b = Some (r, b1)" for p n p' n' b phrase passphrase r b1
    using that(3) unfolding demo_class_restore_eq [OF that(1,2)] by (auto split: rust.splits sum.splits)
  then show "restoring_export (core_answer c rt g) (demo_class_restore c rt g)" unfolding restoring_export_def by blast
  show "traps_on_panic c (demo_class_restore c rt g)"
    unfolding traps_on_panic_def
    by (intro allI impI) (auto simp: demo_class_restore_eq core_answer_def split: rust.splits sum.splits)
qed

definition demo_engine :: "(char, char) engine" where
  "demo_engine = \<lparr>wasm = Some 0, instances = [[]], entropy = []\<rparr>"

theorem restore_refines_class_witness:
  "fst (border_fromMnemonic demo_allocator demo_outside (demo_class_restore demo_crypto demo_runtime demo_engine) (text_units ''AB'')
      (map_option text_units (Some ''pw'')) demo_border) =
    reply_of (fst (js_fromMnemonic demo_crypto demo_runtime ''AB'' (Some ''pw'') demo_engine))"
proof -
  have e: "wasm demo_engine \<noteq> None" "alloc demo_runtime (heap_of demo_engine) < 2 ^ 32"
    by (simp_all add: demo_engine_def demo_runtime_def heap_of_def)
  have n: "3 * length ''AB'' \<le> 6" "case Some ''pw'' of None \<Rightarrow> True | Some s \<Rightarrow> 3 * length s \<le> 6" by simp_all
  have "ready demo_allocator 6 6 (memory (copying demo_border))"
    by (rule demo_ready) (simp add: demo_border_def demo_glue_def demo_top_def)
  from restore_refines_class [where c = demo_crypto and X = demo_outside, OF demo_allocator_ok demo_class_restore_ok e n this]
  show ?thesis .
qed

end
