(* ===== verification/Wasm_Load.thy ===== *)
theory Wasm_Load
  imports Wallet_Js
begin

text \<open>
  How an instance comes to be (\<open>__wbg_load\<close>, \<open>__wbg_init\<close> and \<open>initSync\<close> of
  \<open>Wallet/pkg/retardio_wallet.js\<close>): the forms of the argument, the download, and the way around servers
  that do not name the type of WebAssembly. The WebAssembly interface of the host and \<open>fetch\<close> are
  parameters.
\<close>

section \<open>Values and the host\<close>

record wasm_response =
  r_ok :: bool
  r_type :: string
  contentType :: "string option"
  arrayBuffer :: "byte list outcome"

text \<open>
  What callers hand to the loader. \<open>Plain v\<close> is an object literal, \<open>v\<close> its member \<open>module_or_path\<close> (or
  \<open>module\<close>), \<open>Undef\<close> when it has none.
\<close>

datatype 'mod handed = Undef | Null | Plain "'mod handed" | Str string | Url string | Request string
  | Response wasm_response | Compiled 'mod | Buffer "byte list" | Promise "'mod handed outcome"

datatype ('i, 'mod) instantiated = Instance 'i | Pair 'i 'mod

text \<open>\<open>wbindgen_start\<close> is what the start function of an instance throws, if it does.\<close>

record ('i, 'mod) host_wasm =
  has_Response :: bool
  has_Request :: bool
  has_URL :: bool
  instantiateStreaming :: "(wasm_response \<Rightarrow> ('i \<times> 'mod) outcome) option"
  instantiate :: "'mod handed \<Rightarrow> ('i, 'mod) instantiated outcome"
  new_Module :: "'mod handed \<Rightarrow> 'mod outcome"
  new_Instance :: "'mod \<Rightarrow> 'i outcome"
  fetch_wasm :: "'mod handed \<Rightarrow> 'mod handed outcome"
  wasm_url :: string
  wbindgen_start :: "'i \<Rightarrow> thrown option"

definition settle :: "'mod handed \<Rightarrow> ('w, 'mod handed) io" where
  "settle v = (case v of Promise r \<Rightarrow> lift_outcome r | _ \<Rightarrow> ret v)"

section \<open>Loading\<close>

definition EXPECTED_RESPONSE_TYPES :: "string list" where
  "EXPECTED_RESPONSE_TYPES = [''basic'', ''cors'', ''default'']"

definition mime_warning :: string where
  "mime_warning = ''`WebAssembly.instantiateStreaming` failed because your server does not serve Wasm with `application/wasm` MIME type. Falling back to `WebAssembly.instantiate` which is slower. Original error:'' @ [CHR 0x0A]"

definition as_pair :: "'mod handed \<Rightarrow> ('i, 'mod) instantiated \<Rightarrow> 'i \<times> 'mod handed" where
  "as_pair source r = (case r of Instance i \<Rightarrow> (i, source) | Pair i m \<Rightarrow> (i, Compiled m))"

definition wbg_load :: "('i, 'mod) host_wasm \<Rightarrow> 'mod handed \<Rightarrow> ('w, 'i \<times> 'mod handed) io" where
  "wbg_load H source =
     (case (has_Response H, source) of
        (True, Response r) \<Rightarrow>
          (let from_bytes = await (lift_outcome (arrayBuffer r)) (\<lambda>bytes.
                 await (lift_outcome (instantiate H (Buffer bytes))) (\<lambda>x. ret (as_pair (Buffer bytes) x)))
           in case instantiateStreaming H of
                Some streaming \<Rightarrow>
                  try_catch (await (lift_outcome (streaming r)) (\<lambda>(i, m). ret (i, Compiled m))) (\<lambda>e.
                    let validResponse = (r_ok r \<and> r_type r \<in> set EXPECTED_RESPONSE_TYPES) in
                    if validResponse \<and> contentType r \<noteq> Some ''application/wasm''
                    then await (console_write WarnLevel [LText mime_warning, LThrown e]) (\<lambda>_. from_bytes)
                    else throw e)
              | None \<Rightarrow> from_bytes)
      | _ \<Rightarrow> await (lift_outcome (instantiate H source)) (\<lambda>x. ret (as_pair source x)))"

text \<open>\<open>Object.getPrototypeOf(v) === Object.prototype\<close>, which throws for \<open>null\<close>.\<close>

definition plain_object :: "'mod handed \<Rightarrow> bool outcome" where
  "plain_object v = (case v of
     Null \<Rightarrow> Throw (TypeError ''Cannot convert undefined or null to object'')
   | Plain _ \<Rightarrow> Ok True
   | _ \<Rightarrow> Ok False)"

definition module_member :: "'mod handed \<Rightarrow> 'mod handed" where
  "module_member v = (case v of Plain x \<Rightarrow> x | _ \<Rightarrow> Undef)"

definition unwrap_argument :: "string \<Rightarrow> 'mod handed \<Rightarrow> ('w, 'mod handed) io" where
  "unwrap_argument warning v =
     (if v = Undef then ret v
      else await (lift_outcome (plain_object v)) (\<lambda>plain.
        if plain then ret (module_member v)
        else await (console_write WarnLevel [LText warning]) (\<lambda>_. ret v)))"

definition to_fetch :: "('i, 'mod) host_wasm \<Rightarrow> 'mod handed \<Rightarrow> bool" where
  "to_fetch H v = (case v of Str _ \<Rightarrow> True | Request _ \<Rightarrow> has_Request H | Url _ \<Rightarrow> has_URL H | _ \<Rightarrow> False)"

definition wbg_finalize_init :: "('i, 'mod) host_wasm \<Rightarrow> 'i \<Rightarrow> (('s, 'p) engine, unit) io" where
  "wbg_finalize_init H i = world_call (finalize_init (wbindgen_start H i))"

definition wbg_init :: "('i, 'mod) host_wasm \<Rightarrow> 'mod handed \<Rightarrow> (('s, 'p) engine, unit) io" where
  "wbg_init H module_or_path m =
     (if wasm (world m) \<noteq> None then (Ok (), m)
      else await (unwrap_argument
          ''using deprecated parameters for the initialization function; pass a single object instead'' module_or_path) (\<lambda>v1.
        let v2 = (if v1 = Undef then Url (wasm_url H) else v1);
            v3 = (if to_fetch H v2 then Promise (fetch_wasm H v2) else v2)
        in await (settle v3) (\<lambda>v4.
           await (wbg_load H v4) (\<lambda>(i, md). wbg_finalize_init H i))) m)"

definition initSync :: "('i, 'mod) host_wasm \<Rightarrow> 'mod handed \<Rightarrow> (('s, 'p) engine, unit) io" where
  "initSync H md m =
     (if wasm (world m) \<noteq> None then (Ok (), m)
      else await (unwrap_argument
          ''using deprecated parameters for `initSync()`; pass a single object instead'' md) (\<lambda>v.
        await (case v of Compiled x \<Rightarrow> ret x | _ \<Rightarrow> lift_outcome (new_Module H v)) (\<lambda>x.
        await (lift_outcome (new_Instance H x)) (\<lambda>i. wbg_finalize_init H i))) m)"

section \<open>The loader as the class sees it\<close>

text \<open>Everything before the last step leaves the outside world alone.\<close>

definition quiet :: "('w, 'a) io \<Rightarrow> bool" where
  "quiet p = (\<forall>m. world (snd (p m)) = world m)"

named_theorems quiet_intros

lemma quiet_basic [quiet_intros]: "quiet (ret x)" "quiet (throw e)" "quiet (lift_outcome r)" "quiet (console_write l a)"
  by (simp_all add: quiet_def io_simps)

lemma quiet_await [quiet_intros]: "quiet p \<Longrightarrow> (\<And>x. quiet (k x)) \<Longrightarrow> quiet (await p k)"
  by (simp add: quiet_def await_def split: prod.splits outcome.splits) (metis snd_conv)

lemma quiet_catch [quiet_intros]: "quiet p \<Longrightarrow> (\<And>e. quiet (h e)) \<Longrightarrow> quiet (try_catch p h)"
  by (simp add: quiet_def try_catch_def split: prod.splits outcome.splits) (metis snd_conv)

lemma quiet_parts [quiet_intros]: "quiet (wbg_load H v)" "quiet (unwrap_argument w v)" "quiet (settle v)"
  unfolding wbg_load_def unwrap_argument_def settle_def Let_def
  by (auto intro!: quiet_intros split: bool.splits handed.splits option.splits)

lemma then_finalize:
  assumes "quiet p"
  obtains x m1 where "p m = (Ok x, m1)"
      "await p (\<lambda>x. wbg_finalize_init H (f x)) m
        = (fst (finalize_init (wbindgen_start H (f x)) (world m)), m1\<lparr>world := new_instance (world m)\<rparr>)"
  | e m1 where "p m = (Throw e, m1)" "await p (\<lambda>x. wbg_finalize_init H (f x)) m = (Throw e, m1)" "world m1 = world m"
proof -
  obtain r m1 where r: "p m = (r, m1)" by fastforce
  have w: "world m1 = world m" using assms r by (metis quiet_def snd_conv)
  show thesis
    using r w that by (cases r) (simp_all add: await_def wbg_finalize_init_def world_call_def finalize_init_def)
qed

text \<open>The part of the two loaders before the last step.\<close>

definition obtained :: "('i, 'mod) host_wasm \<Rightarrow> 'mod handed \<Rightarrow> ('w, 'i \<times> 'mod handed) io" where
  "obtained H a = await (unwrap_argument
     ''using deprecated parameters for the initialization function; pass a single object instead'' a) (\<lambda>v1.
     let v2 = (if v1 = Undef then Url (wasm_url H) else v1);
         v3 = (if to_fetch H v2 then Promise (fetch_wasm H v2) else v2)
     in await (settle v3) (wbg_load H))"

definition obtained_sync :: "('i, 'mod) host_wasm \<Rightarrow> 'mod handed \<Rightarrow> ('w, 'i) io" where
  "obtained_sync H a = await (unwrap_argument
     ''using deprecated parameters for `initSync()`; pass a single object instead'' a) (\<lambda>v.
     await (case v of Compiled x \<Rightarrow> ret x | _ \<Rightarrow> lift_outcome (new_Module H v)) (\<lambda>x. lift_outcome (new_Instance H x)))"

lemma loaders_obtain:
  assumes "wasm (world m) = None"
  shows "wbg_init H a m = await (obtained H a) (\<lambda>x. wbg_finalize_init H (fst x)) m"
    "initSync H a m = await (obtained_sync H a) (\<lambda>i. wbg_finalize_init H i) m"
  using assms by (simp_all add: wbg_init_def initSync_def obtained_def obtained_sync_def await_assoc Let_def case_prod_unfold)

lemma quiet_obtained: "quiet (obtained H a)" "quiet (obtained_sync H a)"
  unfolding obtained_def obtained_sync_def Let_def by (auto intro!: quiet_intros split: handed.splits)

lemma finalize_outcome:
  assumes "quiet p"
  shows "(\<exists>e. fst (await p (\<lambda>x. wbg_finalize_init H (f x)) m) = Throw e \<and>
      world (snd (await p (\<lambda>x. wbg_finalize_init H (f x)) m)) = world m) \<or>
    (\<exists>i. (fst (await p (\<lambda>x. wbg_finalize_init H (f x)) m), world (snd (await p (\<lambda>x. wbg_finalize_init H (f x)) m)))
      = finalize_init (wbindgen_start H i) (world m))"
  using assms
proof (cases rule: then_finalize [of p m H f])
  case (1 x m1)
  then show ?thesis by (auto simp: finalize_init_def)
qed simp

text \<open>
  C30: both loaders, in whatever form the module is handed to them and whatever the host answers, do to the class what the
  loader of the class is said to do. With an instance they return at once. Otherwise an error before there is an instance
  leaves everything as it was; an instance becomes the current one, and the call returns or throws as its start
  function does. So a start function that throws leaves its instance in place: from then on, as after a success, every
  loading returns without an error and without any effect.
\<close>

theorem loaders_refine_init:
  fixes m :: "('s, 'p) engine machine"
  assumes "r = wbg_init H a m \<or> r = initSync H a m"
  shows "(if wasm (world m) \<noteq> None then r = (Ok (), m)
      else (\<exists>e. fst r = Throw e \<and> world (snd r) = world m) \<or>
        (\<exists>i. (fst r, world (snd r)) = finalize_init (wbindgen_start H i) (world m))) \<and>
    (\<exists>failure. js_init failure (world m) = (fst r, world (snd r))) \<and>
    (wasm (world (snd r)) \<noteq> None \<longrightarrow> (\<forall>b. wbg_init H b (snd r) = (Ok (), snd r) \<and> initSync H b (snd r) = (Ok (), snd r)))"
proof -
  have again: "wasm (world (snd r)) \<noteq> None \<Longrightarrow> wbg_init H b (snd r) = (Ok (), snd r) \<and> initSync H b (snd r) = (Ok (), snd r)" for b
    by (simp add: wbg_init_def initSync_def)
  show ?thesis
  proof (cases "wasm (world m) = None")
    case True
    then have "(\<exists>e. fst r = Throw e \<and> world (snd r) = world m) \<or>
        (\<exists>i. (fst r, world (snd r)) = finalize_init (wbindgen_start H i) (world m))"
      using assms finalize_outcome [OF quiet_obtained(1) [of H a], of H fst m]
        finalize_outcome [OF quiet_obtained(2) [of H a], of H "\<lambda>i. i" m] by (auto simp: loaders_obtain)
    moreover from this have "\<exists>failure. js_init failure (world m) = (fst r, world (snd r))"
    proof (elim disjE exE conjE)
      fix e assume "fst r = Throw e" "world (snd r) = world m"
      then show ?thesis using True by (intro exI [of _ "Some (BeforeStart e)"]) (simp add: js_init_def)
    next
      fix i assume "(fst r, world (snd r)) = finalize_init (wbindgen_start H i) (world m)"
      then show ?thesis
        using True by (intro exI [of _ "map_option AtStart (wbindgen_start H i)"])
          (auto simp: js_init_def finalize_init_def split: option.splits)
    qed
    ultimately show ?thesis using True again by simp
  next
    case False
    then have "r = (Ok (), m)" using assms by (auto simp: wbg_init_def initSync_def)
    then show ?thesis using False again by (simp add: js_init_def)
  qed
qed

text \<open>
  A server that does not name the type of WebAssembly costs a warning and nothing more; an answer that is an
  error, or that has the right type and still does not compile, ends the initialization with the error of the
  host.
\<close>

theorem download_without_type:
  assumes "wasm (world m) = None" "has_Response H" "has_URL H" "fetch_wasm H (Url (wasm_url H)) = Ok (Response r)"
    and "instantiateStreaming H = Some streaming" "streaming r = Throw e" "\<forall>i. wbindgen_start H i = None"
  shows "if r_ok r \<and> r_type r \<in> set EXPECTED_RESPONSE_TYPES \<and> contentType r \<noteq> Some ''application/wasm''
    then (\<forall>bytes x. arrayBuffer r = Ok bytes \<and> instantiate H (Buffer bytes) = Ok x \<longrightarrow>
      wbg_init H Undef m = (Ok (), \<lparr>console = console m @ [(WarnLevel, [LText mime_warning, LThrown e])], world = new_instance (world m)\<rparr>))
    else wbg_init H Undef m = (Throw e, m)"
proof -
  have o: "wbg_init H Undef m = await (wbg_load H (Response r)) (\<lambda>x. wbg_finalize_init H (fst x)) m"
    using assms(1,3,4)
    by (simp add: loaders_obtain obtained_def unwrap_argument_def to_fetch_def settle_def) (simp add: await_def lift_outcome_def)
  show ?thesis
    unfolding o using assms(2,5,6,7)
    by (cases m) (auto simp: wbg_load_def Let_def await_def try_catch_def io_simps wbg_finalize_init_def world_call_def
      as_pair_def split: instantiated.splits)
qed

section \<open>Examples\<close>

definition demo_response :: "string option \<Rightarrow> wasm_response" where
  "demo_response ct = \<lparr>r_ok = True, r_type = ''basic'', contentType = ct, arrayBuffer = Ok [0, 97, 115, 109]\<rparr>"

definition demo_wasm_host :: "string option \<Rightarrow> (unit, unit) host_wasm" where
  "demo_wasm_host ct = \<lparr>has_Response = True, has_Request = True, has_URL = True,
     instantiateStreaming = Some (\<lambda>r. if contentType r = Some ''application/wasm'' then Ok ((), ())
       else Throw (TypeError ''Incorrect response MIME type'')),
     instantiate = (\<lambda>v. case v of Buffer _ \<Rightarrow> Ok (Pair () ()) | Compiled _ \<Rightarrow> Ok (Instance ()) | _ \<Rightarrow> Throw (TypeError ''not a module'')),
     new_Module = (\<lambda>v. case v of Buffer _ \<Rightarrow> Ok () | _ \<Rightarrow> Throw (TypeError ''not a module'')), new_Instance = (\<lambda>_. Ok ()),
     fetch_wasm = (\<lambda>_. Ok (Response (demo_response ct))), wasm_url = ''retardio_wallet_bg.wasm'',
     wbindgen_start = (\<lambda>_. None)\<rparr>"

definition demo_tab :: "(nat, nat) engine machine" where
  "demo_tab = \<lparr>console = [], world = \<lparr>wasm = None, instances = [], entropy = []\<rparr>\<rparr>"

text \<open>A module whose start function traps: the loading throws, and the next one succeeds.\<close>

theorem loaders_refine_init_witness:
  "let H = (demo_wasm_host None)\<lparr>wbindgen_start := \<lambda>_. Some (RuntimeError ''unreachable'')\<rparr>;
      r = initSync H (Compiled ()) demo_tab
    in fst r = Throw (RuntimeError ''unreachable'') \<and> wbg_init H Undef (snd r) = (Ok (), snd r)"
proof -
  let ?H = "(demo_wasm_host None)\<lparr>wbindgen_start := \<lambda>_. Some (RuntimeError ''unreachable'')\<rparr>"
  have r: "initSync ?H (Compiled ()) demo_tab = (Throw (RuntimeError ''unreachable''),
      \<lparr>console = [(WarnLevel, [LText ''using deprecated parameters for `initSync()`; pass a single object instead''])],
       world = new_instance (world demo_tab)\<rparr>)"
    by (simp add: initSync_def demo_tab_def demo_wasm_host_def unwrap_argument_def plain_object_def await_def io_simps
        wbg_finalize_init_def world_call_def)
  show ?thesis
    using loaders_refine_init [where H = ?H and a = "Compiled ()" and m = demo_tab, OF disjI2, OF refl]
    by (simp add: r Let_def new_instance_def)
qed

theorem download_without_type_witness:
  "wbg_init (demo_wasm_host None) Undef demo_tab =
    (Ok (), \<lparr>console = [(WarnLevel, [LText mime_warning, LThrown (TypeError ''Incorrect response MIME type'')])],
      world = new_instance (world demo_tab)\<rparr>)"
proof -
  have h: "wasm (world demo_tab) = None" "has_Response (demo_wasm_host None)" "has_URL (demo_wasm_host None)"
    "fetch_wasm (demo_wasm_host None) (Url (wasm_url (demo_wasm_host None))) = Ok (Response (demo_response None))"
    "instantiateStreaming (demo_wasm_host None) = Some (\<lambda>r. if contentType r = Some ''application/wasm'' then Ok ((), ())
       else Throw (TypeError ''Incorrect response MIME type''))"
    "(if contentType (demo_response None) = Some ''application/wasm'' then Ok ((), ())
       else Throw (TypeError ''Incorrect response MIME type'')) = Throw (TypeError ''Incorrect response MIME type'')"
    "\<forall>i. wbindgen_start (demo_wasm_host None) i = None"
    by (simp_all add: demo_tab_def demo_wasm_host_def demo_response_def)
  from download_without_type [OF h] show ?thesis
    by (simp add: demo_tab_def demo_wasm_host_def demo_response_def EXPECTED_RESPONSE_TYPES_def)
qed

end
