(* ===== verification/Wallet_Gc.thy ===== *)
theory Wallet_Gc
  imports Wallet_Js
begin

text \<open>
  The life of wallet objects (\<open>Wallet/pkg/retardio_wallet.js\<close>): every object is registered with the host's
  \<open>FinalizationRegistry\<close> under the address it holds, \<open>free()\<close> gives the memory back by hand, and the registry does so for
  objects that the host collects. Which objects are collected, and when, is up to the host: any time.
\<close>

section \<open>Objects\<close>

record ('s, 'p) objects =
  gc_eng :: "('s, 'p) engine"
  handle :: "nat \<Rightarrow> nat option"
  registry :: "nat \<Rightarrow> nat option"
  next_object :: nat

text \<open>\<open>handle\<close> is \<open>__wbg_ptr\<close> of the objects there are; \<open>registry\<close> is what the registry holds for each.\<close>

definition register_object :: "nat \<Rightarrow> ('s, 'p) objects \<Rightarrow> ('s, 'p) objects" where
  "register_object ptr s =
     s\<lparr>handle := (handle s)(next_object s := Some ptr), registry := (registry s)(next_object s := Some ptr),
       next_object := Suc (next_object s)\<rparr>"

definition construct_object :: "nat outcome \<times> ('s, 'p) engine \<Rightarrow> ('s, 'p) objects \<Rightarrow> ('s, 'p) objects" where
  "construct_object r s = (case r of
     (Ok ptr, g) \<Rightarrow> register_object ptr (s\<lparr>gc_eng := g\<rparr>)
   | (Throw e, g) \<Rightarrow> s\<lparr>gc_eng := g\<rparr>)"

definition destroy_into_raw :: "nat \<Rightarrow> ('s, 'p) objects \<Rightarrow> nat \<times> ('s, 'p) objects" where
  "destroy_into_raw i s =
     ((case handle s i of Some ptr \<Rightarrow> ptr | None \<Rightarrow> 0),
      s\<lparr>handle := (handle s)(i := Some 0), registry := (registry s)(i := None)\<rparr>)"

text \<open>\<open>__wbg_wallet_free\<close> of the current instance.\<close>

definition wallet_free :: "nat \<Rightarrow> ('s, 'p) objects \<Rightarrow> ('s, 'p) objects" where
  "wallet_free ptr s = s\<lparr>gc_eng := snd (snd (js_free ptr (gc_eng s)))\<rparr>"

definition object_free :: "nat \<Rightarrow> ('s, 'p) objects \<Rightarrow> ('s, 'p) objects" where
  "object_free i s = (case destroy_into_raw i s of (ptr, s') \<Rightarrow> wallet_free ptr s')"

text \<open>The host collects an object: it is gone, and the registry's callback runs when it was registered.\<close>

definition finalized :: "nat \<Rightarrow> ('s, 'p) objects \<Rightarrow> ('s, 'p) objects" where
  "finalized i s = (let s' = s\<lparr>handle := (handle s)(i := None), registry := (registry s)(i := None)\<rparr> in
     case registry s i of Some ptr \<Rightarrow> wallet_free ptr s' | None \<Rightarrow> s')"

section \<open>Steps\<close>

text \<open>\<open>again\<close> says whether another instance may be loaded on top of the one there is.\<close>

inductive gc_step ::
  "('m, 'x, 's, 'p, 'g) crypto \<Rightarrow> ('s, 'p) runtime \<Rightarrow> bool \<Rightarrow> ('s, 'p) objects \<Rightarrow> ('s, 'p) objects \<Rightarrow> bool"
  for c :: "('m, 'x, 's, 'p, 'g) crypto" and rt :: "('s, 'p) runtime" and again :: bool where
  constructed: "gc_step c rt again s (construct_object (js_new c rt p (gc_eng s)) s)"
| restored: "gc_step c rt again s (construct_object (js_fromMnemonic c rt phrase p (gc_eng s)) s)"
| imported: "gc_step c rt again s (construct_object (js_fromPrivateKey c rt hex (gc_eng s)) s)"
| freed: "handle s i \<noteq> None \<Longrightarrow> gc_step c rt again s (object_free i s)"
| collected: "handle s i \<noteq> None \<Longrightarrow> gc_step c rt again s (finalized i s)"
| reloaded: "again \<Longrightarrow> gc_step c rt again s (s\<lparr>gc_eng := new_instance (gc_eng s)\<rparr>)"

inductive_cases gc_stepE: "gc_step c rt again s t"

definition instantiated :: "byte list list \<Rightarrow> ('s, 'p) objects" where
  "instantiated rnds = \<lparr>gc_eng = new_instance \<lparr>wasm = None, instances = [], entropy = rnds\<rparr>,
     handle = (\<lambda>i. None), registry = (\<lambda>i. None), next_object = 0\<rparr>"

section \<open>The invariant\<close>

text \<open>
  The registry holds the addresses of the objects that were not freed; these are the addresses
  in use, and each belongs to one object.
\<close>

definition held :: "nat option \<Rightarrow> nat option" where
  "held h = (case h of Some p \<Rightarrow> if p = 0 then None else Some p | None \<Rightarrow> None)"

lemma held_simps [simp]: "held None = None" "held (Some 0) = None" "p \<noteq> 0 \<Longrightarrow> held (Some p) = Some p" "held h = Some p \<longleftrightarrow> h = Some p \<and> p \<noteq> 0"
  by (auto simp: held_def split: option.splits)

definition gc_inv :: "('s, 'p) objects \<Rightarrow> bool" where
  "gc_inv s = (engine_ok (gc_eng s) \<and> wasm (gc_eng s) \<noteq> None \<and>
     (\<forall>i. registry s i = held (handle s i)) \<and>
     (\<forall>i j p. registry s i = Some p \<longrightarrow> registry s j = Some p \<longrightarrow> i = j) \<and>
     (\<forall>p. boxes (gc_eng s) p \<noteq> None \<longleftrightarrow> (\<exists>i. registry s i = Some p)) \<and>
     (\<forall>i. next_object s \<le> i \<longrightarrow> handle s i = None))"

lemma gc_invD:
  assumes "gc_inv s"
  shows "engine_ok (gc_eng s)" "wasm (gc_eng s) \<noteq> None"
    "registry s i = held (handle s i)"
    "registry s i = Some p \<Longrightarrow> registry s j = Some p \<Longrightarrow> i = j"
    "boxes (gc_eng s) p \<noteq> None \<longleftrightarrow> (\<exists>i. registry s i = Some p)" "next_object s \<le> i \<Longrightarrow> handle s i = None"
  using assms unfolding gc_inv_def by blast+

lemma gc_invI:
  assumes "engine_ok (gc_eng s)" "wasm (gc_eng s) \<noteq> None" "\<And>i. registry s i = held (handle s i)"
    "\<And>i j p. registry s i = Some p \<Longrightarrow> registry s j = Some p \<Longrightarrow> i = j"
    "\<And>p. boxes (gc_eng s) p \<noteq> None \<longleftrightarrow> (\<exists>i. registry s i = Some p)" "\<And>i. next_object s \<le> i \<Longrightarrow> handle s i = None"
  shows "gc_inv s"
  using assms unfolding gc_inv_def by blast

lemma instantiated_inv: "gc_inv (instantiated rnds)"
  by (rule gc_invI) (simp_all add: instantiated_def new_instance_def engine_ok_def boxes_def heap_of_def)

lemma free_engine:
  assumes "engine_ok g" "wasm g \<noteq> None"
  shows "boxes (snd (snd (js_free p g))) = (if p = 0 then boxes g else (boxes g)(p := None))"
    "engine_ok (snd (snd (js_free p g)))" "wasm (snd (snd (js_free p g))) = wasm g"
proof -
  have "map_of (filter (\<lambda>(q, w). q \<noteq> p) h) = (map_of h)(p := None)" for h :: "('s, 'p) heap" and p
    by (induction h) auto
  then show "boxes (snd (snd (js_free p g))) = (if p = 0 then boxes g else (boxes g)(p := None))"
    "engine_ok (snd (snd (js_free p g)))" "wasm (snd (snd (js_free p g))) = wasm g"
    using assms by (auto simp: js_free_def boxes_def heap_of_set_heap split: option.splits)
qed

lemma same_boxes_inv:
  assumes "gc_inv s" "engine_ok g" "wasm g \<noteq> None" "boxes g = boxes (gc_eng s)"
  shows "gc_inv (s\<lparr>gc_eng := g\<rparr>)"
proof -
  have sel: "gc_eng (s\<lparr>gc_eng := g\<rparr>) = g" "registry (s\<lparr>gc_eng := g\<rparr>) = registry s" "handle (s\<lparr>gc_eng := g\<rparr>) = handle s"
    "next_object (s\<lparr>gc_eng := g\<rparr>) = next_object s" by simp_all
  show ?thesis using assms(1-3) unfolding gc_inv_def sel assms(4) by blast
qed

lemma register_inv:
  assumes "gc_inv s" "engine_ok g" "wasm g \<noteq> None" "p \<noteq> 0" "boxes (gc_eng s) p = None" "boxes g = (boxes (gc_eng s))(p \<mapsto> w)"
  shows "gc_inv (register_object p (s\<lparr>gc_eng := g\<rparr>))" (is "gc_inv ?t")
proof (rule gc_invI)
  note inv = gc_invD [OF assms(1)]
  have sel: "registry ?t = (registry s)(next_object s \<mapsto> p)" "handle ?t = (handle s)(next_object s \<mapsto> p)" "gc_eng ?t = g"
    "next_object ?t = Suc (next_object s)" by (simp_all add: register_object_def)
  have "\<nexists>i. registry s i = Some p" using inv(5) [of p] assms(5) by simp
  then have free: "registry s i \<noteq> Some p" for i by blast
  have fresh: "registry s (next_object s) = None" using inv(3) [of "next_object s"] inv(6) [of "next_object s"] by simp
  have more: "((registry s)(next_object s \<mapsto> p)) i = Some q \<longleftrightarrow> i = next_object s \<and> q = p \<or> registry s i = Some q" for i q
    using fresh by (cases "i = next_object s") auto
  show "boxes (gc_eng ?t) q \<noteq> None \<longleftrightarrow> (\<exists>i. registry ?t i = Some q)" for q
    unfolding sel more using inv(5) [of q] by (cases "q = p") (auto simp: assms(6))
  show "i = j" if "registry ?t i = Some q" "registry ?t j = Some q" for i j q
    using that inv(4) [of i q j] free [of i] free [of j] unfolding sel more by blast
  show "registry ?t i = held (handle ?t i)" for i
    unfolding sel using inv(3) [of i] assms(4) by (cases "i = next_object s") simp_all
  show "handle ?t i = None" if "next_object ?t \<le> i" for i
    using that inv(6) [of i] unfolding sel by simp
  show "engine_ok (gc_eng ?t)" "wasm (gc_eng ?t) \<noteq> None" unfolding sel using assms(2,3) by simp_all
qed

lemma construct_inv:
  assumes "runtime_ok rt" "gc_inv s" "g = gc_eng s \<or> g = (gc_eng s)\<lparr>entropy := e\<rparr>"
  shows "gc_inv (construct_object (make_wallet rt f k g) s)"
proof -
  have g: "engine_ok g" "wasm g \<noteq> None" "boxes g = boxes (gc_eng s)" using gc_invD(1,2) [OF assms(2)] assms(3) by auto
  show ?thesis
    using assms(1) g(1,2)
  proof (cases rule: make_wallet_cases [where r = k and f = f])
    case (made w p g')
    have "wasm g' \<noteq> None" using made(6) g(2) by simp
    from register_inv [OF assms(2) made(7) this made(3), of w] made(4,5) g(3) show ?thesis
      by (simp add: made(2) construct_object_def)
  next
    case (failed e)
    then show ?thesis using same_boxes_inv [OF assms(2) g] by (simp add: construct_object_def)
  next
    case (panicked q)
    then show ?thesis using same_boxes_inv [OF assms(2) g] by (simp add: construct_object_def)
  qed
qed

text \<open>Giving up the registered address of an object, which the object then no longer holds.\<close>

lemma release_inv:
  assumes "gc_inv s" "h = None \<or> h = Some 0"
    and "registry s i = Some ptr \<or> registry s i = None \<and> ptr = 0" "handle s i \<noteq> None"
  shows "gc_inv (wallet_free ptr (s\<lparr>handle := (handle s)(i := h), registry := (registry s)(i := None)\<rparr>))" (is "gc_inv ?t")
proof (rule gc_invI)
  note inv = gc_invD [OF assms(1)]
  note f = free_engine [OF inv(1,2), of ptr]
  have t: "handle ?t = (handle s)(i := h)" "registry ?t = (registry s)(i := None)" "next_object ?t = next_object s"
    "gc_eng ?t = snd (snd (js_free ptr (gc_eng s)))" by (simp_all add: wallet_free_def)
  show "engine_ok (gc_eng ?t)" "wasm (gc_eng ?t) \<noteq> None" using f(2,3) inv(2) by (simp_all add: t)
  show "registry ?t j = held (handle ?t j)" for j using inv(3) assms(2) by (auto simp: t)
  show "j = k" if "registry ?t j = Some p" "registry ?t k = Some p" for j k p
    using that inv(4) by (auto simp: t split: if_splits)
  show "boxes (gc_eng ?t) p \<noteq> None \<longleftrightarrow> (\<exists>j. registry ?t j = Some p)" for p
  proof (cases "registry s i = Some p")
    case True
    then have "ptr = p" "p \<noteq> 0" using assms(3) inv(3) [of i] by auto
    moreover have "registry s j \<noteq> Some p" if "j \<noteq> i" for j using inv(4) [OF True] that by blast
    ultimately show ?thesis unfolding t f(1) by auto
  next
    case False
    then have "p \<noteq> ptr \<or> ptr = 0" using assms(3) by auto
    then show ?thesis using inv(5) [of p] False unfolding t f(1) by (auto split: if_splits)
  qed
  show "handle ?t j = None" if "next_object ?t \<le> j" for j
    using that inv(6) [of j] assms(4) by (auto simp: t)
qed

lemma wallet_free_null: "wasm (gc_eng s) \<noteq> None \<Longrightarrow> wallet_free 0 s = s"
  by (auto simp: wallet_free_def js_free_def)

lemma gc_step_inv:
  assumes "runtime_ok rt" "gc_step c rt False s t" "gc_inv s"
  shows "gc_inv t"
  using assms(2)
proof cases
  case (constructed p)
  then show ?thesis using construct_inv [OF assms(1,3) disjI2 [OF refl]] by (simp add: js_new_def Let_def)
next
  case (restored phrase p)
  then show ?thesis using construct_inv [OF assms(1,3) disjI1 [OF refl]] by (simp add: js_fromMnemonic_def)
next
  case (imported hex)
  then show ?thesis using construct_inv [OF assms(1,3) disjI1 [OF refl]] by (simp add: js_fromPrivateKey_def)
next
  case (freed i)
  then obtain p where p: "handle s i = Some p" by blast
  then have "registry s i = Some p \<or> registry s i = None \<and> p = 0" using gc_invD(3) [OF assms(3), of i] by (cases "p = 0") simp_all
  from release_inv [OF assms(3) _ this] p freed show ?thesis by (simp add: object_free_def destroy_into_raw_def)
next
  case (collected i)
  show ?thesis
  proof (cases "registry s i")
    case None
    have "gc_inv (wallet_free 0 (s\<lparr>handle := (handle s)(i := None), registry := (registry s)(i := None)\<rparr>))"
      using release_inv [OF assms(3) _ _ collected(2), of None 0] None by simp
    then show ?thesis using collected None gc_invD(2) [OF assms(3)] by (simp add: finalized_def wallet_free_null)
  next
    case (Some p)
    then show ?thesis using release_inv [OF assms(3) _ _ collected(2), of None p] collected by (simp add: finalized_def)
  qed
qed simp

interpretation gc_run: transition_system "\<lambda>s. \<exists>rnds. s = instantiated rnds" "gc_step c rt False" "\<lambda>s. runtime_ok rt \<longrightarrow> gc_inv s"
  by unfold_locales (use instantiated_inv gc_step_inv in blast)+

lemma reached_gc_inv:
  assumes "runtime_ok rt" "(gc_step c rt False)\<^sup>*\<^sup>* (instantiated rnds) s"
  shows "gc_inv s"
  using gc_run.reached_inv [OF _ assms(2)] assms(1) by blast

section \<open>Handles and memory\<close>

text \<open>
  C9: as long as there is one instance, a wallet object is never left with an address that is not its own: whatever is made,
  freed by hand and collected, an object that was not freed holds the address of a wallet, no other object holds it,
  and it answers; a freed one refuses. And nothing leaks: every wallet in the memory belongs to an object.
\<close>

theorem handles_well_typed:
  assumes "runtime_ok rt" "(gc_step c rt False)\<^sup>*\<^sup>* (instantiated rnds) s"
  shows "(\<forall>i p. handle s i = Some p \<longrightarrow>
      (if p = 0 then js_address c rt p (gc_eng s) = Throw (ErrorObj ''null pointer passed to rust'')
       else (\<exists>w. boxes (gc_eng s) p = Some w \<and> js_address c rt p (gc_eng s) = Ok (address c w)) \<and> (\<forall>j. handle s j = Some p \<longrightarrow> j = i))) \<and>
    (\<forall>p. boxes (gc_eng s) p \<noteq> None \<longrightarrow> (\<exists>i. handle s i = Some p \<and> p \<noteq> 0))"
proof (intro conjI allI impI)
  note inv = gc_invD [OF reached_gc_inv [OF assms]]
  fix i p assume h: "handle s i = Some p"
  show "if p = 0 then js_address c rt p (gc_eng s) = Throw (ErrorObj ''null pointer passed to rust'')
       else (\<exists>w. boxes (gc_eng s) p = Some w \<and> js_address c rt p (gc_eng s) = Ok (address c w)) \<and> (\<forall>j. handle s j = Some p \<longrightarrow> j = i)"
  proof (cases "p = 0")
    case True
    then show ?thesis using inv(2) by (auto simp: js_address_def call_method_def export_call_def)
  next
    case False
    then have r: "registry s j = Some p" if "handle s j = Some p" for j using inv(3) [of j] that by simp
    then obtain w where w: "boxes (gc_eng s) p = Some w" using inv(5) [of p] h by blast
    then have "js_address c rt p (gc_eng s) = Ok (address c w)" by (simp add: js_address_def method_box [OF inv(2) False w])
    then show ?thesis using False w r inv(4) h by auto
  qed
next
  note inv = gc_invD [OF reached_gc_inv [OF assms]]
  fix p assume "boxes (gc_eng s) p \<noteq> None"
  then obtain i where "registry s i = Some p" using inv(5) [of p] by blast
  then show "\<exists>i. handle s i = Some p \<and> p \<noteq> 0" using inv(3) [of i] by auto
qed

text \<open>
  With a second instance this fails: the wallet that is left over from the first instance, when it is collected, frees the wallet
  at the same address in the second, whose object still holds it.
\<close>

theorem finalizer_frees_another:
  assumes "new_random c r1 p1 = ROk w1" "new_random c r2 p2 = ROk w2" "alloc rt [] \<noteq> 0"
  shows "\<exists>s q. (gc_step c rt True)\<^sup>*\<^sup>* (instantiated [r1, r2]) s \<and> handle s 0 = None \<and> handle s 1 = Some q \<and> q \<noteq> 0 \<and> boxes (gc_eng s) q = None"
proof -
  let ?q = "alloc rt []"
  let ?s1 = "construct_object (js_new c rt p1 (gc_eng (instantiated [r1, r2]))) (instantiated [r1, r2])"
  let ?s2 = "?s1\<lparr>gc_eng := new_instance (gc_eng ?s1)\<rparr>"
  let ?s3 = "construct_object (js_new c rt p2 (gc_eng ?s2)) ?s2"
  let ?s4 = "finalized 0 ?s3"
  have s1: "?s1 = \<lparr>gc_eng = \<lparr>wasm = Some 0, instances = [[(?q, w1)]], entropy = [r2]\<rparr>, handle = [0 \<mapsto> ?q], registry = [0 \<mapsto> ?q], next_object = 1\<rparr>"
    using assms(1) by (simp add: instantiated_def new_instance_def js_new_def make_wallet_def export_call_def store_box_def heap_of_def
      set_heap_def construct_object_def register_object_def Let_def)
  have s3: "?s3 = \<lparr>gc_eng = \<lparr>wasm = Some 1, instances = [[(?q, w1)], [(?q, w2)]], entropy = []\<rparr>, handle = [0 \<mapsto> ?q, 1 \<mapsto> ?q],
      registry = [0 \<mapsto> ?q, 1 \<mapsto> ?q], next_object = 2\<rparr>"
    unfolding s1 using assms(2) by (simp add: new_instance_def js_new_def make_wallet_def export_call_def store_box_def heap_of_def
      set_heap_def construct_object_def register_object_def Let_def)
  have s4: "handle ?s4 0 = None" "handle ?s4 1 = Some ?q" "boxes (gc_eng ?s4) ?q = None"
    unfolding s3 using assms(3) by (simp_all add: finalized_def wallet_free_def js_free_def boxes_def heap_of_def set_heap_def Let_def)
  have "gc_step c rt True (instantiated [r1, r2]) ?s1" by (rule constructed)
  moreover have "gc_step c rt True ?s1 ?s2" by (rule reloaded) simp
  moreover have "gc_step c rt True ?s2 ?s3" by (rule constructed)
  moreover have "gc_step c rt True ?s3 ?s4" by (rule collected, unfold s3, simp)
  ultimately have "(gc_step c rt True)\<^sup>*\<^sup>* (instantiated [r1, r2]) ?s4" by (meson converse_rtranclp_into_rtranclp rtranclp.rtrancl_refl)
  then show ?thesis using s4 assms(3) by blast
qed

definition demo_objects :: "(char, char) objects" where
  "demo_objects = construct_object (js_new demo_crypto demo_runtime None (gc_eng (instantiated [[65, 66]]))) (instantiated [[65, 66]])"

theorem handles_well_typed_witness:
  "handle demo_objects 0 = Some 1 \<and> (\<exists>w. js_address demo_crypto demo_runtime 1 (gc_eng demo_objects) = Ok (address demo_crypto w))"
proof -
  have step: "gc_step demo_crypto demo_runtime False (instantiated [[65, 66]]) demo_objects"
    unfolding demo_objects_def by (rule constructed)
  have "\<exists>w. new_random demo_crypto [65, 66] None = ROk w"
    by (simp add: new_random_def demo_crypto_def rust_cases derive_path_def child_path_def unwrap_def expect_def ok_or_def)
  then have "handle demo_objects 0 = Some 1"
    by (auto simp: demo_objects_def instantiated_def new_instance_def js_new_def make_wallet_def export_call_def store_box_def heap_of_def
      set_heap_def construct_object_def register_object_def demo_runtime_def Let_def)
  with handles_well_typed [OF demo_runtime_ok r_into_rtranclp, OF step] show ?thesis by (metis zero_neq_one)
qed

theorem finalizer_frees_another_witness:
  "\<exists>s q. (gc_step demo_crypto demo_runtime True)\<^sup>*\<^sup>* (instantiated [[65, 66], [67, 68]]) s \<and> handle s 1 = Some q \<and> q \<noteq> 0 \<and> boxes (gc_eng s) q = None"
proof -
  have "\<exists>w. new_random demo_crypto [65, 66] None = ROk w" "\<exists>w. new_random demo_crypto [67, 68] None = ROk w"
    by (simp_all add: new_random_def demo_crypto_def rust_cases derive_path_def child_path_def unwrap_def expect_def ok_or_def)
  moreover have "alloc demo_runtime [] \<noteq> 0" by (simp add: demo_runtime_def)
  ultimately show ?thesis using finalizer_frees_another [where c = demo_crypto and rt = demo_runtime] by blast
qed

end
