(* ===== verification/Electron_Shell.thy ===== *)
theory Electron_Shell
  imports Prelude
begin

text \<open>
  The desktop shell of the wallet (\<open>Wallet/main_electron.js\<close>, \<open>Wallet/preload.js\<close>): the listeners that the scripts register,
  as the steps of a relation. Electron is a parameter: its operations on windows, and the relation by which it moves
  and emits events. What the shell relies on of it is the hypothesis \<open>electron_ok\<close>, which states the documented
  behaviour of these operations.
\<close>

section \<open>Electron\<close>

record window_options =
  win_width :: nat
  win_height :: nat
  backgroundColor :: string
  nodeIntegration :: bool
  contextIsolation :: bool
  preload :: string
  autoHideMenuBar :: bool
  win_title :: string

datatype app_event = Ready | Activate | WindowAllClosed | PageLoaded

text \<open>
  The operations that the scripts call, on a state \<open>'e\<close> of Electron whose form is left open. \<open>emits ev e e'\<close>: Electron goes from
  \<open>e\<close> to \<open>e'\<close> on its own account, and emits the event, or nothing that a script listens for. \<open>resolved\<close>, \<open>options_of\<close> and
  \<open>terminated\<close> only observe: that the promise of \<open>whenReady\<close> has been settled, the options a window was made with, the end of the process.
\<close>

record 'e electron =
  platform :: string
  dirname :: string
  path_join :: "string \<Rightarrow> string \<Rightarrow> string"
  new_BrowserWindow :: "window_options \<Rightarrow> 'e \<Rightarrow> nat \<times> 'e"
  loadFile :: "nat \<Rightarrow> string \<Rightarrow> 'e \<Rightarrow> 'e"
  getAllWindows :: "'e \<Rightarrow> nat list"
  app_quit :: "'e \<Rightarrow> 'e"
  emits :: "app_event option \<Rightarrow> 'e \<Rightarrow> 'e \<Rightarrow> bool"
  resolved :: "'e \<Rightarrow> bool"
  options_of :: "'e \<Rightarrow> nat \<Rightarrow> window_options"
  terminated :: "'e \<Rightarrow> bool"

text \<open>Nothing opened, and what was opened before is as it was made.\<close>

definition no_new_window :: "'e electron \<Rightarrow> 'e \<Rightarrow> 'e \<Rightarrow> bool" where
  "no_new_window E e e' = (length (getAllWindows E e') \<le> length (getAllWindows E e) \<and>
     (\<forall>w \<in> set (getAllWindows E e'). w \<in> set (getAllWindows E e) \<and> options_of E e' w = options_of E e w))"

text \<open>
  The documented behaviour: a window is opened by its constructor alone, is then listed and keeps its options;
  the promise of \<open>whenReady\<close> is settled once; the event \<open>window-all-closed\<close> comes when no window is left;
  \<open>quit\<close> ends an application that has no window to keep it.
\<close>

definition electron_ok :: "'e electron \<Rightarrow> bool" where
  "electron_ok E \<longleftrightarrow>
     (\<forall>opts e w e'. new_BrowserWindow E opts e = (w, e') \<longrightarrow>
        w \<notin> set (getAllWindows E e) \<and> getAllWindows E e' = getAllWindows E e @ [w] \<and> options_of E e' w = opts \<and>
        (\<forall>v \<in> set (getAllWindows E e). options_of E e' v = options_of E e v) \<and> resolved E e' = resolved E e) \<and>
     (\<forall>w file e. getAllWindows E (loadFile E w file e) = getAllWindows E e \<and>
        options_of E (loadFile E w file e) = options_of E e \<and> resolved E (loadFile E w file e) = resolved E e) \<and>
     (\<forall>e. no_new_window E e (app_quit E e) \<and> resolved E (app_quit E e) = resolved E e \<and>
        (getAllWindows E e = [] \<longrightarrow> terminated E (app_quit E e))) \<and>
     (\<forall>ev e e'. emits E ev e e' \<longrightarrow> no_new_window E e e' \<and>
        (if ev = Some Ready then \<not> resolved E e \<and> resolved E e' else resolved E e' = resolved E e) \<and>
        (ev = Some WindowAllClosed \<longrightarrow> getAllWindows E e' = []))"

section \<open>The scripts\<close>

record 'e shell =
  app :: 'e
  on_activate :: bool
  page_console :: "string list"

definition window_config :: "'e electron \<Rightarrow> window_options" where
  "window_config E = \<lparr>win_width = 1000, win_height = 800, backgroundColor = ''#0a0a0f'',
     nodeIntegration = False, contextIsolation = True, preload = path_join E (dirname E) ''preload.js'',
     autoHideMenuBar = True, win_title = ''Retardio Wallet''\<rparr>"

definition createWindow :: "'e electron \<Rightarrow> 'e shell \<Rightarrow> 'e shell" where
  "createWindow E s = (let (win, e) = new_BrowserWindow E (window_config E) (app s) in s\<lparr>app := loadFile E win ''index.html'' e\<rparr>)"

definition when_ready :: "'e electron \<Rightarrow> 'e shell \<Rightarrow> 'e shell" where
  "when_ready E s = (createWindow E s)\<lparr>on_activate := True\<rparr>"

definition activate :: "'e electron \<Rightarrow> 'e shell \<Rightarrow> 'e shell" where
  "activate E s = (if length (getAllWindows E (app s)) = 0 then createWindow E s else s)"

definition window_all_closed :: "'e electron \<Rightarrow> 'e shell \<Rightarrow> 'e shell" where
  "window_all_closed E s = (if platform E \<noteq> ''darwin'' then s\<lparr>app := app_quit E (app s)\<rparr> else s)"

text \<open>The listener of \<open>preload.js\<close>, which runs in a window whenever its page has loaded.\<close>

definition DOMContentLoaded :: "'e shell \<Rightarrow> 'e shell" where
  "DOMContentLoaded s = s\<lparr>page_console := page_console s @ [''Retardio Wallet wrapper loaded'']\<rparr>"

text \<open>What the scripts do with an event: \<open>activate\<close> has a listener only once the application was ready.\<close>

fun on_event :: "'e electron \<Rightarrow> app_event option \<Rightarrow> 'e shell \<Rightarrow> 'e shell" where
  "on_event E None s = s"
| "on_event E (Some Ready) s = when_ready E s"
| "on_event E (Some Activate) s = (if on_activate s then activate E s else s)"
| "on_event E (Some WindowAllClosed) s = window_all_closed E s"
| "on_event E (Some PageLoaded) s = DOMContentLoaded s"

inductive shell_step :: "'e electron \<Rightarrow> 'e shell \<Rightarrow> 'e shell \<Rightarrow> bool" for E :: "'e electron" where
  event: "emits E ev (app s) e \<Longrightarrow> shell_step E s (on_event E ev (s\<lparr>app := e\<rparr>))"

text \<open>The script has run, and Electron is not ready yet.\<close>

definition launched :: "'e electron \<Rightarrow> 'e shell \<Rightarrow> bool" where
  "launched E s \<longleftrightarrow> getAllWindows E (app s) = [] \<and> \<not> resolved E (app s) \<and> \<not> on_activate s \<and> page_console s = []"

section \<open>The invariant\<close>

definition shell_inv :: "'e electron \<Rightarrow> 'e shell \<Rightarrow> bool" where
  "shell_inv E s \<longleftrightarrow> length (getAllWindows E (app s)) \<le> 1 \<and> on_activate s = resolved E (app s) \<and>
     (\<not> on_activate s \<longrightarrow> getAllWindows E (app s) = []) \<and>
     (\<forall>w \<in> set (getAllWindows E (app s)). options_of E (app s) w = window_config E)"

lemma window_opened:
  assumes "electron_ok E" "new_BrowserWindow E opts e = (w, e')"
  shows "getAllWindows E e' = getAllWindows E e @ [w]" "options_of E e' w = opts" "resolved E e' = resolved E e"
  using conjunct1 [OF assms(1) [unfolded electron_ok_def]] assms(2) by blast+

lemma file_loaded:
  assumes "electron_ok E"
  shows "getAllWindows E (loadFile E w file e) = getAllWindows E e" "options_of E (loadFile E w file e) = options_of E e"
    "resolved E (loadFile E w file e) = resolved E e"
  using assms unfolding electron_ok_def by blast+

lemma quitted:
  assumes "electron_ok E"
  shows "no_new_window E e (app_quit E e)" "resolved E (app_quit E e) = resolved E e"
    "getAllWindows E e = [] \<Longrightarrow> terminated E (app_quit E e)"
  using assms unfolding electron_ok_def by blast+

lemma event_emitted:
  assumes "electron_ok E" "emits E ev e e'"
  shows "no_new_window E e e'" "if ev = Some Ready then \<not> resolved E e \<and> resolved E e' else resolved E e' = resolved E e"
    "ev = Some WindowAllClosed \<Longrightarrow> getAllWindows E e' = []"
proof -
  from assms(1) have "\<forall>ev e e'. emits E ev e e' \<longrightarrow> no_new_window E e e' \<and>
      (if ev = Some Ready then \<not> resolved E e \<and> resolved E e' else resolved E e' = resolved E e) \<and>
      (ev = Some WindowAllClosed \<longrightarrow> getAllWindows E e' = [])" unfolding electron_ok_def by blast
  with assms(2) show "no_new_window E e e'" "if ev = Some Ready then \<not> resolved E e \<and> resolved E e' else resolved E e' = resolved E e"
    "ev = Some WindowAllClosed \<Longrightarrow> getAllWindows E e' = []" by blast+
qed

lemma createWindow_opens:
  assumes "electron_ok E" "getAllWindows E (app s) = []"
  shows "\<exists>w. getAllWindows E (app (createWindow E s)) = [w] \<and> options_of E (app (createWindow E s)) w = window_config E"
    "resolved E (app (createWindow E s)) = resolved E (app s)" "on_activate (createWindow E s) = on_activate s"
proof -
  obtain w e where n: "new_BrowserWindow E (window_config E) (app s) = (w, e)" by fastforce
  note * = window_opened [OF assms(1) n] file_loaded [OF assms(1)]
  show "\<exists>w. getAllWindows E (app (createWindow E s)) = [w] \<and> options_of E (app (createWindow E s)) w = window_config E"
    "resolved E (app (createWindow E s)) = resolved E (app s)" "on_activate (createWindow E s) = on_activate s"
    by (simp_all add: createWindow_def n * assms(2))
qed

lemma no_new_window_inv:
  assumes "no_new_window E e e'" "shell_inv E (s\<lparr>app := e\<rparr>)" "resolved E e' = resolved E e"
  shows "shell_inv E (s\<lparr>app := e'\<rparr>)"
  using assms by (auto simp: shell_inv_def no_new_window_def)

lemma createWindow_inv:
  assumes "electron_ok E" "getAllWindows E (app s) = []" "on_activate s = resolved E (app s)" "on_activate s"
  shows "shell_inv E (createWindow E s)"
  using createWindow_opens [OF assms(1,2)] assms(3,4) by (auto simp: shell_inv_def)

lemma shell_step_inv:
  assumes "shell_step E s t" "electron_ok E" "shell_inv E s"
  shows "shell_inv E t"
  using assms
proof (induction rule: shell_step.induct)
  case (event ev s e)
  note em = event_emitted [OF event.prems(1) event.hyps]
  let ?s = "s\<lparr>app := e\<rparr>"
  have s: "shell_inv E (s\<lparr>app := app s\<rparr>)" using event.prems(2) by simp
  show ?case
  proof (cases "ev = Some Ready")
    case True
    then have r: "\<not> resolved E (app s)" "resolved E e" using em(2) by simp_all
    then have "getAllWindows E (app s) = []" using event.prems(2) by (auto simp: shell_inv_def)
    then have w: "getAllWindows E (app ?s) = []" using em(1) by (simp add: no_new_window_def)
    show ?thesis using createWindow_opens [OF event.prems(1) w] r True by (auto simp: shell_inv_def when_ready_def)
  next
    case False
    then have i: "shell_inv E ?s" using no_new_window_inv [OF em(1) s] em(2) by simp
    consider "ev = None" | "ev = Some Activate" | "ev = Some WindowAllClosed" | "ev = Some PageLoaded"
      using False by (metis app_event.exhaust not_None_eq)
    then show ?thesis
    proof cases
      case 2
      then show ?thesis using i createWindow_inv [OF event.prems(1), of ?s] by (auto simp: activate_def shell_inv_def)
    next
      case 3
      then show ?thesis using i no_new_window_inv [OF quitted(1) [OF event.prems(1)] i quitted(2) [OF event.prems(1)]]
        by (simp add: window_all_closed_def)
    next
      case 4
      then show ?thesis using i by (simp add: DOMContentLoaded_def shell_inv_def)
    qed (use i in simp)
  qed
qed

interpretation shell_run: transition_system "launched E" "shell_step E" "\<lambda>s. electron_ok E \<longrightarrow> shell_inv E s"
proof unfold_locales
  show "electron_ok E \<longrightarrow> shell_inv E t" if "shell_step E s t" "electron_ok E \<longrightarrow> shell_inv E s" for s t
    using that shell_step_inv by blast
qed (simp add: shell_inv_def launched_def)

text \<open>
  C35: under the documented behaviour of Electron and however its events come, the shell never has two windows, and the
  one it has was made without Node and isolated from it. Once the application was ready, its activation leaves exactly one window
  open, a new one if there was none; the event that the last window has closed ends the process, except on macOS, where it
  leaves all as it is.
\<close>

theorem one_isolated_window:
  assumes "electron_ok E" "launched E s0" "(shell_step E)\<^sup>*\<^sup>* s0 s" "emits E ev (app s) e"
  shows "length (getAllWindows E (app s)) \<le> 1 \<and>
    (\<forall>w \<in> set (getAllWindows E (app s)). \<not> nodeIntegration (options_of E (app s) w) \<and> contextIsolation (options_of E (app s) w)) \<and>
    (ev = Some Activate \<and> resolved E (app s) \<longrightarrow>
      (\<exists>w. getAllWindows E (app (on_event E ev (s\<lparr>app := e\<rparr>))) = [w] \<and> (getAllWindows E e \<noteq> [] \<longrightarrow> getAllWindows E e = [w]))) \<and>
    (ev = Some WindowAllClosed \<longrightarrow>
      (if platform E = ''darwin'' then on_event E ev (s\<lparr>app := e\<rparr>) = s\<lparr>app := e\<rparr> else terminated E (app (on_event E ev (s\<lparr>app := e\<rparr>)))))"
proof (intro conjI impI)
  have inv: "shell_inv E s" using shell_run.reached_inv [OF assms(2,3)] assms(1) by blast
  note em = event_emitted [OF assms(1,4)]
  show "length (getAllWindows E (app s)) \<le> 1" using inv by (simp add: shell_inv_def)
  show "\<forall>w \<in> set (getAllWindows E (app s)). \<not> nodeIntegration (options_of E (app s) w) \<and> contextIsolation (options_of E (app s) w)"
    using inv by (simp add: shell_inv_def window_config_def)
  show "\<exists>w. getAllWindows E (app (on_event E ev (s\<lparr>app := e\<rparr>))) = [w] \<and> (getAllWindows E e \<noteq> [] \<longrightarrow> getAllWindows E e = [w])"
    if "ev = Some Activate \<and> resolved E (app s)"
  proof -
    have a: "on_activate s" "length (getAllWindows E e) \<le> 1" using that inv em(1) by (auto simp: shell_inv_def no_new_window_def)
    show ?thesis
    proof (cases "getAllWindows E e = []")
      case True
      then show ?thesis using createWindow_opens(1) [OF assms(1), of "s\<lparr>app := e\<rparr>"] that a by (auto simp: activate_def)
    next
      case False
      then obtain w where "getAllWindows E e = [w]" using a(2) by (cases "getAllWindows E e") auto
      then show ?thesis using that a by (simp add: activate_def)
    qed
  qed
  show "if platform E = ''darwin'' then on_event E ev (s\<lparr>app := e\<rparr>) = s\<lparr>app := e\<rparr> else terminated E (app (on_event E ev (s\<lparr>app := e\<rparr>)))"
    if "ev = Some WindowAllClosed"
    using that em(3) quitted(3) [OF assms(1)] by (simp add: window_all_closed_def)
qed

section \<open>An example\<close>

record demo_app =
  open_windows :: "nat list"
  made_with :: "nat \<Rightarrow> window_options"
  next_window :: nat
  was_ready :: bool
  has_quit :: bool

fun demo_emits :: "app_event option \<Rightarrow> demo_app \<Rightarrow> demo_app \<Rightarrow> bool" where
  "demo_emits (Some Ready) e e' = (\<not> was_ready e \<and> e' = e\<lparr>was_ready := True\<rparr>)"
| "demo_emits (Some WindowAllClosed) e e' = (open_windows e \<noteq> [] \<and> e' = e\<lparr>open_windows := []\<rparr>)"
| "demo_emits _ e e' = (e' = e)"

definition demo_electron :: "demo_app electron" where
  "demo_electron = \<lparr>platform = ''darwin'', dirname = ''/opt/wallet'', path_join = (\<lambda>a b. a @ ''/'' @ b),
     new_BrowserWindow = (\<lambda>opts e. let w = foldr max (open_windows e) (next_window e) in
       (Suc w, e\<lparr>open_windows := open_windows e @ [Suc w], made_with := (made_with e)(Suc w := opts), next_window := Suc w\<rparr>)),
     loadFile = (\<lambda>w file e. e), getAllWindows = open_windows,
     app_quit = (\<lambda>e. e\<lparr>open_windows := [], has_quit := True\<rparr>),
     emits = demo_emits, resolved = was_ready, options_of = made_with, terminated = has_quit\<rparr>"

lemma demo_electron_ok: "electron_ok demo_electron"
proof -
  have m: "j \<in> set xs \<Longrightarrow> j \<le> foldr max xs (k :: nat)" for j xs k by (induction xs) auto
  have n: "Suc (foldr max xs k) \<notin> set xs" for xs and k :: nat using m [of "Suc (foldr max xs k)" xs k] by auto
  have e: "demo_emits ev e e' \<longrightarrow> no_new_window demo_electron e e' \<and>
      (if ev = Some Ready then \<not> was_ready e \<and> was_ready e' else was_ready e' = was_ready e) \<and>
      (ev = Some WindowAllClosed \<longrightarrow> open_windows e' = [])" for ev e e'
    by (cases "(ev, e, e')" rule: demo_emits.cases) (auto simp: no_new_window_def demo_electron_def)
  have q: "no_new_window demo_electron e (e\<lparr>open_windows := [], has_quit := True\<rparr>)" for e
    by (simp add: no_new_window_def demo_electron_def)
  show ?thesis
    unfolding electron_ok_def using e q n by (auto simp: demo_electron_def Let_def)
qed

text \<open>A run on macOS: ready, the window closed, and activated again.\<close>

definition demo_launched :: "demo_app shell" where
  "demo_launched = \<lparr>app = \<lparr>open_windows = [], made_with = (\<lambda>_. window_config demo_electron), next_window = 0, was_ready = False, has_quit = False\<rparr>,
     on_activate = False, page_console = []\<rparr>"

definition demo_closed :: "demo_app shell" where
  "demo_closed = (let s = when_ready demo_electron (demo_launched\<lparr>app := (app demo_launched)\<lparr>was_ready := True\<rparr>\<rparr>) in
     s\<lparr>app := (app s)\<lparr>open_windows := []\<rparr>\<rparr>)"

lemmas demo_shell_defs = demo_closed_def demo_launched_def demo_electron_def when_ready_def createWindow_def window_all_closed_def Let_def

lemma demo_closed_reached: "(shell_step demo_electron)\<^sup>*\<^sup>* demo_launched demo_closed"
proof -
  let ?e = "(app demo_launched)\<lparr>was_ready := True\<rparr>"
  have p: "platform demo_electron = ''darwin''" by (simp add: demo_electron_def)
  let ?r = "when_ready demo_electron (demo_launched\<lparr>app := ?e\<rparr>)"
  have "emits demo_electron (Some Ready) (app demo_launched) ?e" by (simp add: demo_launched_def demo_electron_def)
  from event [OF this] have 1: "shell_step demo_electron demo_launched ?r" by simp
  have "emits demo_electron (Some WindowAllClosed) (app ?r) ((app ?r)\<lparr>open_windows := []\<rparr>)" by (simp add: demo_shell_defs)
  from event [OF this] have "shell_step demo_electron ?r demo_closed"
    by (simp add: window_all_closed_def demo_closed_def p Let_def)
  with 1 show ?thesis by (meson r_into_rtranclp rtranclp.rtrancl_into_rtrancl)
qed

theorem one_isolated_window_witness:
  "getAllWindows demo_electron (app demo_closed) = [] \<and>
   (\<exists>w. getAllWindows demo_electron (app (on_event demo_electron (Some Activate) demo_closed)) = [w])"
proof -
  have l: "launched demo_electron demo_launched" by (simp add: launched_def demo_launched_def demo_electron_def)
  have e: "emits demo_electron (Some Activate) (app demo_closed) (app demo_closed)" by (simp add: demo_electron_def)
  have r: "resolved demo_electron (app demo_closed)" "getAllWindows demo_electron (app demo_closed) = []" by (simp_all add: demo_shell_defs)
  from one_isolated_window [OF demo_electron_ok l demo_closed_reached e] r show ?thesis by simp
qed

end
