(* ===== verification/Spec2Isabelle.thy ===== *)
theory Spec2Isabelle
  imports Node_Api Pages Halving Miners Subsidy Wallet_Init Wallet_Ui_Runs Wasm_Class Wasm_Load Wallet_Gc Electron_Shell
begin

text \<open>
  A verification development of the Retardio explorer and wallet.

  \<^bold>\<open>The program.\<close> Two JavaScript applications stand in front of a C++ node. The explorer
  (\<open>packages/explorer-next\<close>, TypeScript and React) asks the node over JSON-RPC and renders what
  it answers. The wallet (\<open>Wallet\<close>) is a Rust core compiled to WebAssembly, a generated JavaScript
  class around it, a TypeScript library and a script, and a browser page. Both depend on what the
  node (\<open>src/\<close> of the repository) promises: the explorer on its handlers, the wallet on its
  address format.

  \<^bold>\<open>The language.\<close> \<open>Prelude\<close> has positional notation, the theorem collections and the
  contract of a step relation with its invariant (\<open>transition_system\<close>), which the step relations of the wallet meet. \<open>Js_Number\<close> is
  IEEE double arithmetic with its rounding, \<open>Js_String\<close> the conversions between numbers and text and the
  string methods the sources use, \<open>Js_Value\<close> dynamically typed values, thrown errors and asynchronous
  computations on a console and an outside world, \<open>Js_Date\<close> the calendar, \<open>Jsx\<close> element trees and the text
  and links they show. Strings are lists of characters of one byte.

  \<^bold>\<open>The explorer.\<close> \<open>Halving\<close> and \<open>Miners\<close> are \<open>lib/halving.ts\<close> and \<open>lib/miners.ts\<close>; \<open>Api\<close> is
  \<open>lib/api.ts\<close>, with \<open>fetch\<close> a parameter that may fail and that changes the outside world; its
  locale \<open>chain_server\<close> states what the client relies on in a server, and the client's
  lemmas are proved there once. \<open>Components\<close> and \<open>Pages\<close> are the React components and pages and the links
  they show. \<open>Emission\<close> is the interface of an emission schedule, which \<open>Halving\<close> and \<open>Subsidy\<close>
  provide.

  \<^bold>\<open>The node.\<close> \<open>Http\<close> has requests, responses and Base64; \<open>Node_Rpc\<close> the server from the HTTP entry to
  the four handlers (\<open>httprpc.cpp\<close>, \<open>rpc/request.cpp\<close>, \<open>rpc/server.cpp\<close>, \<open>rpc/blockchain.cpp\<close>,
  \<open>rpc/mining.cpp\<close>), with batches, notifications, whitelists and the JSON-RPC versions; \<open>Node_Api\<close>
  interprets \<open>chain_server\<close> on it, for a chain that may grow between any two requests. \<open>Subsidy\<close> is
  \<open>GetBlockSubsidy\<close> and the limits of amounts. \<open>Base58\<close> and \<open>Address\<close> are both directions of
  Base58, with checksum, and the Base58 branches of destinations (\<open>base58.cpp\<close>, \<open>key_io.cpp\<close>).

  \<^bold>\<open>The wallet.\<close> \<open>Codec\<close> is the interface of text encodings, which Base64, Base58 and both hexadecimal
  decoders provide. \<open>Wallet_Core\<close> is \<open>crypto.rs\<close>: every operation takes the crates as a
  record, and \<open>crypto_ok\<close> names what their documentation promises; panics and errors are values.
  \<open>Wallet_Js\<close> is the class of \<open>pkg/retardio_wallet.js\<close> over WebAssembly instances and addresses in them;
  \<open>Wasm_Glue\<close> is how the same file copies its strings, as UTF-16 and UTF-8, into and out of the memory of an instance, and
  \<open>Wasm_Imports\<close> the table of references and the import object, \<open>Wasm_Load\<close> how it comes by an instance; \<open>Wasm_Class\<close>
  relates the operations on the memory to those of \<open>Wallet_Js\<close>; \<open>Wallet_Gc\<close> is the life of the wallet objects, with the
  finalization registry of the host. \<open>Electron_Shell\<close> is \<open>main_electron.js\<close> and
  \<open>preload.js\<close> as a step relation over the operations and events of Electron, which are a parameter.
  \<open>Wallet_Ts\<close> is \<open>wallet.ts\<close> and \<open>run.ts\<close> for one caller; \<open>Wallet_Init\<close> the interleaving of any number of callers
  of \<open>initWallet\<close>, as a step relation. \<open>Wallet_Page\<close> is \<open>index.html\<close>, \<open>Wallet_Ui\<close> the handlers of
  \<open>main.js\<close> and the steps of a page, \<open>Wallet_Ui_Inv\<close> its invariant, \<open>Wallet_Ui_Runs\<close> its runs and properties.

  \<^bold>\<open>What is shown.\<close> The explorer shows the node's chain: the lists, blocks and statistics of the client
  are those of the chain at the time of each request, and the pages render them. Where it
  does not, the exact deviation is stated (mock data when \<open>RPC_USER\<close> is not set or no request succeeds, beyond the tip, on a chain with only a
  genesis block; a reward that is not the chain's). The halving figures are exact in double arithmetic.
  The emission of the main chain ends at height 193333200 with a definite sum, below the designed 21 billion coins and above the limit of amounts. The wallet's texts survive their
  round trips, its addresses are those of the node, its wallets are recoverable from phrase or key
  through every layer, and its signatures verify. Text crosses the border to WebAssembly unchanged, whatever the
  allocator does within its contract, and a call gives back the memory it took, given enough memory for its arguments; no
  wallet object is left with an address that is not its own, and no wallet leaks, in one instance; errors of either side reach the other as the values they are, and the host's
  random bytes reach the core, or a \<open>RangeError\<close> says that the place asked for is outside the memory. Both loaders do what
  the class relies on, also when the start function of an instance throws. The page shows the wallet in hand in every state it can
  reach; the two states in which the page fails its user, and the interleaving in which the library
  confuses two wallets, are derived as such; callers that come after one completed load are safe from it. Given the documented behaviour of
  Electron the desktop shell never has two windows, and the one it has is isolated from Node.

  \<^bold>\<open>Bounds.\<close> No definition needs fuel: the loops over digits, blocks and characters recurse on a list or on a
  decreasing number. The vectors of the Base58 conversions have the sizes of the code, which are shown to be
  enough for every input. Heights are those for which doubles are exact, below \<open>2 ^ 53\<close>.

  \<^bold>\<open>Not modelled.\<close> Type declarations; style sheets;
  class merging, charts and icons, which are third-party. Of the node, everything that
  neither application reaches: consensus, networking, storage, its wallet and its graphical interface. Its SHA-256 and its
  Bech32 branch, HMAC and the handlers the explorer does not call are parameters.
\<close>

section \<open>From the node to the page\<close>

definition demo_css :: css where
  "demo_css = \<lparr>clsx = (\<lambda>vs. concat (map (\<lambda>v. case v of JStr s \<Rightarrow> s @ '' '' | _ \<Rightarrow> []) vs)), twMerge = (\<lambda>s. s)\<rparr>"

abbreviation demo_machine :: "network machine" where
  "demo_machine \<equiv> \<lparr>console = [], world = demo_network\<rparr>"

definition block_page_text :: "host \<Rightarrow> block_index \<Rightarrow> string" where
  "block_page_text hs b =
     ''RETARDIOSCANMinersMempoolMain SiteBlock #'' @ nat_to_string (nat (nHeight b)) @
     ''Mined ByRetardio MinerTransaction Count'' @ nat_to_string (length (txids b)) @
     ''Confirmations120+DetailsBlock Hash'' @ bi_hash b @
     ''Timestamp'' @ toUTCString (js_mul (Num (of_int (nTime b))) (Num 1000)) @
     ''Size'' @ numLocale hs (Num (of_int (block_size b))) @ '' bytesReward50 RTC'' @
     ''TransactionsTransaction list loading...''"

lemma block_view_node:
  assumes "nHeight b = int h" "h \<le> 2 ^ 53" "length (txids b) \<le> 2 ^ 53"
  shows "\<exists>page. block_view hs css (Some (block_shown b)) = Ok page \<and> text_content page = Ok (block_page_text hs b)"
proof -
  have "num_to_string (Num 50) = ''50''" using num_to_string_nat [of 50] by simp code_simp
  then show ?thesis
    using block_view_text [of "block_shown b" "Num (of_int (block_size b))" "Num (of_nat h)"
        "Num (of_nat (length (txids b)))" "bi_hash b" hs css] assms
    by (simp add: block_shown_def block_page_text_def num_to_string_nat)
qed

lemma block_page_node:
  assumes "node_serves e (n, arrivals)" "world m = (n, arrivals)"
    and "h < length (active_chain n)" "length (txids (active_chain n ! h)) \<le> 2 ^ 53"
  shows "\<exists>page m'. BlockPage hs css node_fetch e (nat_to_string h) m = (Ok page, m') \<and>
    text_content page = Ok (block_page_text hs (active_chain n ! h))"
proof -
  let ?b = "active_chain n ! h"
  have chain: "chain_ok (active_chain n)" using chain_of_serves(1) [OF assms(1)] by simp
  have h: "nHeight ?b = int h" by (rule chain_ok_nth(1) [OF chain assms(3)])
  have small: "h \<le> 2 ^ 53" using chain assms(3) by (simp add: chain_ok_def)
  obtain page where "block_view hs css (Some (block_shown ?b)) = Ok page"
      "text_content page = Ok (block_page_text hs ?b)"
    using block_view_node [OF h small assms(4)] by blast
  moreover obtain m' where "getBlock hs node_fetch e (Num (of_nat h)) m = (Ok (block_shown ?b), m')"
    using node_server.get_block [of e m h hs] assms(1-3) chain_of_serves(3) [OF assms(1), of h]
    by (auto simp: node_shown_def)
  ultimately show ?thesis
    by (simp add: BlockPage_def parse_int_nat_to_string [OF small] await_def io_simps)
qed


text \<open>
  C11: the page at \<open>/block/<height>\<close> of a node's block shows the height, hash, time, size and
  number of transactions that the node has for it.
\<close>

theorem block_page_shows_node_block:
  assumes "node_serves e (n, arrivals)" "world m = (n, arrivals)"
    and "h < length (active_chain n)" "length (txids (active_chain n ! h)) \<le> 2 ^ 53"
  shows "\<exists>page m'. BlockPage hs css node_fetch e (nat_to_string h) m = (Ok page, m') \<and>
    text_content page = Ok (block_page_text hs (active_chain n ! h))"
  by (rule block_page_node [OF assms])

theorem block_page_shows_node_block_witness:
  "\<exists>page m'. BlockPage demo_host demo_css node_fetch demo_env ''1'' demo_machine = (Ok page, m') \<and>
     text_content page = Ok (block_page_text demo_host (demo_block 1))"
proof -
  have "nat_to_string 1 = ''1''" by code_simp
  then show ?thesis
    using block_page_shows_node_block [of demo_env demo_node "[[], [demo_block 3]]" demo_machine 1 demo_host demo_css]
      demo_serves by (simp add: demo_network_def demo_node_def demo_block_def)
qed

lemma mock_fields:
  "height (mock_block hs 0) = JNum (Num (of_nat 10500))" "tx_count (mock_block hs 0) = JNum (Num (of_nat 5))"
  "size_bytes (mock_block hs 0) = JNum (Num (of_nat 1420))"
  "hash (mock_block hs 0) = JStr ''000000000019d6689c085ae165831e934ff763ae46a2a6c172b3f1b60a8ce26f''"
  using js_sub_nat [of 0 10500] js_add_nat [of 5 0] js_add_nat [of 1420 0] js_mul_nat [of 0 5]
  by (simp_all add: mock_block_def)

lemma nat_to_string_10500: "nat_to_string 10500 = ''10500''"
  by (simp add: nat_to_string_def digits.simps) code_simp

lemma mock_view:
  "\<exists>page rest. block_view hs css (Some (mock_block hs 0)) = Ok page \<and>
     text_content page = Ok (''RETARDIOSCANMinersMempoolMain SiteBlock #10500'' @ rest)"
proof -
  have n: "num_to_string (Num (of_nat 10500)) = ''10500''"
    unfolding nat_to_string_10500 [symmetric] by (rule num_to_string_nat) simp
  show ?thesis
    using block_view_text [OF mock_fields(3,1,2,4), of hs css, unfolded n] by force
qed

text \<open>
  A page for a height that the chain does not have is not an error page: it shows the first
  mock block, with the heading \<open>Block #10500\<close>, so the branch \<open>Block not found\<close> is dead.
\<close>

theorem block_page_beyond_tip:
  assumes "node_serves e (n, arrivals)" "world m = (n, arrivals)"
    and "length (active_chain n) \<le> h" "h \<le> 2 ^ 53"
  shows "\<exists>page m' rest. BlockPage hs css node_fetch e (nat_to_string h) m = (Ok page, m') \<and>
    text_content page = Ok (''RETARDIOSCANMinersMempoolMain SiteBlock #10500'' @ rest)"
proof -
  obtain page rest where "block_view hs css (Some (mock_block hs 0)) = Ok page"
      "text_content page = Ok (''RETARDIOSCANMinersMempoolMain SiteBlock #10500'' @ rest)"
    using mock_view by blast
  moreover obtain m' where "getBlock hs node_fetch e (Num (of_nat h)) m = (Ok (mock_block hs 0), m')"
    using node_server.get_block_beyond [of e m h hs] assms chain_of_serves(3) [OF assms(1), of h]
    by (auto simp: MOCK_BLOCKS_def)
  ultimately show ?thesis
    by (simp add: BlockPage_def parse_int_nat_to_string [OF assms(4)] await_def io_simps)
qed

theorem block_page_beyond_tip_witness:
  "\<exists>page m' rest. BlockPage demo_host demo_css node_fetch demo_env (nat_to_string 77) demo_machine = (Ok page, m') \<and>
     text_content page = Ok (''RETARDIOSCANMinersMempoolMain SiteBlock #10500'' @ rest)"
  using demo_serves
  by (intro block_page_beyond_tip [of demo_env demo_node "[[], [demo_block 3]]"])
    (simp_all add: demo_network_def demo_node_def)

text \<open>The links of the home page when it lists the blocks \<open>cs\<close>.\<close>

definition page_links :: "block_index list \<Rightarrow> json list" where
  "page_links cs = map JStr [''/'', ''/miners'', ''/mempool'', ''https://retardiochain.com'']
     @ map (\<lambda>b. JStr (''/block/'' @ num_to_string (Num (of_int (nHeight b))))) cs
     @ concat (map (\<lambda>b. [JStr (''/block/'' @ num_to_string (Num (of_int (nHeight b)))),
         JStr ''/miners/Retardio Miner'']) cs)"

lemma home_view_node:
  assumes "st_height st = JNum k"
  shows "\<exists>page. home_view hs css st (map block_shown cs) = Ok page \<and> hrefs page = page_links cs"
proof -
  let ?num = "\<lambda>v. case v of JNum a \<Rightarrow> a"
  have "height b = JNum (?num (height b)) \<and> size_bytes b = JNum (?num (size_bytes b))"
    if "b \<in> set (map block_shown cs)" for b
    using that by (auto simp: block_shown_def)
  from home_view_links [of "map block_shown cs" "\<lambda>b. ?num (height b)" "\<lambda>b. ?num (size_bytes b)", OF this assms, of hs css]
  show ?thesis by (simp add: page_links_def block_shown_def comp_def)
qed

lemma overview_height: "st_height (node_overview hs (n, arrivals)) = JNum (Num (of_int (Height n)))"
  by (simp add: node_overview_def Let_def)

lemma home_page:
  assumes "node_serves e (n, arrivals)" "world m = (n, arrivals)" "1 < length (active_chain n)"
  shows "\<exists>page m' bs rest. Home hs css node_fetch e m = (Ok page, m') \<and> concat arrivals = bs @ rest \<and>
    hrefs page = page_links (take 10 (rev (active_chain n @ bs))) \<and>
    node_extends (connect_blocks bs n, [rest]) (world m')"
proof -
  obtain m1 where m1: "getStats hs node_fetch e m = (Ok (node_overview hs (n, arrivals)), m1)"
      "node_extends (n, arrivals) (world m1)"
    using node_server.get_stats [of e m hs] assms by auto
  obtain n1 arrivals1 where w1: "world m1 = (n1, arrivals1)" by force
  obtain bs where bs: "n1 = connect_blocks bs n" "concat arrivals = bs @ concat arrivals1"
    using m1(2) by (auto simp: node_extends_def w1)
  let ?c = "active_chain n @ bs"
  have s1: "node_serves e (world m1)" "active_chain n1 = ?c"
    using extends_chain(1) [OF m1(2) assms(1)] by (simp_all add: bs(1) connect_blocks_def)
  have len: "1 < length ?c" using assms(3) by simp
  obtain m2 where m2: "getLatestBlocks hs node_fetch e m1 = (Ok (map block_shown (take 10 (rev ?c))), m2)"
      "node_extends (n1, arrivals1) (world m2)"
    using latest_shown [OF s1(1) [unfolded w1] w1] s1(2) len by auto
  obtain page where page: "home_view hs css (node_overview hs (n, arrivals)) (map block_shown (take 10 (rev ?c))) = Ok page"
      "hrefs page = page_links (take 10 (rev ?c))"
    using home_view_node [OF overview_height] by blast
  have "Home hs css node_fetch e m = (Ok page, m2)"
    using m1(1) m2(1) page(1) by (simp add: Home_def await_def io_simps)
  moreover have "node_extends (connect_blocks bs n, [concat arrivals1]) (world m2)"
    using m2(2) by (simp add: node_extends_def bs(1) split: prod.splits)
  ultimately show ?thesis using page(2) bs(2) by blast
qed

text \<open>
  The home page of a node with at least two blocks renders, and its links are those of the
  navigation bar, then one per block of the tape and two per row of the table, for the up to
  ten highest blocks in descending order.
\<close>

theorem home_page_links:
  assumes "node_serves e (n, arrivals)" "world m = (n, arrivals)" "1 < length (active_chain n)"
  shows "\<exists>page m' bs rest. Home hs css node_fetch e m = (Ok page, m') \<and> concat arrivals = bs @ rest \<and>
    hrefs page = page_links (take 10 (rev (active_chain n @ bs)))"
  using home_page [OF assms] by blast

theorem home_page_links_witness:
  "\<exists>page m' bs rest. Home demo_host demo_css node_fetch demo_env demo_machine = (Ok page, m') \<and>
     concat [[], [demo_block 3]] = bs @ rest \<and>
     hrefs page = page_links (take 10 (rev ([demo_block 0, demo_block 1, demo_block 2] @ bs)))"
  using home_page_links [of demo_env demo_node "[[], [demo_block 3]]" demo_machine demo_host demo_css] demo_serves
  by (simp add: demo_network_def demo_node_def)

lemma page_links_params:
  "block_params (page_links cs) = map (\<lambda>b. num_to_string (Num (of_int (nHeight b)))) (cs @ cs)"
proof -
  have "block_params (concat (map (\<lambda>b. [JStr (''/block/'' @ f b), JStr ''/miners/Retardio Miner'']) bs)) = map f bs"
    for f :: "block_index \<Rightarrow> string" and bs
    by (induction bs) (simp_all del: append.simps)
  then show ?thesis by (simp add: page_links_def del: append.simps)
qed

lemma link_page:
  assumes "node_serves e w" "world m = w" "b \<in> set (active_chain (fst w))" "length (txids b) \<le> 2 ^ 53"
  shows "\<exists>page m'. BlockPage hs css node_fetch e (num_to_string (Num (of_int (nHeight b)))) m = (Ok page, m') \<and>
    text_content page = Ok (block_page_text hs b)"
proof -
  obtain n arrivals where w: "w = (n, arrivals)" by force
  have chain: "chain_ok (active_chain n)" using chain_of_serves(1) [OF assms(1)] w by simp
  obtain h where h: "h < length (active_chain n)" "b = active_chain n ! h"
    using assms(3) w by (auto simp: in_set_conv_nth)
  have small: "h \<le> 2 ^ 53" using chain h(1) by (simp add: chain_ok_def)
  have "num_to_string (Num (of_int (nHeight b))) = nat_to_string h"
    using chain_ok_nth(1) [OF chain h(1)] h(2) num_to_string_nat [OF small] by simp
  then show ?thesis
    using block_page_node [of e n arrivals m h hs css] assms h w by simp
qed

text \<open>
  C38: following a block link of the home page leads to that block. The block links that the page renders are, in order,
  those of the tape and those of the table, for the same up to ten highest blocks; whenever one of them is
  followed, however many blocks the node has got since, the block page with what the link has in the place of the height shows the
  block of the node that the link stands for.
\<close>

theorem block_link_leads_to_block:
  assumes "node_serves e (n, arrivals)" "world m = (n, arrivals)" "1 < length (active_chain n)"
    and "list_all (\<lambda>b. length (txids b) \<le> 2 ^ 53) (active_chain n @ concat arrivals)"
  shows "\<exists>page m' bs rest. Home hs css node_fetch e m = (Ok page, m') \<and> concat arrivals = bs @ rest \<and>
    (let cs = take 10 (rev (active_chain n @ bs)) in
     \<forall>m2. node_extends (world m') (world m2) \<longrightarrow>
       list_all2 (\<lambda>param b. \<exists>bpage m3. BlockPage hs css node_fetch e param m2 = (Ok bpage, m3) \<and>
         text_content bpage = Ok (block_page_text hs b)) (block_params (hrefs page)) (cs @ cs))"
proof -
  obtain page m' bs rest where home: "Home hs css node_fetch e m = (Ok page, m')" "concat arrivals = bs @ rest"
      "hrefs page = page_links (take 10 (rev (active_chain n @ bs)))"
      "node_extends (connect_blocks bs n, [rest]) (world m')"
    using home_page [OF assms(1-3)] by blast
  let ?cs = "take 10 (rev (active_chain n @ bs))"
  have "node_extends (n, arrivals) (connect_blocks bs n, [rest])"
    using home(2) by (auto simp: node_extends_def)
  then have ext: "node_extends (n, arrivals) (world m')" by (rule node_extends_trans [OF _ home(4)])
  have reached: "\<exists>bpage m3. BlockPage hs css node_fetch e (num_to_string (Num (of_int (nHeight b)))) m2 = (Ok bpage, m3) \<and>
      text_content bpage = Ok (block_page_text hs b)"
    if m2: "node_extends (world m') (world m2)" and b: "b \<in> set ?cs" for m2 b
  proof (rule link_page [OF _ refl])
    show "node_serves e (world m2)"
      by (rule extends_chain(1) [OF node_extends_trans [OF ext m2] assms(1)])
    have in_chain: "b \<in> set (active_chain n @ bs)" using set_take_subset [of 10 "rev (active_chain n @ bs)"] b by auto
    then show "length (txids b) \<le> 2 ^ 53" using assms(4) home(2) by (auto simp: list_all_iff)
    obtain ds where "active_chain (fst (world m2)) = (active_chain n @ bs) @ ds"
      using node_extends_trans [OF home(4) m2]
      by (auto simp: node_extends_def connect_blocks_def split: prod.splits)
    then show "b \<in> set (active_chain (fst (world m2)))" using in_chain by auto
  qed
  have linked: "list_all2 (\<lambda>param b. \<exists>bpage m3. BlockPage hs css node_fetch e param m2 = (Ok bpage, m3) \<and>
      text_content bpage = Ok (block_page_text hs b)) (block_params (hrefs page)) (?cs @ ?cs)"
    if "node_extends (world m') (world m2)" for m2
    unfolding home(3) page_links_params list_all2_map1
    by (rule list.rel_refl_strong, rule reached [OF that]) (simp only: set_append Un_absorb)
  from home(1,2) linked show ?thesis unfolding Let_def by blast
qed

theorem block_link_leads_to_block_witness:
  "\<exists>page m' bs rest. Home demo_host demo_css node_fetch demo_env demo_machine = (Ok page, m') \<and>
     concat [[], [demo_block 3]] = bs @ rest \<and>
     (let cs = take 10 (rev ([demo_block 0, demo_block 1, demo_block 2] @ bs)) in
      \<forall>m2. node_extends (world m') (world m2) \<longrightarrow>
       list_all2 (\<lambda>param b. \<exists>bpage m3. BlockPage demo_host demo_css node_fetch demo_env param m2 = (Ok bpage, m3) \<and>
         text_content bpage = Ok (block_page_text demo_host b)) (block_params (hrefs page)) (cs @ cs))"
  using block_link_leads_to_block [of demo_env demo_node "[[], [demo_block 3]]" demo_machine demo_host demo_css] demo_serves
  by (simp add: demo_network_def demo_node_def demo_block_def)

text \<open>
  The time shown on a block page identifies the time of the block: for block times of 32
  bits, two blocks have the same UTC text only if their times are equal.
\<close>

theorem block_time_text_injective:
  assumes "0 \<le> nTime a" "nTime a < 2 ^ 32" "0 \<le> nTime b" "nTime b < 2 ^ 32"
  shows "toUTCString (timestamp (block_shown a)) = toUTCString (timestamp (block_shown b)) \<longleftrightarrow> nTime a = nTime b"
proof -
  have ts: "timestamp (block_shown c) = Num (of_int (nTime c * 1000))" if c: "0 \<le> nTime c" "nTime c < 2 ^ 32" for c
  proof -
    obtain k where k: "nTime c = int k" by (rule nonneg_int_cases [OF c(1)])
    have "k \<le> 2 ^ 32" using c(2) k by simp
    then have "k * 1000 \<le> 2 ^ 32 * 1000" by (rule mult_le_mono1)
    then have "k * 1000 \<le> 2 ^ 53" by simp
    from js_mul_nat [OF this] show ?thesis unfolding block_shown_def k by simp
  qed
  have "nTime a < 253402300800" "nTime b < 253402300800" using assms by simp_all
  then show ?thesis
    unfolding ts [OF assms(1,2)] ts [OF assms(3,4)] by (intro toUTCString_inj assms(1,3))
qed

theorem block_time_text_injective_witness:
  "toUTCString (timestamp (block_shown (demo_block 0))) \<noteq> toUTCString (timestamp (block_shown (demo_block 1)))"
  using block_time_text_injective [of "demo_block 0" "demo_block 1"] by (simp add: demo_block_def)

text \<open>
  C39: the reward and the supply that the explorer reports are not those of the chain. While the main chain is in its
  first period, \<open>getBlock\<close> gives every block the reward 50 where the node's rule pays 2397.26 coins, and the supply
  text of \<open>getStats\<close> is 50 times the height, less than a 47th of the coins that the blocks up to the tip
  have paid. (The unit tests of \<open>src/test/validation_tests.cpp\<close> expect a first subsidy of 50 coins; the
  comparison is with \<open>GetBlockSubsidy\<close> as it is.)
\<close>

theorem explorer_reward_diverges:
  assumes "node_serves e (n, arrivals)" "world m = (n, arrivals)"
    and "h < length (active_chain n)" "length (active_chain n) \<le> 87600"
  shows "\<exists>b m1 st m2.
    getBlock hs node_fetch e (Num (of_nat h)) m = (Ok b, m1) \<and> height b = JNum (Num (of_nat h)) \<and> reward b = Num 50 \<and>
    GetBlockSubsidy mainSubsidyHalvingInterval (int h) * 100 = 239726 * COIN \<and>
    getStats hs node_fetch e m = (Ok st, m2) \<and> supply_text st = numLocale hs (Num (of_nat ((length (active_chain n) - 1) * 50))) @ '' RTC'' \<and>
    47 * int ((length (active_chain n) - 1) * 50) * COIN
      < (\<Sum>i<length (active_chain n). GetBlockSubsidy mainSubsidyHalvingInterval (int i))"
proof -
  let ?L = "length (active_chain n)"
  have ne: "0 < ?L" using assms(3) by linarith
  have nh: "nHeight (active_chain n ! h) = int h"
    using chain_ok_nth(1) [OF _ assms(3)] chain_of_serves(1) [OF assms(1)] by simp
  obtain m1 where b: "getBlock hs node_fetch e (Num (of_nat h)) m = (Ok (block_shown (active_chain n ! h)), m1)"
    using node_server.get_block [of e m h hs] assms(1-3) chain_of_serves(3) [OF assms(1), of h]
    by (auto simp: node_shown_def)
  obtain m2 where st: "getStats hs node_fetch e m = (Ok (node_overview hs (n, arrivals)), m2)"
    using node_server.get_stats [of e m hs] assms(1,2) by auto
  have ht: "Height n = int (?L - 1)" using ne unfolding Height_def by linarith
  have coins: "supply_text (node_overview hs (n, arrivals)) = numLocale hs (Num (of_nat ((?L - 1) * 50))) @ '' RTC''"
    using js_mul_nat [of "?L - 1" 50] assms(4) by (simp add: node_overview_def ht del: of_nat_diff)
  obtain k where k: "?L = Suc k" using ne gr0_implies_Suc by blast
  have shown: "int ((?L - 1) * 50) = (int ?L - 1) * 50" by (simp add: k)
  have "(of_int (\<Sum>i<?L. GetBlockSubsidy mainSubsidyHalvingInterval (int i)) :: rat) = of_int (int ?L * 239726000000)"
    using emitted_first_period [OF assms(4)] by (simp add: node_emission.emitted_def)
  then have "(\<Sum>i<?L. GetBlockSubsidy mainSubsidyHalvingInterval (int i)) = int ?L * 239726000000"
    by (simp only: of_int_eq_iff)
  then have "47 * int ((?L - 1) * 50) * COIN
      < (\<Sum>i<?L. GetBlockSubsidy mainSubsidyHalvingInterval (int i))"
    unfolding shown by (simp add: COIN_def)
  then show ?thesis
    using b st coins main_subsidy [of h] assms(3,4) nh
    by (intro exI [of _ "block_shown (active_chain n ! h)"] exI [of _ m1]
        exI [of _ "node_overview hs (n, arrivals)"] exI [of _ m2] conjI)
      (simp_all add: block_shown_def COIN_def)
qed

theorem explorer_reward_diverges_witness:
  "\<exists>b m1. getBlock demo_host node_fetch demo_env (Num (of_nat 2)) demo_machine = (Ok b, m1) \<and> reward b = Num 50 \<and>
     GetBlockSubsidy mainSubsidyHalvingInterval (int 2) * 100 = 239726 * COIN"
  using explorer_reward_diverges [of demo_env demo_node "[[], [demo_block 3]]" demo_machine 2 demo_host] demo_serves
  by (auto simp: demo_network_def demo_node_def)

end
